(* ===== verification/Prelude.thy ===== *)
theory Prelude
  imports Main "HOL-Library.Word" "HOL-Library.List_Lexorder" "HOL-Library.Char_ord"
    "HOL-Library.Product_Lexorder"
begin

text \<open>
  Shared vocabulary of the development: fallible results (the \<^verbatim>\<open>?\<close> operator and
  \<^verbatim>\<open>try_fold\<close>), Rust's fixed-width integers over \<^typ>\<open>nat\<close> with checked, saturating and
  wrapping operations, byte strings with the character classes the validators use, and the
  lemma collections that carry the component proofs.

  A Rust \<^verbatim>\<open>String\<close> is a \<^typ>\<open>string\<close>: its UTF-8 bytes, one \<^typ>\<open>char\<close> per byte, so that
  \<^verbatim>\<open>len()\<close> is \<^const>\<open>length\<close> and the derived \<^verbatim>\<open>Ord\<close> is the lexicographic order
  of \<^verbatim>\<open>List_Lexorder\<close>.  A \<^verbatim>\<open>Vec<u8>\<close> is a list of 8-bit words.
\<close>

type_synonym bytes = "8 word list"

named_theorems result_simps \<open>inversion of successful results\<close>
named_theorems rust_int \<open>definitions of the checked, saturating and wrapping operations\<close>
named_theorems text_defs \<open>definitions of the text validators\<close>

section \<open>Results\<close>

text \<open>\<^verbatim>\<open>Result<T, E>\<close> is \<open>'e + 'a\<close> with \<^const>\<open>Inl\<close> for \<^verbatim>\<open>Err\<close>; \<open>and_then m f\<close> is
  \<^verbatim>\<open>f(m?)\<close>, \<open>fail_if b e\<close> is \<^verbatim>\<open>if b { return Err(e) }\<close>.\<close>

definition and_then :: "'e + 'a \<Rightarrow> ('a \<Rightarrow> 'e + 'b) \<Rightarrow> 'e + 'b" where
  "and_then m f = (case m of Inl e \<Rightarrow> Inl e | Inr x \<Rightarrow> f x)"

definition fail_if :: "bool \<Rightarrow> 'e \<Rightarrow> 'e + unit" where
  "fail_if b e = (if b then Inl e else Inr ())"

definition ok_or :: "'a option \<Rightarrow> 'e \<Rightarrow> 'e + 'a" where
  "ok_or x e = (case x of None \<Rightarrow> Inl e | Some v \<Rightarrow> Inr v)"

definition map_err :: "('e \<Rightarrow> 'f) \<Rightarrow> 'e + 'a \<Rightarrow> 'f + 'a" where
  "map_err f m = (case m of Inl e \<Rightarrow> Inl (f e) | Inr x \<Rightarrow> Inr x)"

fun try_fold :: "('a \<Rightarrow> 'b \<Rightarrow> 'e + 'a) \<Rightarrow> 'a \<Rightarrow> 'b list \<Rightarrow> 'e + 'a" where
  "try_fold f a [] = Inr a"
| "try_fold f a (x # xs) = and_then (f a x) (\<lambda>a'. try_fold f a' xs)"

text \<open>\<open>try_map\<close> is \<^verbatim>\<open>iter().map(f).collect::<Result<Vec<_>, _>>()\<close>: the first error wins.\<close>

fun try_map :: "('a \<Rightarrow> 'e + 'b) \<Rightarrow> 'a list \<Rightarrow> 'e + 'b list" where
  "try_map f [] = Inr []"
| "try_map f (x # xs) = and_then (f x) (\<lambda>y. and_then (try_map f xs) (\<lambda>ys. Inr (y # ys)))"

lemma and_then_simps [simp]:
  "and_then (Inl e) f = Inl e"
  "and_then (Inr x) f = f x"
  by (simp_all add: and_then_def)

lemma and_then_Inr [result_simps]:
  "and_then m f = Inr y \<longleftrightarrow> (\<exists>x. m = Inr x \<and> f x = Inr y)"
  by (cases m) simp_all

lemma and_then_Inl [result_simps]:
  "and_then m f = Inl e \<longleftrightarrow> m = Inl e \<or> (\<exists>x. m = Inr x \<and> f x = Inl e)"
  by (cases m) simp_all

lemma fail_if_Inr [result_simps, simp]: "fail_if b e = Inr u \<longleftrightarrow> \<not> b"
  by (simp add: fail_if_def)

lemma fail_if_Inl [result_simps, simp]: "fail_if b e = Inl e' \<longleftrightarrow> b \<and> e' = e"
  by (auto simp: fail_if_def)

lemma fail_if_cases [simp]:
  "fail_if False e = Inr ()"
  "fail_if True e = Inl e"
  by (simp_all add: fail_if_def)

lemma ok_or_Inr [result_simps, simp]: "ok_or x e = Inr v \<longleftrightarrow> x = Some v"
  by (cases x) (simp_all add: ok_or_def)

lemma ok_or_Inl [result_simps, simp]: "ok_or x e = Inl e' \<longleftrightarrow> x = None \<and> e' = e"
  by (cases x) (auto simp: ok_or_def)

lemma ok_or_simps [simp]:
  "ok_or None e = Inl e"
  "ok_or (Some v) e = Inr v"
  by (simp_all add: ok_or_def)

lemma map_err_Inr [result_simps, simp]: "map_err f m = Inr v \<longleftrightarrow> m = Inr v"
  by (cases m) (simp_all add: map_err_def)

lemma map_err_simps [simp]:
  "map_err f (Inl e) = Inl (f e)"
  "map_err f (Inr x) = Inr x"
  by (simp_all add: map_err_def)

lemma not_isl_iff [simp]: "\<not> isl m \<longleftrightarrow> (\<exists>v. m = Inr v)"
  by (cases m) simp_all

lemma unit_result_cases: "(\<exists>u. (m :: 'e + unit) = Inr u) \<longleftrightarrow> m = Inr ()"
  by auto

lemma isl_result [simp]:
  "isl (and_then m f) \<longleftrightarrow> isl m \<or> (\<exists>x. m = Inr x \<and> isl (f x))"
  "isl (fail_if b e) \<longleftrightarrow> b"
  "isl (ok_or x e) \<longleftrightarrow> x = None"
  by (cases m; simp) (auto simp: fail_if_def ok_or_def split: option.splits)

text \<open>A loop of checks succeeds exactly when every check does.\<close>

lemma try_fold_unit:
  "try_fold (\<lambda>_. f) () xs = Inr () \<longleftrightarrow> (\<forall>x \<in> set xs. f x = Inr ())"
  by (induction xs) (auto simp: result_simps)

lemma try_fold_append:
  "try_fold f a (xs @ ys) = and_then (try_fold f a xs) (\<lambda>a'. try_fold f a' ys)"
proof (induction xs arbitrary: a)
  case Nil
  then show ?case by simp
next
  case (Cons x xs)
  then show ?case by (cases "f a x") simp_all
qed

lemma try_fold_map: "try_fold f a (map g xs) = try_fold (\<lambda>a x. f a (g x)) a xs"
proof (induction xs arbitrary: a)
  case (Cons x xs)
  then show ?case by (cases "f a (g x)") simp_all
qed simp

lemma try_map_Inr:
  "try_map f xs = Inr ys \<longleftrightarrow> list_all2 (\<lambda>x y. f x = Inr y) xs ys"
  by (induction xs arbitrary: ys) (auto simp: result_simps list_all2_Cons1)

section \<open>Fixed-width integers\<close>

text \<open>
  A \<^verbatim>\<open>u16\<close>, \<^verbatim>\<open>u32\<close>, \<^verbatim>\<open>u64\<close> or \<^verbatim>\<open>usize\<close> (64 bits on the supported hosts) is a
  \<^typ>\<open>nat\<close>; an operation that can leave the width names it: the first argument is the number
  of bits.  Rust's \<^verbatim>\<open>saturating_sub\<close> is subtraction on \<^typ>\<open>nat\<close>.  A plain \<^verbatim>\<open>+\<close> wraps in a
  release build: \<open>wrapping_add\<close>.
\<close>

definition checked_add :: "nat \<Rightarrow> nat \<Rightarrow> nat \<Rightarrow> nat option" where
  [rust_int]: "checked_add w a b = (if a + b < 2 ^ w then Some (a + b) else None)"

definition checked_sub :: "nat \<Rightarrow> nat \<Rightarrow> nat option" where
  [rust_int]: "checked_sub a b = (if b \<le> a then Some (a - b) else None)"

definition saturating_add :: "nat \<Rightarrow> nat \<Rightarrow> nat \<Rightarrow> nat" where
  [rust_int]: "saturating_add w a b = min (a + b) (2 ^ w - 1)"

definition saturating_mul :: "nat \<Rightarrow> nat \<Rightarrow> nat \<Rightarrow> nat" where
  [rust_int]: "saturating_mul w a b = min (a * b) (2 ^ w - 1)"

definition wrapping_add :: "nat \<Rightarrow> nat \<Rightarrow> nat \<Rightarrow> nat" where
  [rust_int]: "wrapping_add w a b = (a + b) mod 2 ^ w"

definition wrapping_sub :: "nat \<Rightarrow> nat \<Rightarrow> nat \<Rightarrow> nat" where
  [rust_int]: "wrapping_sub w a b = (a + 2 ^ w - b mod 2 ^ w) mod 2 ^ w"

lemma checked_add_Some [simp]:
  "checked_add w a b = Some c \<longleftrightarrow> a + b < 2 ^ w \<and> c = a + b"
  by (auto simp: checked_add_def)

lemma checked_add_None [simp]: "checked_add w a b = None \<longleftrightarrow> 2 ^ w \<le> a + b"
  by (auto simp: checked_add_def)

lemma checked_sub_Some [simp]: "checked_sub a b = Some c \<longleftrightarrow> b \<le> a \<and> c = a - b"
  by (auto simp: checked_sub_def)

lemma checked_sub_None [simp]: "checked_sub a b = None \<longleftrightarrow> a < b"
  by (auto simp: checked_sub_def)

lemma wrapping_add_small [simp]: "a + b < 2 ^ w \<Longrightarrow> wrapping_add w a b = a + b"
  by (simp add: wrapping_add_def)

lemma wrapping_sub_small: "b \<le> a \<Longrightarrow> a < 2 ^ w \<Longrightarrow> wrapping_sub w a b = a - b"
proof -
  assume ba: "b \<le> a" and aw: "a < 2 ^ w"
  then have "a + 2 ^ w - b mod 2 ^ w = (a - b) + 2 ^ w" by simp
  then have "wrapping_sub w a b = ((a - b) + 2 ^ w) mod 2 ^ w"
    by (simp only: wrapping_sub_def)
  also have "\<dots> = a - b" using aw by (simp add: mod_add_self2)
  finally show "wrapping_sub w a b = a - b" .
qed

lemma saturating_add_ge: "a < 2 ^ w \<Longrightarrow> a \<le> saturating_add w a b"
  by (simp add: saturating_add_def)

lemma saturating_add_bound: "saturating_add w a b < 2 ^ w"
proof -
  have "saturating_add w a b \<le> 2 ^ w - 1" by (simp add: saturating_add_def)
  also have "\<dots> < (2 :: nat) ^ w" by simp
  finally show ?thesis .
qed

text \<open>A checked sum over a list is the sum when the sum fits, and the error otherwise.\<close>

lemma try_fold_checked_add:
  "try_fold (\<lambda>t x. ok_or (checked_add w t (f x)) e) a xs =
     (if xs = [] \<or> a + sum_list (map f xs) < 2 ^ w
      then Inr (a + sum_list (map f xs)) else Inl e)"
proof (induction xs arbitrary: a)
  case Nil
  then show ?case by simp
next
  case (Cons x xs)
  show ?case
  proof (cases "a + f x < 2 ^ w")
    case True
    with Cons [of "a + f x"] show ?thesis
      by (auto simp: checked_add_def add.assoc)
  next
    case False
    then show ?thesis by (simp add: checked_add_def)
  qed
qed

section \<open>Bytes and characters\<close>

definition is_ascii_lowercase :: "char \<Rightarrow> bool" where
  [text_defs]: "is_ascii_lowercase c \<longleftrightarrow> 97 \<le> (of_char c :: nat) \<and> (of_char c :: nat) \<le> 122"

definition is_ascii_uppercase :: "char \<Rightarrow> bool" where
  [text_defs]: "is_ascii_uppercase c \<longleftrightarrow> 65 \<le> (of_char c :: nat) \<and> (of_char c :: nat) \<le> 90"

definition is_ascii_digit :: "char \<Rightarrow> bool" where
  [text_defs]: "is_ascii_digit c \<longleftrightarrow> 48 \<le> (of_char c :: nat) \<and> (of_char c :: nat) \<le> 57"

definition is_ascii_alphanumeric :: "char \<Rightarrow> bool" where
  [text_defs]: "is_ascii_alphanumeric c \<longleftrightarrow>
     is_ascii_lowercase c \<or> is_ascii_uppercase c \<or> is_ascii_digit c"

definition starts_with :: "string \<Rightarrow> string \<Rightarrow> bool" where
  [text_defs]: "starts_with s p \<longleftrightarrow> take (length p) s = p"

definition ends_with :: "string \<Rightarrow> string \<Rightarrow> bool" where
  [text_defs]: "ends_with s p \<longleftrightarrow> length p \<le> length s \<and> drop (length s - length p) s = p"

text \<open>\<^verbatim>\<open>str::contains\<close>, \<^verbatim>\<open>str::strip_prefix\<close>, \<^verbatim>\<open>str::split_once\<close>, \<^verbatim>\<open>str::rsplit_once\<close>.\<close>

fun str_contains :: "string \<Rightarrow> string \<Rightarrow> bool" where
  "str_contains [] p \<longleftrightarrow> p = []"
| "str_contains (c # s) p \<longleftrightarrow> starts_with (c # s) p \<or> str_contains s p"

definition strip_prefix :: "string \<Rightarrow> string \<Rightarrow> string option" where
  [text_defs]: "strip_prefix s p = (if starts_with s p then Some (drop (length p) s) else None)"

definition split_once :: "char \<Rightarrow> string \<Rightarrow> (string \<times> string) option" where
  [text_defs]: "split_once c s =
     (if c \<in> set s then Some (takeWhile (\<lambda>x. x \<noteq> c) s, tl (dropWhile (\<lambda>x. x \<noteq> c) s)) else None)"

definition rsplit_once :: "char \<Rightarrow> string \<Rightarrow> (string \<times> string) option" where
  [text_defs]: "rsplit_once c s =
     map_option (\<lambda>(a, b). (rev b, rev a)) (split_once c (rev s))"

definition to_lower :: "char \<Rightarrow> char" where
  [text_defs]: "to_lower c = (if is_ascii_uppercase c then char_of ((of_char c :: nat) + 32) else c)"

definition to_ascii_lowercase :: "string \<Rightarrow> string" where
  [text_defs]: "to_ascii_lowercase s = map to_lower s"

definition eq_ignore_ascii_case :: "string \<Rightarrow> string \<Rightarrow> bool" where
  [text_defs]: "eq_ignore_ascii_case s t \<longleftrightarrow> to_ascii_lowercase s = to_ascii_lowercase t"

text \<open>\<^verbatim>\<open>str::split(c)\<close>: the segments between the separators, at least one of them.\<close>

fun split_on :: "char \<Rightarrow> string \<Rightarrow> string list" where
  "split_on c [] = [[]]"
| "split_on c (x # xs) =
     (if x = c then [] # split_on c xs
      else (case split_on c xs of [] \<Rightarrow> [[x]] | y # ys \<Rightarrow> (x # y) # ys))"

text \<open>\<^verbatim>\<open>str::chars()\<close>: the Unicode scalar values of a UTF-8 string.  A Rust string is valid
  UTF-8, so the truncated tails that end the list early do not occur.\<close>

fun chars :: "string \<Rightarrow> nat list" where
  "chars [] = []"
| "chars (b0 # bs) =
     (let n = (of_char b0 :: nat) in
      if n < 128 then n # chars bs
      else if n < 224 then
        (case bs of
           b1 # r \<Rightarrow> ((n mod 32) * 64 + of_char b1 mod 64) # chars r
         | _ \<Rightarrow> [])
      else if n < 240 then
        (case bs of
           b1 # b2 # r \<Rightarrow>
             (((n mod 16) * 64 + of_char b1 mod 64) * 64 + of_char b2 mod 64) # chars r
         | _ \<Rightarrow> [])
      else
        (case bs of
           b1 # b2 # b3 # r \<Rightarrow>
             ((((n mod 8) * 64 + of_char b1 mod 64) * 64 + of_char b2 mod 64) * 64
               + of_char b3 mod 64) # chars r
         | _ \<Rightarrow> []))"

text \<open>\<^verbatim>\<open>char::is_control\<close> (general category Cc) and \<^verbatim>\<open>char::is_whitespace\<close> (the
  \<^verbatim>\<open>White_Space\<close> property); \<open>blank s\<close> is \<^verbatim>\<open>s.trim().is_empty()\<close>.\<close>

definition is_control :: "nat \<Rightarrow> bool" where
  [text_defs]: "is_control n \<longleftrightarrow> n \<le> 31 \<or> 127 \<le> n \<and> n \<le> 159"

definition is_whitespace :: "nat \<Rightarrow> bool" where
  [text_defs]: "is_whitespace n \<longleftrightarrow>
     9 \<le> n \<and> n \<le> 13 \<or> n = 32 \<or> n = 133 \<or> n = 160 \<or> n = 5760 \<or>
     8192 \<le> n \<and> n \<le> 8202 \<or> n = 8232 \<or> n = 8233 \<or> n = 8239 \<or> n = 8287 \<or> n = 12288"

definition blank :: "string \<Rightarrow> bool" where
  [text_defs]: "blank s \<longleftrightarrow> list_all is_whitespace (chars s)"

text \<open>A lowercase hexadecimal SHA-256 digest, the check the crates share.\<close>

definition is_digest :: "string \<Rightarrow> bool" where
  "is_digest s \<longleftrightarrow> length s = 64 \<and>
     list_all (\<lambda>b. is_ascii_digit b \<or> 97 \<le> (of_char b :: nat) \<and> (of_char b :: nat) \<le> 102) s"

section \<open>Facts about text\<close>

lemma split_on_nonempty [simp]: "split_on c s \<noteq> []"
  by (induction s) (auto split: list.split)

lemma split_on_append: "split_on c (xs @ c # ys) = split_on c xs @ split_on c ys"
proof (induction xs)
  case (Cons x xs)
  then show ?case by (cases "split_on c xs") auto
qed simp

text \<open>\<open>join c\<close> is the inverse of \<open>split_on c\<close>.\<close>

fun join_on :: "char \<Rightarrow> string list \<Rightarrow> string" where
  "join_on c [] = []"
| "join_on c [s] = s"
| "join_on c (s # t # ss) = s @ c # join_on c (t # ss)"

lemma join_on_Cons: "ss \<noteq> [] \<Longrightarrow> join_on c (s # ss) = s @ c # join_on c ss"
  by (cases ss) simp_all

lemma join_on_append:
  "ss \<noteq> [] \<Longrightarrow> ts \<noteq> [] \<Longrightarrow> join_on c (ss @ ts) = join_on c ss @ c # join_on c ts"
  by (induction ss rule: induct_list012) (simp_all add: join_on_Cons)

lemma join_split [simp]: "join_on c (split_on c s) = s"
proof (induction s)
  case (Cons x s)
  then show ?case
    by (cases "split_on c s" rule: list.exhaust; cases "tl (split_on c s)") (auto simp: join_on_Cons)
qed simp

lemma starts_with_iff: "starts_with s p \<longleftrightarrow> (\<exists>r. s = p @ r)"
  by (auto simp: starts_with_def) (metis append_take_drop_id)

lemma ends_with_single: "ends_with s [c] \<longleftrightarrow> (\<exists>r. s = r @ [c])"
  by (cases s rule: rev_cases) (auto simp: ends_with_def)

lemma to_lower_idem [simp]: "to_lower (to_lower c) = to_lower c"
proof (cases "is_ascii_uppercase c")
  case True
  then have "(of_char c :: nat) + 32 \<le> 122" "97 \<le> (of_char c :: nat) + 32"
    by (simp_all add: is_ascii_uppercase_def)
  then have "of_char (char_of ((of_char c :: nat) + 32)) = (of_char c :: nat) + 32"
    by (simp add: of_char_of)
  with True \<open>97 \<le> _\<close> show ?thesis by (simp add: to_lower_def is_ascii_uppercase_def)
qed (simp add: to_lower_def)

lemma to_ascii_lowercase_idem [simp]: "to_ascii_lowercase (to_ascii_lowercase s) = to_ascii_lowercase s"
  by (simp add: to_ascii_lowercase_def)

end
