(* ===== verification/Ordered_Map.thy ===== *)
theory Ordered_Map
  imports Prelude
begin

text \<open>
  \<^verbatim>\<open>BTreeMap\<close> as the list of its entries in key order, and the interface its clients rely
  on: the locale \<open>ordered_map\<close> states the laws of lookup, insertion and removal, and proves
  once what the storage accounting needs, namely how the number of entries and the total
  weight of the values move under an insertion and a removal.  The interpretation \<open>bt\<close>
  discharges the laws for the sorted entry lists.
\<close>

section \<open>The interface\<close>

lemma entries_conv:
  "distinct (map fst xs) \<Longrightarrow> xs = map (\<lambda>k. (k, the (map_of xs k))) (map fst xs)"
proof (rule nth_equalityI)
  fix i
  assume d: "distinct (map fst xs)" and i: "i < length xs"
  then have "map_of xs (fst (xs ! i)) = Some (snd (xs ! i))"
    by (metis map_of_is_SomeI nth_mem prod.collapse)
  with i show "xs ! i = map (\<lambda>k. (k, the (map_of xs k))) (map fst xs) ! i"
    by (simp add: prod_eq_iff)
qed simp

lemma sorted_entries_ext:
  assumes "sorted_wrt (<) (map fst xs)" and "sorted_wrt (<) (map fst ys)"
    and "map_of xs = map_of (ys :: ('k :: linorder \<times> 'v) list)"
  shows "xs = ys"
proof -
  have d: "distinct (map fst xs)" "distinct (map fst ys)"
    using assms(1,2) by (auto simp: strict_sorted_iff)
  have "set (map fst xs) = set (map fst ys)"
    using assms(3) by (metis dom_map_of_conv_image_fst list.set_map)
  then have "map fst xs = map fst ys"
    using assms(1,2) by (metis sorted_distinct_set_unique strict_sorted_iff)
  with assms(3) show ?thesis
    using entries_conv [OF d(1)] entries_conv [OF d(2)] by metis
qed

locale ordered_map =
  fixes get :: "'m \<Rightarrow> 'k :: linorder \<Rightarrow> 'v option"
    and ins :: "'k \<Rightarrow> 'v \<Rightarrow> 'm \<Rightarrow> 'm"
    and rem :: "'k \<Rightarrow> 'm \<Rightarrow> 'm"
    and ents :: "'m \<Rightarrow> ('k \<times> 'v) list"
    and inv :: "'m \<Rightarrow> bool"
  assumes get_ins: "inv m \<Longrightarrow> get (ins k v m) = (get m)(k \<mapsto> v)"
    and get_rem: "inv m \<Longrightarrow> get (rem k m) = (get m)(k := None)"
    and inv_ins: "inv m \<Longrightarrow> inv (ins k v m)"
    and inv_rem: "inv m \<Longrightarrow> inv (rem k m)"
    and get_ents: "inv m \<Longrightarrow> map_of (ents m) = get m"
    and sorted_ents: "inv m \<Longrightarrow> sorted_wrt (<) (map fst (ents m))"
begin

lemma distinct_ents: "inv m \<Longrightarrow> distinct (map fst (ents m))"
  using sorted_ents by (metis strict_sorted_iff)

lemma dom_get: "inv m \<Longrightarrow> dom (get m) = fst ` set (ents m)"
  by (metis get_ents dom_map_of_conv_image_fst)

lemma finite_dom: "inv m \<Longrightarrow> finite (dom (get m))"
  by (simp add: dom_get)

lemma weight_eq:
  assumes "inv m"
  shows "sum_list (map (\<lambda>e. f (snd e)) (ents m)) = (\<Sum>k \<in> dom (get m). f (the (get m k)) :: nat)"
proof -
  have d: "distinct (map fst (ents m))" using assms by (rule distinct_ents)
  have v: "snd e = the (get m (fst e))" if "e \<in> set (ents m)" for e
    using that d get_ents [OF assms] by (metis map_of_is_SomeI option.sel prod.collapse)
  have "sum_list (map (\<lambda>e. f (snd e)) (ents m)) = (\<Sum>e \<leftarrow> ents m. f (the (get m (fst e))))"
    using v by (metis (mono_tags, lifting) map_eq_conv)
  also have "\<dots> = (\<Sum>k \<leftarrow> map fst (ents m). f (the (get m k)))"
    by (simp add: comp_def)
  also have "\<dots> = (\<Sum>k \<in> set (map fst (ents m)). f (the (get m k)))"
    using d by (rule sum_list_distinct_conv_sum_set)
  finally show ?thesis by (simp add: dom_get [OF assms])
qed

lemma weight_get_le:
  assumes "inv m" and "get m k = Some v"
  shows "f v \<le> sum_list (map (\<lambda>e. f (snd e) :: nat) (ents m))"
proof -
  have "f (the (get m k)) \<le> (\<Sum>k \<in> dom (get m). f (the (get m k)))"
    using assms finite_dom by (intro member_le_sum) auto
  with assms show ?thesis by (simp add: weight_eq)
qed

lemma weight_ins:
  assumes "inv m"
  shows "sum_list (map (\<lambda>e. f (snd e)) (ents (ins k v m)))
      + (case get m k of None \<Rightarrow> 0 | Some u \<Rightarrow> f u)
    = sum_list (map (\<lambda>e. f (snd e)) (ents m)) + (f v :: nat)"
proof -
  let ?S = "\<lambda>g. \<Sum>j \<in> dom (get m) - {k}. f (the (g j))"
  have old: "sum_list (map (\<lambda>e. f (snd e)) (ents m))
      = ?S (get m) + (case get m k of None \<Rightarrow> 0 | Some u \<Rightarrow> f u)"
  proof (cases "get m k")
    case None
    then have "dom (get m) - {k} = dom (get m)" by auto
    with None show ?thesis by (simp add: weight_eq [OF assms])
  next
    case (Some u)
    then show ?thesis
      using sum.remove [OF finite_dom [OF assms], of k "\<lambda>j. f (the (get m j))"]
      by (simp add: weight_eq [OF assms] domI)
  qed
  have "sum_list (map (\<lambda>e. f (snd e)) (ents (ins k v m)))
      = (\<Sum>j \<in> insert k (dom (get m)). f (the (((get m)(k \<mapsto> v)) j)))"
    using weight_eq [OF inv_ins [OF assms]] by (simp add: get_ins [OF assms])
  also have "\<dots> = f v + ?S ((get m)(k \<mapsto> v))"
    by (subst sum.insert_remove) (simp_all add: finite_dom assms)
  also have "?S ((get m)(k \<mapsto> v)) = ?S (get m)"
    by (rule sum.cong) auto
  finally show ?thesis using old by simp
qed

lemma weight_rem:
  assumes "inv m"
  shows "sum_list (map (\<lambda>e. f (snd e)) (ents (rem k m)))
      + (case get m k of None \<Rightarrow> 0 | Some u \<Rightarrow> f u)
    = sum_list (map (\<lambda>e. f (snd e) :: nat) (ents m))"
proof (cases "get m k")
  case None
  then have "get (rem k m) = get m" using get_rem [OF assms] by auto
  with None show ?thesis by (simp add: weight_eq inv_rem assms)
next
  case (Some u)
  have "sum_list (map (\<lambda>e. f (snd e)) (ents (rem k m)))
      = (\<Sum>j \<in> dom (get m) - {k}. f (the (((get m)(k := None)) j)))"
    using weight_eq [OF inv_rem [OF assms]] by (simp add: get_rem [OF assms])
  also have "\<dots> = (\<Sum>j \<in> dom (get m) - {k}. f (the (get m j)))"
    by (rule sum.cong) auto
  finally show ?thesis
    using Some sum.remove [OF finite_dom [OF assms], of k "\<lambda>j. f (the (get m j))"]
    by (simp add: weight_eq [OF assms] domI)
qed

lemma length_ins:
  "inv m \<Longrightarrow> length (ents (ins k v m))
     = (if get m k = None then Suc (length (ents m)) else length (ents m))"
  using weight_ins [of m "\<lambda>_. 1" k v] by (simp add: sum_list_triv split: option.splits)

lemma length_rem:
  "inv m \<Longrightarrow> length (ents (rem k m))
     = (if get m k = None then length (ents m) else length (ents m) - 1)"
  using weight_rem [of m "\<lambda>_. 1" k] by (simp add: sum_list_triv split: option.splits)

lemma length_get_pos: "inv m \<Longrightarrow> get m k = Some v \<Longrightarrow> 0 < length (ents m)"
  using weight_rem [of m "\<lambda>_. 1" k] by (auto simp: sum_list_triv)

text \<open>Two maps with the same lookups have the same entries, in the same order.\<close>

lemma ents_ext:
  assumes "inv m" and "inv n" and "get m = get n"
  shows "ents m = ents n"
proof (rule sorted_entries_ext)
  show "sorted_wrt (<) (map fst (ents m))" "sorted_wrt (<) (map fst (ents n))"
    using assms sorted_ents by auto
  show "map_of (ents m) = map_of (ents n)" using assms get_ents by metis
qed

end

section \<open>Sorted entry lists\<close>

type_synonym ('k, 'v) btree = "('k \<times> 'v) list"

definition bt_ok :: "('k :: linorder, 'v) btree \<Rightarrow> bool" where
  "bt_ok m \<longleftrightarrow> sorted_wrt (<) (map fst m)"

definition bt_get :: "('k :: linorder, 'v) btree \<Rightarrow> 'k \<Rightarrow> 'v option" where
  "bt_get m k = map_of m k"

fun bt_insert :: "'k :: linorder \<Rightarrow> 'v \<Rightarrow> ('k, 'v) btree \<Rightarrow> ('k, 'v) btree" where
  "bt_insert k v [] = [(k, v)]"
| "bt_insert k v ((a, b) # m) =
     (if k < a then (k, v) # (a, b) # m
      else if k = a then (k, v) # m
      else (a, b) # bt_insert k v m)"

definition bt_remove :: "'k :: linorder \<Rightarrow> ('k, 'v) btree \<Rightarrow> ('k, 'v) btree" where
  "bt_remove k m = filter (\<lambda>e. fst e \<noteq> k) m"

lemma map_of_bt_insert: "map_of (bt_insert k v m) = (map_of m)(k \<mapsto> v)"
  by (induction k v m rule: bt_insert.induct) auto

lemma set_bt_insert: "set (map fst (bt_insert k v m)) = insert k (set (map fst m))"
  by (induction k v m rule: bt_insert.induct) auto

lemma bt_ok_insert: "bt_ok m \<Longrightarrow> bt_ok (bt_insert k v m)"
  unfolding bt_ok_def
proof (induction k v m rule: bt_insert.induct)
  case (2 k v a b m)
  have "\<forall>x \<in> set (map fst (bt_insert k v m)). k < x \<or> k = x \<or> x \<in> set (map fst m)"
    unfolding set_bt_insert by simp
  with 2 show ?case using set_bt_insert [of k v m] by auto
qed simp

lemma map_of_bt_remove: "map_of (bt_remove k m) = (map_of m)(k := None)"
  by (induction m) (auto simp: bt_remove_def)

lemma bt_ok_remove: "bt_ok m \<Longrightarrow> bt_ok (bt_remove k m)"
  unfolding bt_ok_def bt_remove_def by (induction m) auto

lemma bt_ok_Nil [simp]: "bt_ok []"
  by (simp add: bt_ok_def)

interpretation bt: ordered_map bt_get bt_insert bt_remove "\<lambda>m. m" bt_ok
proof
  fix m :: "('k :: linorder, 'v) btree" and k v
  assume ok: "bt_ok m"
  show "bt_get (bt_insert k v m) = (bt_get m)(k \<mapsto> v)"
    by (simp add: bt_get_def fun_eq_iff map_of_bt_insert)
  show "bt_get (bt_remove k m) = (bt_get m)(k := None)"
    by (simp add: bt_get_def fun_eq_iff map_of_bt_remove)
  show "bt_ok (bt_insert k v m)" "bt_ok (bt_remove k m)"
    using ok by (simp_all add: bt_ok_insert bt_ok_remove)
  show "map_of m = bt_get m" by (simp add: bt_get_def fun_eq_iff)
  show "sorted_wrt (<) (map fst m)" using ok by (simp add: bt_ok_def)
qed

lemma bt_get_Nil [simp]: "bt_get [] k = None"
  by (simp add: bt_get_def)

lemma bt_ext: "bt_ok m \<Longrightarrow> bt_ok n \<Longrightarrow> (\<And>k. bt_get m k = bt_get n k) \<Longrightarrow> m = n"
  by (rule bt.ents_ext) auto

lemma bt_get_in_set: "bt_ok m \<Longrightarrow> bt_get m k = Some v \<longleftrightarrow> (k, v) \<in> set m"
  using bt.distinct_ents [of m] by (simp add: bt_get_def)

lemma bt_insert_entries: "e \<in> set (bt_insert k v m) \<Longrightarrow> e = (k, v) \<or> e \<in> set m"
  by (induction k v m rule: bt_insert.induct) (auto split: if_splits)

lemmas bt_simps [simp] = bt.get_ins bt.get_rem bt.inv_ins bt.inv_rem

end
