(* ===== verification/Storage.thy ===== *)
theory Storage
  imports Ordered_Map
begin

text \<open>
  \<^verbatim>\<open>crates/cartridge-storage/src/lib.rs\<close>: the data, limits and errors of the storage layer, its
  validators, and the transaction routine \<^verbatim>\<open>apply_mutations\<close> every backend shares.  The lemmas
  show what an accepted transaction looks like, that the routine's running totals are the exact
  change of the real usage (so that the cached usage stays exact), and that it applies either
  all of its mutations or none.
\<close>

section \<open>Limits, errors and data\<close>

definition MAX_KEY_BYTES :: nat where "MAX_KEY_BYTES = 256"
definition MAX_STORAGE_BYTES :: nat where "MAX_STORAGE_BYTES = 64 * 1024 * 1024"
definition MAX_STORAGE_KEYS :: nat where "MAX_STORAGE_KEYS = 100000"
definition MAX_STORAGE_VALUE_BYTES :: nat where "MAX_STORAGE_VALUE_BYTES = 8 * 1024 * 1024"
definition MAX_TRANSACTION_INPUT_BYTES :: nat where
  "MAX_TRANSACTION_INPUT_BYTES = 16 * 1024 * 1024"
definition MAX_TRANSACTION_OPERATIONS :: nat where "MAX_TRANSACTION_OPERATIONS = 128"
definition USIZE_MAX :: nat where "USIZE_MAX = 2 ^ 64 - 1"

lemmas storage_consts = MAX_KEY_BYTES_def MAX_STORAGE_BYTES_def MAX_STORAGE_KEYS_def
  MAX_STORAGE_VALUE_BYTES_def MAX_TRANSACTION_INPUT_BYTES_def MAX_TRANSACTION_OPERATIONS_def
  USIZE_MAX_def

record storage_limits =
  max_bytes :: nat
  max_keys :: nat
  max_value_bytes :: nat

record storage_usage =
  u_bytes :: nat
  u_keys :: nat

record storage_mutation =
  m_key :: string
  m_value :: "bytes option"

record transaction_result =
  applied :: bool
  t_revision :: nat

record namespace_state =
  ns_schema :: nat
  ns_revision :: nat
  ns_entries :: "(string, bytes) btree"
  ns_bytes :: nat

record memory_storage =
  namespaces :: "(string, namespace_state) btree"

text \<open>The reasons a snapshot or a document is \<^verbatim>\<open>Corrupt\<close>, one per message of the source.\<close>

datatype corrupt_reason =
    SnapshotTooLarge | SnapshotNotJson | UnsupportedSnapshotFormat nat
  | Format1DeclaresSchema | OldFormatDeclaresRevision | SnapshotInvalidId
  | SnapshotDigestMismatch | UnsupportedCompatibilityFormat nat | Format1CannotHoldSchema
  | SnapshotTooManyKeys | SnapshotInvalidKey string | SnapshotValueTooLarge string
  | SnapshotValueNotHex string | SnapshotUsageOverflow | SnapshotOverBudget
  | ConflictingBlobSizes string | SerializationFailed

datatype storage_error =
    InvalidNamespace string
  | InvalidKey string
  | InvalidLimits
  | ValueTooLarge nat nat
  | QuotaExceeded nat nat
  | KeyLimitExceeded nat
  | Unavailable
  | Corrupt corrupt_reason
  | NoRecoverableState
  | SnapshotIdentity string string
  | SchemaMismatch nat nat
  | StateChanged
  | LockTimeout nat
  | UnsafePath string
  | InvalidTransaction
  | TransactionTooLarge nat nat
  | RevisionOverflow
  | InvalidSchemaTransition nat nat

section \<open>Validators\<close>

definition validate_namespace :: "string \<Rightarrow> storage_error + unit" where
  "validate_namespace ns =
     fail_if (ns = [] \<or> length ns > 128 \<or>
       \<not> list_all (\<lambda>b. is_ascii_lowercase b \<or> is_ascii_digit b \<or> b = CHR ''-'' \<or> b = CHR ''.'') ns)
     (InvalidNamespace ns)"

definition validate_key :: "string \<Rightarrow> storage_error + unit" where
  "validate_key key =
     fail_if (key = [] \<or> length key > MAX_KEY_BYTES \<or>
       starts_with key ''/'' \<or> ends_with key ''/'' \<or>
       \<not> list_all (\<lambda>b. is_ascii_alphanumeric b \<or> b = CHR ''-'' \<or> b = CHR ''_'' \<or> b = CHR ''.''
             \<or> b = CHR ''/'') key \<or>
       list_ex (\<lambda>segment. segment = [] \<or> segment = ''.'' \<or> segment = ''..'') (split_on (CHR ''/'') key))
     (InvalidKey key)"

definition validate_prefix :: "string \<Rightarrow> storage_error + unit" where
  "validate_prefix prefix =
     (if prefix = [] then Inr ()
      else validate_key (if ends_with prefix ''/'' then butlast prefix else prefix))"

definition validate_limits :: "storage_limits \<Rightarrow> storage_error + unit" where
  "validate_limits l =
     fail_if (max_bytes l = 0 \<or> max_keys l = 0 \<or> max_value_bytes l = 0 \<or>
       max_value_bytes l > max_bytes l \<or> max_bytes l > MAX_STORAGE_BYTES \<or>
       max_keys l > MAX_STORAGE_KEYS \<or> max_value_bytes l > MAX_STORAGE_VALUE_BYTES)
     InvalidLimits"

definition validate_entry_limits ::
    "(string, bytes) btree \<Rightarrow> storage_limits \<Rightarrow> storage_error + storage_usage" where
  "validate_entry_limits entries l =
     and_then (validate_limits l) (\<lambda>_.
     and_then (fail_if (length entries > max_keys l) (KeyLimitExceeded (max_keys l))) (\<lambda>_.
     and_then (try_fold (\<lambda>total value.
         and_then (fail_if (length value > max_value_bytes l)
             (ValueTooLarge (length value) (max_value_bytes l))) (\<lambda>_.
         ok_or (checked_add 64 total (length value)) (QuotaExceeded USIZE_MAX (max_bytes l))))
       0 (map snd entries)) (\<lambda>total.
     and_then (fail_if (total > max_bytes l) (QuotaExceeded total (max_bytes l))) (\<lambda>_.
     Inr \<lparr>u_bytes = total, u_keys = length entries\<rparr>))))"

definition value_len :: "bytes option \<Rightarrow> nat" where
  "value_len v = (case v of None \<Rightarrow> 0 | Some b \<Rightarrow> length b)"

text \<open>One iteration of the loop of \<^verbatim>\<open>validate_mutations\<close>: the set of keys seen so far and the
  number of input bytes.\<close>

definition validate_mutation ::
    "storage_limits \<Rightarrow> string set \<times> nat \<Rightarrow> storage_mutation \<Rightarrow> storage_error + string set \<times> nat" where
  "validate_mutation l acc m =
     (case acc of (keys, input_bytes) \<Rightarrow>
      and_then (validate_key (m_key m)) (\<lambda>_.
      and_then (fail_if (m_key m \<in> keys) InvalidTransaction) (\<lambda>_.
      and_then (ok_or (Option.bind (checked_add 64 input_bytes (length (m_key m)))
          (\<lambda>total. case m_value m of None \<Rightarrow> Some total
             | Some value \<Rightarrow> checked_add 64 total (length value)))
        (TransactionTooLarge USIZE_MAX MAX_TRANSACTION_INPUT_BYTES)) (\<lambda>total.
      and_then (case m_value m of None \<Rightarrow> Inr ()
          | Some value \<Rightarrow> fail_if (length value > max_value_bytes l)
              (ValueTooLarge (length value) (max_value_bytes l))) (\<lambda>_.
      Inr (insert (m_key m) keys, total))))))"

definition validate_mutations ::
    "storage_mutation list \<Rightarrow> storage_limits \<Rightarrow> storage_error + unit" where
  "validate_mutations ms l =
     and_then (validate_limits l) (\<lambda>_.
     and_then (fail_if (ms = [] \<or> length ms > MAX_TRANSACTION_OPERATIONS) InvalidTransaction) (\<lambda>_.
     and_then (try_fold (validate_mutation l) ({}, 0) ms) (\<lambda>acc.
     fail_if (snd acc > MAX_TRANSACTION_INPUT_BYTES)
       (TransactionTooLarge (snd acc) MAX_TRANSACTION_INPUT_BYTES))))"

definition validate_compare_exchange ::
    "string \<Rightarrow> bytes option \<Rightarrow> bytes option \<Rightarrow> storage_limits \<Rightarrow> storage_error + unit" where
  "validate_compare_exchange key expected replacement l =
     and_then (ok_or (Option.bind (checked_add 64 (length key) (value_len expected))
         (\<lambda>total. checked_add 64 total (value_len replacement)))
       (TransactionTooLarge USIZE_MAX MAX_TRANSACTION_INPUT_BYTES)) (\<lambda>input_bytes.
     and_then (fail_if (input_bytes > MAX_TRANSACTION_INPUT_BYTES)
       (TransactionTooLarge input_bytes MAX_TRANSACTION_INPUT_BYTES)) (\<lambda>_.
     and_then (validate_mutations [\<lparr>m_key = key, m_value = replacement\<rparr>] l) (\<lambda>_.
     fail_if (expected \<noteq> None \<and> value_len expected > max_value_bytes l)
       (ValueTooLarge (value_len expected) (max_value_bytes l)))))"

section \<open>Transactions\<close>

record mutation_totals =
  removed_bytes :: nat
  added_bytes :: nat
  removed_keys :: nat
  added_keys :: nat
  changed :: bool

text \<open>One iteration of the counting loop of \<^verbatim>\<open>apply_mutations\<close>.  The two key counters grow by at
  most one per element of a slice, so their unchecked increments cannot wrap.\<close>

definition count_mutation ::
    "(string, bytes) btree \<Rightarrow> storage_limits \<Rightarrow> mutation_totals \<Rightarrow> storage_mutation
      \<Rightarrow> storage_error + mutation_totals" where
  "count_mutation entries l t m =
     (let current = bt_get entries (m_key m) in
      if current = m_value m then Inr t
      else
        and_then (case current of
            Some cur \<Rightarrow>
              and_then (ok_or (checked_add 64 (removed_bytes t) (length cur))
                  (QuotaExceeded USIZE_MAX (max_bytes l))) (\<lambda>rb.
              Inr (t\<lparr>changed := True, removed_bytes := rb,
                     removed_keys := removed_keys t + (if m_value m = None then 1 else 0)\<rparr>))
          | None \<Rightarrow>
              Inr (t\<lparr>changed := True,
                     added_keys := added_keys t + (if m_value m \<noteq> None then 1 else 0)\<rparr>)) (\<lambda>t'.
        case m_value m of
            Some value \<Rightarrow>
              and_then (ok_or (checked_add 64 (added_bytes t') (length value))
                  (QuotaExceeded USIZE_MAX (max_bytes l))) (\<lambda>ab.
              Inr (t'\<lparr>added_bytes := ab\<rparr>))
          | None \<Rightarrow> Inr t'))"

definition apply_mutation :: "storage_mutation \<Rightarrow> (string, bytes) btree \<Rightarrow> (string, bytes) btree" where
  "apply_mutation m entries =
     (case m_value m of
        Some value \<Rightarrow> bt_insert (m_key m) value entries
      | None \<Rightarrow> bt_remove (m_key m) entries)"

text \<open>\<^verbatim>\<open>apply_mutations\<close> writes \<^verbatim>\<open>entries\<close> and \<^verbatim>\<open>usage\<close> only on its success path; the result
  carries what it leaves in them.\<close>

definition apply_mutations ::
    "(string, bytes) btree \<Rightarrow> storage_usage \<Rightarrow> storage_mutation list \<Rightarrow> storage_limits
      \<Rightarrow> storage_error + (bool \<times> (string, bytes) btree \<times> storage_usage)" where
  "apply_mutations entries usage ms l =
     and_then (try_fold (count_mutation entries l)
       \<lparr>removed_bytes = 0, added_bytes = 0, removed_keys = 0, added_keys = 0, changed = False\<rparr> ms) (\<lambda>t.
     and_then (ok_or (Option.bind (checked_sub (u_bytes usage) (removed_bytes t))
         (\<lambda>b. checked_add 64 b (added_bytes t))) (QuotaExceeded USIZE_MAX (max_bytes l))) (\<lambda>next_bytes.
     and_then (ok_or (Option.bind (checked_sub (u_keys usage) (removed_keys t))
         (\<lambda>k. checked_add 64 k (added_keys t))) (KeyLimitExceeded (max_keys l))) (\<lambda>next_keys.
     and_then (fail_if (next_bytes > max_bytes l) (QuotaExceeded next_bytes (max_bytes l))) (\<lambda>_.
     and_then (fail_if (next_keys > max_keys l) (KeyLimitExceeded (max_keys l))) (\<lambda>_.
     if changed t
     then Inr (True, fold apply_mutation ms entries, \<lparr>u_bytes = next_bytes, u_keys = next_keys\<rparr>)
     else Inr (False, entries, usage))))))"

definition mutations_change :: "(string, bytes) btree \<Rightarrow> storage_mutation list \<Rightarrow> bool" where
  "mutations_change entries ms \<longleftrightarrow> list_ex (\<lambda>m. bt_get entries (m_key m) \<noteq> m_value m) ms"

definition next_revision :: "nat \<Rightarrow> storage_error + nat" where
  "next_revision r = ok_or (checked_add 64 r 1) RevisionOverflow"

section \<open>Accepted transactions\<close>

definition mutation_bytes :: "storage_mutation \<Rightarrow> nat" where
  "mutation_bytes m = length (m_key m) + value_len (m_value m)"

lemma value_len_simps [simp]: "value_len None = 0" "value_len (Some b) = length b"
  by (simp_all add: value_len_def)

lemma validate_limits_Inr:
  "validate_limits l = Inr () \<Longrightarrow>
     0 < max_bytes l \<and> max_bytes l \<le> MAX_STORAGE_BYTES \<and> max_keys l \<le> MAX_STORAGE_KEYS \<and>
     max_value_bytes l \<le> MAX_STORAGE_VALUE_BYTES \<and> max_value_bytes l \<le> max_bytes l"
  by (auto simp: validate_limits_def)

lemma validate_mutation_Inr:
  "validate_mutation l (K, b) m = Inr acc \<longleftrightarrow>
     validate_key (m_key m) = Inr () \<and> m_key m \<notin> K \<and> b + mutation_bytes m < 2 ^ 64 \<and>
     value_len (m_value m) \<le> max_value_bytes l \<and> acc = (insert (m_key m) K, b + mutation_bytes m)"
  by (cases "m_value m")
    (auto simp: validate_mutation_def mutation_bytes_def result_simps bind_eq_Some_conv
       simp del: power_numeral)

lemma validate_fold_Inr:
  "try_fold (validate_mutation l) (K, b) ms = Inr (K', b') \<longleftrightarrow>
     distinct (map m_key ms) \<and> set (map m_key ms) \<inter> K = {} \<and>
     (\<forall>m \<in> set ms. validate_key (m_key m) = Inr () \<and> value_len (m_value m) \<le> max_value_bytes l) \<and>
     (ms = [] \<or> b' < 2 ^ 64) \<and> K' = set (map m_key ms) \<union> K \<and>
     b' = b + sum_list (map mutation_bytes ms)"
proof (induction ms arbitrary: K b)
  case Nil
  then show ?case by auto
next
  case (Cons m ms)
  show ?case
    by (auto simp: result_simps validate_mutation_Inr Cons simp del: power_numeral)
qed

lemma validate_mutations_Inr:
  "validate_mutations ms l = Inr () \<longleftrightarrow>
     validate_limits l = Inr () \<and> ms \<noteq> [] \<and> length ms \<le> MAX_TRANSACTION_OPERATIONS \<and>
     distinct (map m_key ms) \<and>
     (\<forall>m \<in> set ms. validate_key (m_key m) = Inr () \<and> value_len (m_value m) \<le> max_value_bytes l) \<and>
     sum_list (map mutation_bytes ms) \<le> MAX_TRANSACTION_INPUT_BYTES"
  by (auto simp: validate_mutations_def result_simps validate_fold_Inr MAX_TRANSACTION_INPUT_BYTES_def)

section \<open>Exact accounting\<close>

text \<open>The real usage of a map of entries, and the effect of one mutation on it.\<close>

definition value_bytes :: "(string, bytes) btree \<Rightarrow> nat" where
  "value_bytes e = sum_list (map (\<lambda>x. length (snd x)) e)"

lemma value_bytes_Nil [simp]: "value_bytes [] = 0"
  by (simp add: value_bytes_def)

lemma value_bytes_insert:
  "bt_ok e \<Longrightarrow> value_bytes (bt_insert k v e) + value_len (bt_get e k) = value_bytes e + length v"
  using bt.weight_ins [of e length k v] by (simp add: value_bytes_def value_len_def)

lemma value_bytes_remove:
  "bt_ok e \<Longrightarrow> value_bytes (bt_remove k e) + value_len (bt_get e k) = value_bytes e"
  using bt.weight_rem [of e length k] by (simp add: value_bytes_def value_len_def)

lemma value_bytes_get: "bt_ok e \<Longrightarrow> value_len (bt_get e k) \<le> value_bytes e"
  using bt.weight_get_le [of e k _ length] by (cases "bt_get e k") (simp_all add: value_bytes_def)

lemma apply_mutation_ok: "bt_ok e \<Longrightarrow> bt_ok (apply_mutation m e)"
  by (simp add: apply_mutation_def split: option.split)

lemma apply_mutation_get: "bt_ok e \<Longrightarrow> bt_get (apply_mutation m e) = (bt_get e)(m_key m := m_value m)"
  by (simp add: apply_mutation_def split: option.split)

lemma apply_mutation_bytes:
  "bt_ok e \<Longrightarrow> value_bytes (apply_mutation m e) + value_len (bt_get e (m_key m))
     = value_bytes e + value_len (m_value m)"
  using value_bytes_insert [of e "m_key m"] value_bytes_remove [of e "m_key m"]
  by (cases "m_value m") (simp_all add: apply_mutation_def)

lemma apply_mutation_keys:
  "bt_ok e \<Longrightarrow> length (apply_mutation m e) + (if bt_get e (m_key m) = None then 0 else 1)
     = length e + (if m_value m = None then 0 else 1)"
  using bt.length_get_pos [of e "m_key m"]
  by (cases "m_value m") (auto simp: apply_mutation_def bt.length_ins bt.length_rem)

lemma apply_mutation_idle:
  assumes "bt_ok e" and "bt_get e (m_key m) = m_value m"
  shows "apply_mutation m e = e"
  using assms by (intro bt_ext) (auto simp: apply_mutation_ok apply_mutation_get)

lemma fold_apply_ok: "bt_ok e \<Longrightarrow> bt_ok (fold apply_mutation ms e)"
  by (induction ms arbitrary: e) (simp_all add: apply_mutation_ok)

text \<open>The lookups after a transaction, over abstract maps.\<close>

definition mutate_map :: "storage_mutation list \<Rightarrow> (string \<rightharpoonup> bytes) \<Rightarrow> (string \<rightharpoonup> bytes)" where
  "mutate_map ms f = fold (\<lambda>m g. g(m_key m := m_value m)) ms f"

lemma fold_apply_get: "bt_ok e \<Longrightarrow> bt_get (fold apply_mutation ms e) = mutate_map ms (bt_get e)"
  by (induction ms arbitrary: e)
    (simp_all add: mutate_map_def apply_mutation_ok apply_mutation_get)

lemma mutate_map_other: "k \<notin> set (map m_key ms) \<Longrightarrow> mutate_map ms f k = f k"
  by (induction ms arbitrary: f) (auto simp: mutate_map_def)

lemma mutate_map_hit:
  "distinct (map m_key ms) \<Longrightarrow> m \<in> set ms \<Longrightarrow> mutate_map ms f (m_key m) = m_value m"
proof (induction ms arbitrary: f)
  case Nil
  then show ?case by simp
next
  case (Cons x ms)
  show ?case
  proof (cases "m = x")
    case True
    with Cons.prems show ?thesis
      using mutate_map_other [of "m_key x" ms "f(m_key x := m_value x)"]
      by (simp add: mutate_map_def)
  next
    case False
    with Cons show ?thesis by (simp add: mutate_map_def)
  qed
qed

text \<open>One counting step: its totals move by the exact effect of the mutation, it records a
  change exactly when there is one, and it can only fail by overflow.\<close>

lemma count_mutation_Inr:
  assumes "count_mutation e l t m = Inr t'"
  shows "removed_bytes t' + (if bt_get e (m_key m) = m_value m then value_len (m_value m) else 0)
      = removed_bytes t + (if bt_get e (m_key m) = m_value m then value_len (m_value m)
                           else value_len (bt_get e (m_key m)))"
    and "added_bytes t' = added_bytes t
      + (if bt_get e (m_key m) = m_value m then 0 else value_len (m_value m))"
    and "removed_keys t' = removed_keys t
      + (if bt_get e (m_key m) \<noteq> None \<and> m_value m = None then 1 else 0)"
    and "added_keys t' = added_keys t
      + (if bt_get e (m_key m) = None \<and> m_value m \<noteq> None then 1 else 0)"
    and "changed t' \<longleftrightarrow> changed t \<or> bt_get e (m_key m) \<noteq> m_value m"
  using assms
  by (auto simp: count_mutation_def Let_def result_simps split: if_splits option.splits)

lemma count_mutation_total:
  assumes "removed_bytes t + value_len (bt_get e (m_key m)) < 2 ^ 64"
    and "added_bytes t + value_len (m_value m) < 2 ^ 64"
  shows "\<exists>t'. count_mutation e l t m = Inr t'"
  using assms
  by (cases "bt_get e (m_key m)"; cases "m_value m")
    (auto simp: count_mutation_def Let_def checked_add_def)

text \<open>The whole loop.  \<open>c\<close> is the map after the mutations counted so far; the loop reads the
  original map \<open>e\<close>, which agrees with it on the keys still to come because keys are distinct.\<close>

lemma fresh_key: "distinct (map m_key (m # ms)) \<Longrightarrow> x \<in> set ms \<Longrightarrow> m_key x \<noteq> m_key m"
  by (metis distinct.simps(2) image_eqI list.map(2) list.set_map)

lemma count_fold_exact:
  assumes "bt_ok c" and "distinct (map m_key ms)"
    and "\<forall>m \<in> set ms. bt_get c (m_key m) = bt_get e (m_key m)"
    and "try_fold (count_mutation e l) t ms = Inr t'"
  shows "value_bytes (fold apply_mutation ms c) + removed_bytes t' + added_bytes t
      = value_bytes c + added_bytes t' + removed_bytes t \<and>
    length (fold apply_mutation ms c) + removed_keys t' + added_keys t
      = length c + added_keys t' + removed_keys t \<and>
    (changed t' \<longleftrightarrow> changed t \<or> mutations_change e ms)"
  using assms
proof (induction ms arbitrary: c t)
  case Nil
  then show ?case by (simp add: mutations_change_def)
next
  case (Cons m ms)
  then obtain t1 where step: "count_mutation e l t m = Inr t1"
    and rest: "try_fold (count_mutation e l) t1 ms = Inr t'"
    by (auto simp: result_simps)
  let ?c = "apply_mutation m c"
  have ok: "bt_ok ?c" using Cons.prems(1) by (rule apply_mutation_ok)
  have agree: "\<forall>x \<in> set ms. bt_get ?c (m_key x) = bt_get e (m_key x)"
    using Cons.prems(1,3) fresh_key [OF Cons.prems(2)] by (simp add: apply_mutation_get)
  have ih: "value_bytes (fold apply_mutation ms ?c) + removed_bytes t' + added_bytes t1
      = value_bytes ?c + added_bytes t' + removed_bytes t1 \<and>
    length (fold apply_mutation ms ?c) + removed_keys t' + added_keys t1
      = length ?c + added_keys t' + removed_keys t1 \<and>
    (changed t' \<longleftrightarrow> changed t1 \<or> mutations_change e ms)"
    using Cons.IH [OF ok _ agree rest] Cons.prems(2) by simp
  have now: "bt_get c (m_key m) = bt_get e (m_key m)" using Cons.prems(3) by simp
  show ?case
    using ih count_mutation_Inr [OF step] apply_mutation_bytes [OF Cons.prems(1), of m]
      apply_mutation_keys [OF Cons.prems(1), of m] now
    by (auto simp: mutations_change_def split: if_splits)
qed

lemma count_fold_total:
  assumes "bt_ok c" and "distinct (map m_key ms)"
    and "\<forall>m \<in> set ms. bt_get c (m_key m) = bt_get e (m_key m)"
    and "removed_bytes t + value_bytes c < 2 ^ 64"
    and "added_bytes t + sum_list (map mutation_bytes ms) < 2 ^ 64"
  shows "\<exists>t'. try_fold (count_mutation e l) t ms = Inr t' \<and>
    removed_bytes t' \<le> removed_bytes t + value_bytes c \<and>
    removed_keys t' \<le> removed_keys t + length c"
  using assms
proof (induction ms arbitrary: c t)
  case Nil
  then show ?case by simp
next
  case (Cons m ms)
  let ?c = "bt_remove (m_key m) c"
  have now: "bt_get e (m_key m) = bt_get c (m_key m)" using Cons.prems(3) by simp
  have shrink: "value_bytes ?c + value_len (bt_get c (m_key m)) = value_bytes c"
    using Cons.prems(1) by (rule value_bytes_remove)
  have keys: "length ?c + (if bt_get c (m_key m) = None then 0 else 1) = length c"
    using bt.length_get_pos [OF Cons.prems(1), of "m_key m"] Cons.prems(1)
    by (auto simp: bt.length_rem)
  obtain t1 where step: "count_mutation e l t m = Inr t1"
    using count_mutation_total [of t e m l] Cons.prems(4,5) shrink now
    by (auto simp: mutation_bytes_def)
  note t1 = count_mutation_Inr [OF step]
  have b1: "removed_bytes t1 \<le> removed_bytes t + value_len (bt_get c (m_key m))"
    and a1: "added_bytes t1 \<le> added_bytes t + mutation_bytes m"
    and k1: "removed_keys t1 \<le> removed_keys t + (if bt_get c (m_key m) = None then 0 else 1)"
    using t1 now by (auto simp: mutation_bytes_def split: if_splits)
  have "\<exists>t'. try_fold (count_mutation e l) t1 ms = Inr t' \<and>
      removed_bytes t' \<le> removed_bytes t1 + value_bytes ?c \<and>
      removed_keys t' \<le> removed_keys t1 + length ?c"
  proof (rule Cons.IH)
    show "bt_ok ?c" using Cons.prems(1) by simp
    show "distinct (map m_key ms)" using Cons.prems(2) by simp
    show "\<forall>x \<in> set ms. bt_get ?c (m_key x) = bt_get e (m_key x)"
      using Cons.prems(1,3) fresh_key [OF Cons.prems(2)] by simp
    show "removed_bytes t1 + value_bytes ?c < 2 ^ 64" using b1 shrink Cons.prems(4) by linarith
    show "added_bytes t1 + sum_list (map mutation_bytes ms) < 2 ^ 64"
      using a1 Cons.prems(5) by simp
  qed
  then show ?case using step b1 k1 shrink keys by auto
qed

text \<open>The routine as a whole: with exact cached usage it succeeds exactly when the resulting
  map is within the limits, and then leaves that map with its exact usage.\<close>

lemma fold_apply_idle:
  "bt_ok e \<Longrightarrow> \<not> mutations_change e ms \<Longrightarrow> fold apply_mutation ms e = e"
  by (induction ms) (auto simp: mutations_change_def apply_mutation_idle)

lemma fold_apply_changes:
  assumes "bt_ok e" and "distinct (map m_key ms)"
  shows "mutations_change e ms \<longleftrightarrow> bt_get (fold apply_mutation ms e) \<noteq> bt_get e"
proof
  assume "mutations_change e ms"
  then obtain m where "m \<in> set ms" "bt_get e (m_key m) \<noteq> m_value m"
    by (auto simp: mutations_change_def list_ex_iff)
  then show "bt_get (fold apply_mutation ms e) \<noteq> bt_get e"
    using assms mutate_map_hit [of ms m "bt_get e"] by (auto simp: fold_apply_get)
next
  assume "bt_get (fold apply_mutation ms e) \<noteq> bt_get e"
  then show "mutations_change e ms" using fold_apply_idle [OF assms(1)] by metis
qed

definition real_usage :: "(string, bytes) btree \<Rightarrow> storage_usage" where
  "real_usage e = \<lparr>u_bytes = value_bytes e, u_keys = length e\<rparr>"

lemma apply_mutations_decides:
  assumes ok: "bt_ok e" and dist: "distinct (map m_key ms)"
    and small: "value_bytes e < 2 ^ 64" "sum_list (map mutation_bytes ms) < 2 ^ 64"
    and lim: "max_bytes l < 2 ^ 64" "max_keys l < 2 ^ 64"
  defines "e' \<equiv> fold apply_mutation ms e"
  shows "value_bytes e' \<le> max_bytes l \<and> length e' \<le> max_keys l \<Longrightarrow>
      apply_mutations e (real_usage e) ms l = Inr (mutations_change e ms, e', real_usage e')"
    and "\<not> (value_bytes e' \<le> max_bytes l \<and> length e' \<le> max_keys l) \<Longrightarrow>
      isl (apply_mutations e (real_usage e) ms l)"
proof -
  let ?t0 = "\<lparr>removed_bytes = 0, added_bytes = 0, removed_keys = 0, added_keys = 0, changed = False\<rparr>"
  obtain t where t: "try_fold (count_mutation e l) ?t0 ms = Inr t"
    and rb: "removed_bytes t \<le> value_bytes e" and rk: "removed_keys t \<le> length e"
    using count_fold_total [OF ok dist, of e ?t0 l] small by auto
  have ex: "value_bytes e' + removed_bytes t = value_bytes e + added_bytes t"
    "length e' + removed_keys t = length e + added_keys t" "changed t \<longleftrightarrow> mutations_change e ms"
    using count_fold_exact [OF ok dist _ t] by (simp_all add: e'_def)
  have nb: "value_bytes e - removed_bytes t + added_bytes t = value_bytes e'"
    and nk: "length e - removed_keys t + added_keys t = length e'"
    using ex rb rk by simp_all
  have idle: "\<not> mutations_change e ms \<Longrightarrow> e' = e"
    using fold_apply_idle [OF ok] by (simp add: e'_def)
  have unfolded: "apply_mutations e (real_usage e) ms l =
    and_then (ok_or (checked_add 64 (value_bytes e - removed_bytes t) (added_bytes t))
      (QuotaExceeded USIZE_MAX (max_bytes l))) (\<lambda>b.
    and_then (ok_or (checked_add 64 (length e - removed_keys t) (added_keys t))
      (KeyLimitExceeded (max_keys l))) (\<lambda>k.
    and_then (fail_if (b > max_bytes l) (QuotaExceeded b (max_bytes l))) (\<lambda>_.
    and_then (fail_if (k > max_keys l) (KeyLimitExceeded (max_keys l))) (\<lambda>_.
    if mutations_change e ms then Inr (True, e', \<lparr>u_bytes = b, u_keys = k\<rparr>)
    else Inr (False, e, real_usage e)))))"
    using rb rk ex(3) by (simp add: apply_mutations_def t real_usage_def checked_sub_def e'_def cong: if_cong)
  show "value_bytes e' \<le> max_bytes l \<and> length e' \<le> max_keys l \<Longrightarrow>
      apply_mutations e (real_usage e) ms l = Inr (mutations_change e ms, e', real_usage e')"
    using lim idle unfolding unfolded by (auto simp: checked_add_def nb nk real_usage_def)
  show "\<not> (value_bytes e' \<le> max_bytes l \<and> length e' \<le> max_keys l) \<Longrightarrow>
      isl (apply_mutations e (real_usage e) ms l)"
    unfolding unfolded by (auto simp: checked_add_def nb nk)
qed

lemma validated_small:
  assumes "validate_mutations ms l = Inr ()"
  shows "sum_list (map mutation_bytes ms) < 2 ^ 64" "max_bytes l < 2 ^ 64" "max_keys l < 2 ^ 64"
    "distinct (map m_key ms)"
  using assms validate_limits_Inr [of l]
  by (auto simp: validate_mutations_Inr storage_consts)

text \<open>C6: a validated transaction over correctly accounted entries is all or nothing and its
  outcome is decided by the real result.  If the entries with every mutation applied fit the byte
  and key quota, \<^verbatim>\<open>apply_mutations\<close> returns exactly those entries with their exact usage and
  reports whether a lookup changed; otherwise it fails.\<close>

theorem apply_mutations_exact:
  assumes "bt_ok e" and "value_bytes e < 2 ^ 64" and "validate_mutations ms l = Inr ()"
  shows "let e' = fold apply_mutation ms e in
    if value_bytes e' \<le> max_bytes l \<and> length e' \<le> max_keys l
    then apply_mutations e (real_usage e) ms l = Inr (bt_get e' \<noteq> bt_get e, e', real_usage e')
    else isl (apply_mutations e (real_usage e) ms l)"
  using apply_mutations_decides [OF assms(1) validated_small(4) [OF assms(3)] assms(2)
      validated_small(1,2,3) [OF assms(3)]]
    fold_apply_changes [OF assms(1) validated_small(4) [OF assms(3)]]
  by (simp add: Let_def)

definition demo_limits :: storage_limits where
  "demo_limits = \<lparr>max_bytes = 4, max_keys = 2, max_value_bytes = 4\<rparr>"

theorem apply_mutations_exact_witness:
  "apply_mutations [(''a'', [1, 2, 3])] (real_usage [(''a'', [1, 2, 3])])
     [\<lparr>m_key = ''a'', m_value = None\<rparr>, \<lparr>m_key = ''b'', m_value = Some [7, 8, 9, 0]\<rparr>] demo_limits
   = Inr (True, [(''b'', [7, 8, 9, 0])], \<lparr>u_bytes = 4, u_keys = 1\<rparr>)"
proof -
  let ?e = "[(''a'', [1, 2, 3 :: 8 word])]"
  let ?ms = "[\<lparr>m_key = ''a'', m_value = None\<rparr>, \<lparr>m_key = ''b'', m_value = Some [7, 8, 9, 0 :: 8 word]\<rparr>]"
  have 1: "bt_ok ?e" by (simp add: bt_ok_def)
  have 2: "value_bytes ?e < 2 ^ 64" by (simp add: value_bytes_def)
  have 3: "validate_mutations ?ms demo_limits = Inr ()"
    by (simp add: validate_mutations_Inr validate_limits_def validate_key_def demo_limits_def
        storage_consts mutation_bytes_def text_defs)
  have 4: "fold apply_mutation ?ms ?e = [(''b'', [7, 8, 9, 0])]"
    by (simp add: apply_mutation_def bt_remove_def)
  have 5: "bt_get [(''b'', [7, 8, 9, 0 :: 8 word])] \<noteq> bt_get ?e"
    by (auto simp: fun_eq_iff bt_get_def intro!: exI [of _ "''a''"])
  show ?thesis
    using apply_mutations_exact [OF 1 2 3] 5 unfolding 4 Let_def
    by (simp add: value_bytes_def demo_limits_def real_usage_def)
qed

end
