(* ===== verification/Storage_Backend.thy ===== *)
theory Storage_Backend
  imports Storage
begin

text \<open>
  The contract of the \<^verbatim>\<open>StorageBackend\<close> trait (\<^verbatim>\<open>crates/cartridge-storage/src/lib.rs\<close>) as its
  clients rely on it.  \<open>view\<close> and \<open>rev\<close> are what can be observed of a namespace, \<open>step\<close> is one
  completed call of any mutating method by any client, \<open>get\<close> and \<open>batch\<close> are the methods used
  below.  The lemmas of the interface are about unbounded interleavings of calls: a revision
  number identifies the contents it was read with, and a transaction that is applied at a
  revision is applied to exactly the contents its client saw at that revision.
\<close>

locale storage_backend =
  fixes wf :: "'st \<Rightarrow> bool"
    and view :: "'st \<Rightarrow> string \<Rightarrow> (string \<rightharpoonup> bytes)"
    and rev :: "'st \<Rightarrow> string \<Rightarrow> nat"
    and step :: "'st \<Rightarrow> 'st \<Rightarrow> bool"
    and get :: "'st \<Rightarrow> string \<Rightarrow> string \<Rightarrow> storage_error + bytes option"
    and batch :: "'st \<Rightarrow> string \<Rightarrow> nat \<Rightarrow> storage_mutation list \<Rightarrow> storage_limits
      \<Rightarrow> (storage_error + transaction_result) \<times> 'st"
  assumes step_wf: "wf s \<Longrightarrow> step s s' \<Longrightarrow> wf s'"
    and step_rev: "wf s \<Longrightarrow> step s s' \<Longrightarrow>
      rev s ns < rev s' ns \<or> rev s' ns = rev s ns \<and> view s' ns = view s ns"
    and batch_step: "step s (snd (batch s ns r ms l))"
    and batch_applied: "wf s \<Longrightarrow> batch s ns r ms l = (Inr res, s') \<Longrightarrow> applied res \<Longrightarrow>
      rev s ns = r \<and> view s' ns = mutate_map ms (view s ns) \<and> t_revision res = rev s' ns"
    and batch_refused: "wf s \<Longrightarrow> batch s ns r ms l = (Inr res, s') \<Longrightarrow> \<not> applied res \<Longrightarrow>
      rev s ns \<noteq> r \<and> t_revision res = rev s ns \<and> view s' = view s \<and> rev s' = rev s"
    and batch_failed: "wf s \<Longrightarrow> batch s ns r ms l = (Inl e, s') \<Longrightarrow> view s' = view s \<and> rev s' = rev s"
    and get_view: "wf s \<Longrightarrow> get s ns k = Inr v \<Longrightarrow> v = view s ns k"
begin

lemma run_wf: "step\<^sup>*\<^sup>* s s' \<Longrightarrow> wf s \<Longrightarrow> wf s'"
  by (induction rule: rtranclp_induct) (auto intro: step_wf)

lemma run_rev:
  assumes "step\<^sup>*\<^sup>* s s'" and "wf s"
  shows "rev s ns < rev s' ns \<or> rev s' ns = rev s ns \<and> view s' ns = view s ns"
  using assms
proof (induction rule: rtranclp_induct)
  case (step s1 s2)
  have "wf s1" using step.hyps(1) step.prems by (rule run_wf)
  with step step_rev [of s1 s2 ns] show ?case by auto
qed simp

lemma same_revision_same_contents:
  assumes "step\<^sup>*\<^sup>* s s'" and "wf s" and "rev s' ns = rev s ns"
  shows "view s' ns = view s ns"
  using run_rev [OF assms(1,2), of ns] assms(3) by simp

lemma batch_on_read_state:
  assumes "wf s0" and "step\<^sup>*\<^sup>* s0 s1"
    and "batch s1 ns (rev s0 ns) ms l = (Inr res, s2)" and "applied res"
  shows "view s2 ns = mutate_map ms (view s0 ns)"
proof -
  have "rev s1 ns = rev s0 ns" "view s2 ns = mutate_map ms (view s1 ns)"
    using batch_applied [OF run_wf [OF assms(2,1)] assms(3,4)] by simp_all
  then show ?thesis using same_revision_same_contents [OF assms(2,1)] by simp
qed

lemma no_lost_update:
  assumes "wf s0" and "step\<^sup>*\<^sup>* s0 s1"
    and "batch s1 ns (rev s0 ns) ms1 l1 = (Inr res1, s2)" and "view s2 ns \<noteq> view s1 ns"
    and "step\<^sup>*\<^sup>* s2 s3" and "batch s3 ns (rev s0 ns) ms2 l2 = (Inr res2, s4)"
  shows "\<not> applied res2"
proof
  assume "applied res2"
  have w1: "wf s1" using assms(2,1) by (rule run_wf)
  have s12: "step s1 s2" using batch_step [of s1 ns "rev s0 ns" ms1 l1] assms(3) by simp
  have w2: "wf s2" using step_wf [OF w1 s12] .
  have "rev s0 ns \<le> rev s1 ns" using run_rev [OF assms(2,1), of ns] by auto
  moreover have "rev s1 ns < rev s2 ns" using step_rev [OF w1 s12, of ns] assms(4) by auto
  moreover have "rev s2 ns \<le> rev s3 ns" using run_rev [OF assms(5) w2, of ns] by auto
  moreover have "rev s3 ns = rev s0 ns"
    using batch_applied [OF run_wf [OF assms(5) w2] assms(6) \<open>applied res2\<close>] by simp
  ultimately show False by simp
qed

end

end
