(* ===== verification/Memory_Storage.thy ===== *)
theory Memory_Storage
  imports Storage_Backend
begin

text \<open>
  \<^verbatim>\<open>MemoryStorage\<close> of \<^verbatim>\<open>crates/cartridge-storage/src/lib.rs\<close>: every method of the
  \<^verbatim>\<open>StorageBackend\<close> trait and the two crate-private methods the snapshot backend uses.  An
  operation under the write lock returns its result together with the storage it leaves
  behind, also when the result is an error, because \<^verbatim>\<open>entry(namespace).or_default()\<close> may
  already have created the namespace.  The lock itself is not modelled: it is poisoned only
  by a panic under it, and the one unchecked subtraction (in \<^verbatim>\<open>delete\<close>) is shown exact.

  The interface \<open>storage_backend\<close> states what a client of the trait relies on; its lemmas
  (revisions identify contents, a transaction applies to what its client read) are proved once
  and hold for every backend that interprets it.
\<close>

section \<open>Operations\<close>

definition default_namespace :: namespace_state where
  "default_namespace = \<lparr>ns_schema = 0, ns_revision = 0, ns_entries = [], ns_bytes = 0\<rparr>"

definition memory_new :: memory_storage where
  "memory_new = \<lparr>namespaces = []\<rparr>"

definition find_ns :: "memory_storage \<Rightarrow> string \<Rightarrow> namespace_state option" where
  "find_ns st ns = bt_get (namespaces st) ns"

definition set_ns :: "memory_storage \<Rightarrow> string \<Rightarrow> namespace_state \<Rightarrow> memory_storage" where
  "set_ns st ns n = st\<lparr>namespaces := bt_insert ns n (namespaces st)\<rparr>"

definition ns_usage :: "namespace_state \<Rightarrow> storage_usage" where
  "ns_usage n = \<lparr>u_bytes = ns_bytes n, u_keys = length (ns_entries n)\<rparr>"

text \<open>The body of an operation on \<^verbatim>\<open>namespaces.entry(namespace).or_default()\<close>.\<close>

definition with_namespace ::
    "memory_storage \<Rightarrow> string \<Rightarrow> (namespace_state \<Rightarrow> (storage_error + 'a) \<times> namespace_state)
      \<Rightarrow> (storage_error + 'a) \<times> memory_storage" where
  "with_namespace st ns body =
     (case body (case find_ns st ns of Some n \<Rightarrow> n | None \<Rightarrow> default_namespace) of
        (r, n') \<Rightarrow> (r, set_ns st ns n'))"

definition snapshot_state ::
    "memory_storage \<Rightarrow> string \<Rightarrow> storage_limits \<Rightarrow> storage_error + (nat \<times> (string, bytes) btree)" where
  "snapshot_state st ns l =
     and_then (validate_namespace ns) (\<lambda>_.
     and_then (validate_limits l) (\<lambda>_.
     let (r, entries) = (case find_ns st ns of None \<Rightarrow> (0, []) | Some n \<Rightarrow> (ns_revision n, ns_entries n)) in
     and_then (validate_entry_limits entries l) (\<lambda>_. Inr (r, entries))))"

definition load_namespace ::
    "memory_storage \<Rightarrow> string \<Rightarrow> nat \<Rightarrow> nat \<Rightarrow> (string, bytes) btree \<Rightarrow> storage_limits
      \<Rightarrow> (storage_error + unit) \<times> memory_storage" where
  "load_namespace st ns schema r entries l =
     (case and_then (validate_namespace ns) (\<lambda>_. validate_entry_limits entries l) of
        Inl e \<Rightarrow> (Inl e, st)
      | Inr usage \<Rightarrow>
          (Inr (), set_ns st ns \<lparr>ns_schema = schema, ns_revision = r, ns_entries = entries,
                                 ns_bytes = u_bytes usage\<rparr>))"

definition memory_prepare ::
    "memory_storage \<Rightarrow> string \<Rightarrow> nat \<Rightarrow> storage_limits \<Rightarrow> (storage_error + unit) \<times> memory_storage" where
  "memory_prepare st ns schema l =
     (case and_then (validate_namespace ns) (\<lambda>_. validate_limits l) of
        Inl e \<Rightarrow> (Inl e, st)
      | Inr _ \<Rightarrow>
          (case find_ns st ns of
             None \<Rightarrow>
               (let n = default_namespace\<lparr>ns_schema := schema\<rparr> in
                (and_then (validate_entry_limits (ns_entries n) l) (\<lambda>_. Inr ()), set_ns st ns n))
           | Some n \<Rightarrow>
               if ns_schema n \<noteq> schema then (Inl (SchemaMismatch schema (ns_schema n)), st)
               else (and_then (validate_entry_limits (ns_entries n) l) (\<lambda>_. Inr ()), st)))"

definition memory_get :: "memory_storage \<Rightarrow> string \<Rightarrow> string \<Rightarrow> storage_error + bytes option" where
  "memory_get st ns key =
     and_then (validate_namespace ns) (\<lambda>_.
     and_then (validate_key key) (\<lambda>_.
     Inr (Option.bind (find_ns st ns) (\<lambda>n. bt_get (ns_entries n) key))))"

definition put_body ::
    "string \<Rightarrow> bytes \<Rightarrow> storage_limits \<Rightarrow> namespace_state \<Rightarrow> (storage_error + unit) \<times> namespace_state" where
  "put_body key val l n =
     (if bt_get (ns_entries n) key = Some val then (Inr (), n)
      else
       (case
          (let old_size = value_len (bt_get (ns_entries n) key) in
           and_then (ok_or (Option.bind (checked_sub (ns_bytes n) old_size)
               (\<lambda>b. checked_add 64 b (length val))) (QuotaExceeded USIZE_MAX (max_bytes l))) (\<lambda>next_bytes.
           and_then (fail_if (next_bytes > max_bytes l) (QuotaExceeded next_bytes (max_bytes l))) (\<lambda>_.
           and_then (fail_if (bt_get (ns_entries n) key = None \<and> length (ns_entries n) \<ge> max_keys l)
               (KeyLimitExceeded (max_keys l))) (\<lambda>_.
           and_then (next_revision (ns_revision n)) (\<lambda>r. Inr (next_bytes, r)))))) of
          Inl e \<Rightarrow> (Inl e, n)
        | Inr (next_bytes, r) \<Rightarrow>
            (Inr (), n\<lparr>ns_entries := bt_insert key val (ns_entries n), ns_bytes := next_bytes,
                       ns_revision := r\<rparr>)))"

definition memory_put ::
    "memory_storage \<Rightarrow> string \<Rightarrow> string \<Rightarrow> bytes \<Rightarrow> storage_limits
      \<Rightarrow> (storage_error + unit) \<times> memory_storage" where
  "memory_put st ns key val l =
     (case and_then (validate_namespace ns) (\<lambda>_. and_then (validate_key key) (\<lambda>_.
           and_then (validate_limits l) (\<lambda>_.
           fail_if (length val > max_value_bytes l) (ValueTooLarge (length val) (max_value_bytes l))))) of
        Inl e \<Rightarrow> (Inl e, st)
      | Inr _ \<Rightarrow> with_namespace st ns (put_body key val l))"

definition memory_delete ::
    "memory_storage \<Rightarrow> string \<Rightarrow> string \<Rightarrow> (storage_error + bool) \<times> memory_storage" where
  "memory_delete st ns key =
     (case and_then (validate_namespace ns) (\<lambda>_. validate_key key) of
        Inl e \<Rightarrow> (Inl e, st)
      | Inr _ \<Rightarrow>
          (case find_ns st ns of
             None \<Rightarrow> (Inr False, st)
           | Some n \<Rightarrow>
               (case bt_get (ns_entries n) key of
                  None \<Rightarrow> (Inr False, st)
                | Some val \<Rightarrow>
                    (case next_revision (ns_revision n) of
                       Inl e \<Rightarrow> (Inl e, st)
                     | Inr r \<Rightarrow>
                         (Inr True, set_ns st ns (n\<lparr>ns_entries := bt_remove key (ns_entries n),
                            ns_bytes := wrapping_sub 64 (ns_bytes n) (length val),
                            ns_revision := r\<rparr>))))))"

definition memory_list :: "memory_storage \<Rightarrow> string \<Rightarrow> string \<Rightarrow> storage_error + string list" where
  "memory_list st ns prefix =
     and_then (validate_namespace ns) (\<lambda>_.
     and_then (validate_prefix prefix) (\<lambda>_.
     Inr (case find_ns st ns of
            None \<Rightarrow> []
          | Some n \<Rightarrow> filter (\<lambda>key. starts_with key prefix) (map fst (ns_entries n)))))"

definition memory_usage :: "memory_storage \<Rightarrow> string \<Rightarrow> storage_error + storage_usage" where
  "memory_usage st ns =
     and_then (validate_namespace ns) (\<lambda>_.
     Inr (case find_ns st ns of None \<Rightarrow> \<lparr>u_bytes = 0, u_keys = 0\<rparr> | Some n \<Rightarrow> ns_usage n))"

definition memory_revision :: "memory_storage \<Rightarrow> string \<Rightarrow> storage_error + nat" where
  "memory_revision st ns =
     and_then (validate_namespace ns) (\<lambda>_.
     Inr (case find_ns st ns of None \<Rightarrow> 0 | Some n \<Rightarrow> ns_revision n))"

text \<open>The part \<^verbatim>\<open>compare_exchange\<close> and \<^verbatim>\<open>apply_batch\<close> have in common, once the expectation
  holds: the next revision is computed before anything is written.\<close>

definition commit_mutations ::
    "storage_mutation list \<Rightarrow> storage_limits \<Rightarrow> namespace_state
      \<Rightarrow> (storage_error + transaction_result) \<times> namespace_state" where
  "commit_mutations ms l n =
     (case and_then (if mutations_change (ns_entries n) ms then next_revision (ns_revision n)
                     else Inr (ns_revision n)) (\<lambda>r.
           and_then (apply_mutations (ns_entries n) (ns_usage n) ms l) (\<lambda>res. Inr (r, res))) of
        Inl e \<Rightarrow> (Inl e, n)
      | Inr (r, chg, entries, usage) \<Rightarrow>
          (let n' = n\<lparr>ns_entries := entries, ns_bytes := u_bytes usage,
                      ns_revision := (if chg then r else ns_revision n)\<rparr> in
           (Inr \<lparr>applied = True, t_revision = ns_revision n'\<rparr>, n')))"

definition refused :: "namespace_state \<Rightarrow> (storage_error + transaction_result) \<times> namespace_state" where
  "refused n = (Inr \<lparr>applied = False, t_revision = ns_revision n\<rparr>, n)"

definition memory_compare_exchange ::
    "memory_storage \<Rightarrow> string \<Rightarrow> nat \<Rightarrow> string \<Rightarrow> bytes option \<Rightarrow> bytes option \<Rightarrow> storage_limits
      \<Rightarrow> (storage_error + transaction_result) \<times> memory_storage" where
  "memory_compare_exchange st ns expected_revision key expected replacement l =
     (case and_then (validate_compare_exchange key expected replacement l)
             (\<lambda>_. validate_namespace ns) of
        Inl e \<Rightarrow> (Inl e, st)
      | Inr _ \<Rightarrow> with_namespace st ns (\<lambda>n.
          if ns_revision n \<noteq> expected_revision \<or> bt_get (ns_entries n) key \<noteq> expected
          then refused n
          else commit_mutations [\<lparr>m_key = key, m_value = replacement\<rparr>] l n))"

definition memory_apply_batch ::
    "memory_storage \<Rightarrow> string \<Rightarrow> nat \<Rightarrow> storage_mutation list \<Rightarrow> storage_limits
      \<Rightarrow> (storage_error + transaction_result) \<times> memory_storage" where
  "memory_apply_batch st ns expected_revision ms l =
     (case and_then (validate_mutations ms l) (\<lambda>_. validate_namespace ns) of
        Inl e \<Rightarrow> (Inl e, st)
      | Inr _ \<Rightarrow> with_namespace st ns (\<lambda>n.
          if ns_revision n \<noteq> expected_revision then refused n else commit_mutations ms l n))"

section \<open>Well-formed storage\<close>

text \<open>The cached byte count is exact and fits \<^verbatim>\<open>usize\<close>, entries are sorted and validly named,
  the revision fits \<^verbatim>\<open>u64\<close>.\<close>

definition valid_keys :: "(string, bytes) btree \<Rightarrow> bool" where
  "valid_keys m \<longleftrightarrow> list_all (\<lambda>e. validate_key (fst e) = Inr ()) m"

definition ns_ok :: "namespace_state \<Rightarrow> bool" where
  "ns_ok n \<longleftrightarrow> bt_ok (ns_entries n) \<and> valid_keys (ns_entries n) \<and>
     ns_bytes n = value_bytes (ns_entries n) \<and> ns_bytes n < 2 ^ 64 \<and> ns_revision n < 2 ^ 64"

definition storage_ok :: "memory_storage \<Rightarrow> bool" where
  "storage_ok st \<longleftrightarrow> bt_ok (namespaces st) \<and>
     list_all (\<lambda>(ns, n). validate_namespace ns = Inr () \<and> ns_ok n) (namespaces st)"

text \<open>What a client can observe of a namespace: its entries and its revision.\<close>

definition mem_view :: "memory_storage \<Rightarrow> string \<Rightarrow> (string \<rightharpoonup> bytes)" where
  "mem_view st ns = (case find_ns st ns of None \<Rightarrow> Map.empty | Some n \<Rightarrow> bt_get (ns_entries n))"

definition mem_rev :: "memory_storage \<Rightarrow> string \<Rightarrow> nat" where
  "mem_rev st ns = (case find_ns st ns of None \<Rightarrow> 0 | Some n \<Rightarrow> ns_revision n)"

definition the_ns :: "memory_storage \<Rightarrow> string \<Rightarrow> namespace_state" where
  "the_ns st ns = (case find_ns st ns of Some n \<Rightarrow> n | None \<Rightarrow> default_namespace)"

lemma ns_ok_default: "ns_ok (default_namespace\<lparr>ns_schema := s\<rparr>)" "ns_ok default_namespace"
  by (simp_all add: ns_ok_def valid_keys_def default_namespace_def)

lemma storage_ok_iff:
  "storage_ok st \<longleftrightarrow> bt_ok (namespaces st) \<and>
     (\<forall>ns n. find_ns st ns = Some n \<longrightarrow> validate_namespace ns = Inr () \<and> ns_ok n)"
  by (auto simp: storage_ok_def find_ns_def list_all_iff bt_get_in_set)

lemma the_ns_ok: "storage_ok st \<Longrightarrow> ns_ok (the_ns st ns)"
  by (auto simp: the_ns_def ns_ok_default storage_ok_iff split: option.split)

lemma observe_the_ns:
  "mem_view st ns = bt_get (ns_entries (the_ns st ns))" "mem_rev st ns = ns_revision (the_ns st ns)"
  by (simp_all add: mem_view_def mem_rev_def the_ns_def default_namespace_def fun_eq_iff
      split: option.split)

lemma find_set_ns:
  "storage_ok st \<Longrightarrow> find_ns (set_ns st ns n) ns' = (if ns' = ns then Some n else find_ns st ns')"
  by (simp add: storage_ok_def find_ns_def set_ns_def)

lemma the_set_ns:
  "storage_ok st \<Longrightarrow> the_ns (set_ns st ns n) ns' = (if ns' = ns then n else the_ns st ns')"
  by (simp add: the_ns_def find_set_ns)

lemma set_ns_ok:
  "storage_ok st \<Longrightarrow> validate_namespace ns = Inr () \<Longrightarrow> ns_ok n \<Longrightarrow> storage_ok (set_ns st ns n)"
  unfolding storage_ok_iff [of "set_ns st ns n"]
  by (simp add: find_set_ns) (simp add: storage_ok_iff set_ns_def)

lemma with_namespace_the:
  "with_namespace st ns body = (fst (body (the_ns st ns)), set_ns st ns (snd (body (the_ns st ns))))"
  by (simp add: with_namespace_def the_ns_def split_beta)

section \<open>What one operation does to a namespace\<close>

text \<open>The effect every operation has on the namespace it addresses: the invariant is kept, and
  either nothing observable changes or the revision grows.\<close>

definition advances :: "namespace_state \<Rightarrow> namespace_state \<Rightarrow> bool" where
  "advances n n' \<longleftrightarrow> ns_ok n' \<and>
     (ns_revision n' = ns_revision n \<and> ns_entries n' = ns_entries n \<or>
      ns_revision n' = ns_revision n + 1)"

lemma advances_refl: "ns_ok n \<Longrightarrow> advances n n"
  by (simp add: advances_def)

lemma next_revision_Inr: "next_revision r = Inr r' \<longleftrightarrow> r' = r + 1 \<and> r + 1 < 2 ^ 64"
  by (auto simp: next_revision_def)

lemma keys_insert:
  assumes "valid_keys m" and "validate_key k = Inr ()"
  shows "valid_keys (bt_insert k v m)"
proof -
  have "\<forall>x \<in> set (map fst (bt_insert k v m)). validate_key x = Inr ()"
    unfolding set_bt_insert using assms by (auto simp: valid_keys_def list_all_iff)
  then show ?thesis by (simp add: valid_keys_def list_all_iff)
qed

lemma keys_remove: "valid_keys m \<Longrightarrow> valid_keys (bt_remove k m)"
  by (auto simp: valid_keys_def list_all_iff bt_remove_def)

lemma keys_fold:
  "valid_keys m \<Longrightarrow> \<forall>x \<in> set ms. validate_key (m_key x) = Inr () \<Longrightarrow>
     valid_keys (fold apply_mutation ms m)"
  by (induction ms arbitrary: m)
    (simp_all add: apply_mutation_def keys_insert keys_remove split: option.split)

lemma put_body_Inr:
  assumes "ns_ok n" and "put_body key val l n = (Inr (), n')"
  shows "bt_get (ns_entries n') = (bt_get (ns_entries n))(key \<mapsto> val)"
    and "n' = n \<and> bt_get (ns_entries n) key = Some val \<or>
      n' = n\<lparr>ns_entries := bt_insert key val (ns_entries n),
            ns_bytes := value_bytes (bt_insert key val (ns_entries n)),
            ns_revision := ns_revision n + 1\<rparr> \<and> ns_revision n + 1 < 2 ^ 64 \<and>
      value_bytes (bt_insert key val (ns_entries n)) \<le> max_bytes l \<and>
      value_bytes (bt_insert key val (ns_entries n)) < 2 ^ 64 \<and>
      (bt_get (ns_entries n) key = None \<longrightarrow> length (ns_entries n) < max_keys l)"
proof -
  have ok: "bt_ok (ns_entries n)" "ns_bytes n = value_bytes (ns_entries n)"
    using assms(1) by (simp_all add: ns_ok_def)
  note bytes = value_bytes_insert [OF ok(1), of key val] value_bytes_get [OF ok(1), of key]
  show *: "n' = n \<and> bt_get (ns_entries n) key = Some val \<or>
      n' = n\<lparr>ns_entries := bt_insert key val (ns_entries n),
            ns_bytes := value_bytes (bt_insert key val (ns_entries n)),
            ns_revision := ns_revision n + 1\<rparr> \<and> ns_revision n + 1 < 2 ^ 64 \<and>
      value_bytes (bt_insert key val (ns_entries n)) \<le> max_bytes l \<and>
      value_bytes (bt_insert key val (ns_entries n)) < 2 ^ 64 \<and>
      (bt_get (ns_entries n) key = None \<longrightarrow> length (ns_entries n) < max_keys l)"
    using assms(2) bytes ok(2)
    by (auto simp: put_body_def Let_def result_simps next_revision_Inr bind_eq_Some_conv
        split: if_splits sum.splits)
  then show "bt_get (ns_entries n') = (bt_get (ns_entries n))(key \<mapsto> val)"
    using ok(1) by auto
qed

lemma put_body_Inl: "put_body key val l n = (Inl e, n') \<Longrightarrow> n' = n"
  by (auto simp: put_body_def Let_def split: if_splits sum.splits)

lemma put_body_advances:
  assumes "ns_ok n" and "validate_key key = Inr ()"
  shows "advances n (snd (put_body key val l n))"
proof (cases "put_body key val l n")
  case (Pair r n')
  show ?thesis
  proof (cases r)
    case (Inl e)
    with Pair assms show ?thesis by (auto simp: advances_refl dest: put_body_Inl)
  next
    case (Inr u)
    with Pair assms put_body_Inr(2) [of n key val l n'] show ?thesis
      by (auto simp: advances_def ns_ok_def keys_insert)
  qed
qed

lemma commit_mutations_cases:
  assumes "ns_ok n" and "validate_mutations ms l = Inr ()"
  defines "e' \<equiv> fold apply_mutation ms (ns_entries n)"
  obtains (failed) e where "commit_mutations ms l n = (Inl e, n)"
  | (committed) n' where "commit_mutations ms l n = (Inr \<lparr>applied = True, t_revision = ns_revision n'\<rparr>, n')"
      "n' = n\<lparr>ns_entries := e', ns_bytes := value_bytes e',
             ns_revision := (if bt_get e' = bt_get (ns_entries n) then ns_revision n
                             else ns_revision n + 1)\<rparr>"
      "ns_revision n' < 2 ^ 64" "value_bytes e' \<le> max_bytes l" "length e' \<le> max_keys l"
proof -
  have ok: "bt_ok (ns_entries n)" "value_bytes (ns_entries n) < 2 ^ 64"
    and use: "ns_usage n = real_usage (ns_entries n)" and rev: "ns_revision n < 2 ^ 64"
    using assms(1) by (simp_all add: ns_ok_def ns_usage_def real_usage_def)
  note small = validated_small [OF assms(2)]
  note dec = apply_mutations_decides [OF ok(1) small(4) ok(2) small(1-3), folded e'_def use]
  have chg: "mutations_change (ns_entries n) ms \<longleftrightarrow> bt_get e' \<noteq> bt_get (ns_entries n)"
    using fold_apply_changes [OF ok(1) small(4)] by (simp add: e'_def)
  show thesis
  proof (cases "value_bytes e' \<le> max_bytes l \<and> length e' \<le> max_keys l")
    case False
    then obtain err where "apply_mutations (ns_entries n) (ns_usage n) ms l = Inl err"
      using dec(2) by (auto simp: isl_def)
    then have "\<exists>e. commit_mutations ms l n = (Inl e, n)"
      by (cases "next_revision (ns_revision n)") (auto simp: commit_mutations_def)
    then show thesis using failed by blast
  next
    case True
    show thesis
    proof (cases "mutations_change (ns_entries n) ms \<and> 2 ^ 64 \<le> ns_revision n + 1")
      case True
      then have "next_revision (ns_revision n) = Inl RevisionOverflow"
        by (simp add: next_revision_def checked_add_def)
      with True show thesis by (auto simp: commit_mutations_def intro!: failed)
    next
      case False
      with dec(1) [OF \<open>_ \<and> _\<close>] chg rev \<open>value_bytes e' \<le> max_bytes l \<and> length e' \<le> max_keys l\<close>
      show thesis
        by (intro committed [of "n\<lparr>ns_entries := e', ns_bytes := value_bytes e',
             ns_revision := (if bt_get e' = bt_get (ns_entries n) then ns_revision n
                             else ns_revision n + 1)\<rparr>"])
          (auto simp: commit_mutations_def next_revision_def checked_add_def real_usage_def)
    qed
  qed
qed

lemma commit_mutations_advances:
  assumes "ns_ok n" and "validate_mutations ms l = Inr ()"
  shows "advances n (snd (commit_mutations ms l n))"
  using assms(1,2)
proof (cases rule: commit_mutations_cases)
  case (failed e)
  with assms(1) show ?thesis by (simp add: advances_refl)
next
  case (committed n')
  have ok: "bt_ok (ns_entries n)" using assms(1) by (simp add: ns_ok_def)
  have "value_bytes (fold apply_mutation ms (ns_entries n)) < 2 ^ 64"
    using committed(4) validated_small(2) [OF assms(2)] by linarith
  moreover have "bt_get (fold apply_mutation ms (ns_entries n)) = bt_get (ns_entries n)
      \<Longrightarrow> fold apply_mutation ms (ns_entries n) = ns_entries n"
    using ok fold_apply_ok by (intro bt_ext) auto
  moreover have "valid_keys (fold apply_mutation ms (ns_entries n))"
    using assms by (intro keys_fold) (auto simp: ns_ok_def validate_mutations_Inr)
  ultimately show ?thesis
    using committed assms(1) fold_apply_ok [OF ok] by (auto simp: advances_def ns_ok_def)
qed

lemma validate_compare_exchange_mutations:
  "validate_compare_exchange key expected replacement l = Inr () \<Longrightarrow>
     validate_mutations [\<lparr>m_key = key, m_value = replacement\<rparr>] l = Inr ()"
  by (auto simp: validate_compare_exchange_def result_simps)

text \<open>\<^verbatim>\<open>state.bytes -= value_len\<close> in \<^verbatim>\<open>delete\<close> is exact.\<close>

lemma delete_bytes_exact:
  assumes "ns_ok n" and "bt_get (ns_entries n) key = Some val"
  shows "wrapping_sub 64 (ns_bytes n) (length val) = value_bytes (bt_remove key (ns_entries n))"
  using assms value_bytes_remove [of "ns_entries n" key] value_bytes_get [of "ns_entries n" key]
  by (simp add: ns_ok_def wrapping_sub_small)

section \<open>Runs of operations\<close>

text \<open>One call of a mutating trait method, whatever it returns.  Calls are serialised by the
  write lock, so a concurrent execution is a sequence of such steps.\<close>

inductive mem_step :: "memory_storage \<Rightarrow> memory_storage \<Rightarrow> bool" where
  prepare: "mem_step st (snd (memory_prepare st ns schema l))"
| put: "mem_step st (snd (memory_put st ns key val l))"
| delete: "mem_step st (snd (memory_delete st ns key))"
| compare_exchange: "mem_step st (snd (memory_compare_exchange st ns r key expected replacement l))"
| apply_batch: "mem_step st (snd (memory_apply_batch st ns r ms l))"

text \<open>Every operation either leaves the storage alone or replaces one namespace by one it
  advances to.\<close>

definition ns_update :: "memory_storage \<Rightarrow> memory_storage \<Rightarrow> bool" where
  "ns_update st st' \<longleftrightarrow> st' = st \<or>
     (\<exists>ns n'. validate_namespace ns = Inr () \<and> advances (the_ns st ns) n' \<and> st' = set_ns st ns n')"

lemma ns_update_refl [simp]: "ns_update st st"
  by (simp add: ns_update_def)

lemma ns_update_set:
  "validate_namespace ns = Inr () \<Longrightarrow> advances (the_ns st ns) n' \<Longrightarrow> ns_update st (set_ns st ns n')"
  by (auto simp: ns_update_def)

lemma ns_update_with_namespace:
  "validate_namespace ns = Inr () \<Longrightarrow> advances (the_ns st ns) (snd (body (the_ns st ns))) \<Longrightarrow>
     ns_update st (snd (with_namespace st ns body))"
  by (simp add: ns_update_set with_namespace_the)

lemma advances_schema: "advances default_namespace (default_namespace\<lparr>ns_schema := s\<rparr>)"
  using ns_ok_default(1) by (simp add: advances_def)

lemma prepare_update: "ns_update st (snd (memory_prepare st ns schema l))"
  by (auto simp: memory_prepare_def result_simps Let_def the_ns_def
      intro!: ns_update_set advances_schema split: sum.splits option.splits)

lemma put_update: "storage_ok st \<Longrightarrow> ns_update st (snd (memory_put st ns key val l))"
  by (auto simp: memory_put_def result_simps 
      intro!: ns_update_with_namespace put_body_advances the_ns_ok split: sum.splits)

lemma delete_update:
  assumes "storage_ok st"
  shows "ns_update st (snd (memory_delete st ns key))"
proof -
  have "advances n (n\<lparr>ns_entries := bt_remove key (ns_entries n),
      ns_bytes := wrapping_sub 64 (ns_bytes n) (length val), ns_revision := r\<rparr>)"
    if "find_ns st ns = Some n" "bt_get (ns_entries n) key = Some val"
      "next_revision (ns_revision n) = Inr r" for n val r
  proof -
    have ok: "ns_ok n" using that(1) assms by (simp add: storage_ok_iff)
    then have "value_bytes (bt_remove key (ns_entries n)) < 2 ^ 64"
      using value_bytes_remove [of "ns_entries n" key] by (simp add: ns_ok_def)
    with ok show ?thesis
      using that(3) delete_bytes_exact [OF ok that(2)]
      by (simp add: advances_def ns_ok_def keys_remove next_revision_Inr)
  qed
  then show ?thesis
    by (auto simp: memory_delete_def result_simps the_ns_def
        intro!: ns_update_set split: sum.splits option.splits)
qed

lemma compare_exchange_update:
  "storage_ok st \<Longrightarrow> ns_update st (snd (memory_compare_exchange st ns r key expected replacement l))"
  by (auto simp: memory_compare_exchange_def result_simps refused_def
      intro!: ns_update_with_namespace commit_mutations_advances the_ns_ok advances_refl
        validate_compare_exchange_mutations split: sum.splits)

lemma apply_batch_update:
  "storage_ok st \<Longrightarrow> ns_update st (snd (memory_apply_batch st ns r ms l))"
  by (auto simp: memory_apply_batch_def result_simps refused_def
      intro!: ns_update_with_namespace commit_mutations_advances the_ns_ok advances_refl
      split: sum.splits)

lemma mem_step_update: "mem_step st st' \<Longrightarrow> storage_ok st \<Longrightarrow> ns_update st st'"
  by (erule mem_step.cases)
    (simp_all add: prepare_update put_update delete_update compare_exchange_update apply_batch_update)

lemma ns_update_ok: "storage_ok st \<Longrightarrow> ns_update st st' \<Longrightarrow> storage_ok st'"
  by (auto simp: ns_update_def advances_def set_ns_ok)

lemma ns_update_rev:
  "storage_ok st \<Longrightarrow> ns_update st st' \<Longrightarrow>
     mem_rev st ns < mem_rev st' ns \<or> mem_rev st' ns = mem_rev st ns \<and> mem_view st' ns = mem_view st ns"
  by (auto simp: ns_update_def advances_def observe_the_ns the_set_ns)

section \<open>The trait's contract\<close>

lemma memory_get_view: "memory_get st ns key = Inr v \<Longrightarrow> v = mem_view st ns key"
  by (auto simp: memory_get_def mem_view_def result_simps split: option.splits)

lemma observe_with_namespace:
  assumes "storage_ok st"
  shows "mem_view (snd (with_namespace st ns body)) =
      (mem_view st)(ns := bt_get (ns_entries (snd (body (the_ns st ns)))))"
    and "mem_rev (snd (with_namespace st ns body)) =
      (mem_rev st)(ns := ns_revision (snd (body (the_ns st ns))))"
  using assms by (simp_all add: with_namespace_the observe_the_ns the_set_ns fun_eq_iff)

lemma apply_batch_cases:
  assumes "storage_ok st"
  obtains (failed) e st' where "memory_apply_batch st ns r ms l = (Inl e, st')"
      "mem_view st' = mem_view st" "mem_rev st' = mem_rev st"
  | (refused) st' where "memory_apply_batch st ns r ms l
        = (Inr \<lparr>applied = False, t_revision = mem_rev st ns\<rparr>, st')"
      "mem_rev st ns \<noteq> r" "mem_view st' = mem_view st" "mem_rev st' = mem_rev st"
  | (committed) st' where "memory_apply_batch st ns r ms l
        = (Inr \<lparr>applied = True, t_revision = mem_rev st' ns\<rparr>, st')"
      "mem_rev st ns = r" "mem_view st' = (mem_view st)(ns := mutate_map ms (mem_view st ns))"
      "value_bytes (ns_entries (the_ns st' ns)) \<le> max_bytes l"
      "length (ns_entries (the_ns st' ns)) \<le> max_keys l"
proof (cases "and_then (validate_mutations ms l) (\<lambda>_. validate_namespace ns)")
  case (Inl e)
  then show thesis by (intro failed [of e st]) (simp_all add: memory_apply_batch_def)
next
  case (Inr u)
  then have val: "validate_mutations ms l = Inr ()" by (auto simp: result_simps)
  let ?n = "the_ns st ns"
  let ?body = "\<lambda>n. if ns_revision n \<noteq> r then refused n else commit_mutations ms l n"
  have run: "memory_apply_batch st ns r ms l = with_namespace st ns ?body"
    using Inr by (simp add: memory_apply_batch_def)
  have ok: "ns_ok ?n" using assms by (rule the_ns_ok)
  show thesis
  proof (cases "ns_revision ?n = r")
    case False
    then have "?body ?n = refused ?n" by simp
    then show thesis
      using False observe_with_namespace [OF assms, of ns ?body]
      by (intro refused [of "snd (with_namespace st ns ?body)"])
        (auto simp: run with_namespace_the refused_def observe_the_ns)
  next
    case True
    then have body: "?body ?n = commit_mutations ms l ?n" by simp
    from ok val show thesis
    proof (cases rule: commit_mutations_cases)
      case (failed e)
      then show thesis
        using True observe_with_namespace [OF assms, of ns ?body]
        by (intro that(1) [of e "snd (with_namespace st ns ?body)"])
          (auto simp: run with_namespace_the body observe_the_ns)
    next
      case (committed n')
      have "bt_get (ns_entries n') = mutate_map ms (bt_get (ns_entries ?n))"
        using committed(2) ok by (simp add: fold_apply_get ns_ok_def)
      then show thesis
        using True committed observe_with_namespace [OF assms, of ns ?body] assms
        by (intro that(3) [of "snd (with_namespace st ns ?body)"])
          (simp_all add: run with_namespace_the body observe_the_ns the_set_ns)
    qed
  qed
qed

interpretation mem: storage_backend storage_ok mem_view mem_rev mem_step memory_get memory_apply_batch
proof
  fix st st' ns r ms l res e
  show "mem_step st (snd (memory_apply_batch st ns r ms l))" by (rule mem_step.apply_batch)
  assume ok: "storage_ok st"
  show "storage_ok st'" if "mem_step st st'"
    using ns_update_ok [OF ok mem_step_update [OF that ok]] .
  show "mem_rev st ns < mem_rev st' ns \<or> mem_rev st' ns = mem_rev st ns \<and> mem_view st' ns = mem_view st ns"
    if "mem_step st st'"
    using ns_update_rev [OF ok mem_step_update [OF that ok]] .
  show "mem_rev st ns = r \<and> mem_view st' ns = mutate_map ms (mem_view st ns) \<and> t_revision res = mem_rev st' ns"
    if "memory_apply_batch st ns r ms l = (Inr res, st')" "applied res"
    using ok by (cases rule: apply_batch_cases [of _ ns r ms l]) (use that in auto)
  show "mem_rev st ns \<noteq> r \<and> t_revision res = mem_rev st ns \<and> mem_view st' = mem_view st \<and> mem_rev st' = mem_rev st"
    if "memory_apply_batch st ns r ms l = (Inr res, st')" "\<not> applied res"
    using ok by (cases rule: apply_batch_cases [of _ ns r ms l]) (use that in auto)
  show "mem_view st' = mem_view st \<and> mem_rev st' = mem_rev st"
    if "memory_apply_batch st ns r ms l = (Inl e, st')"
    using ok by (cases rule: apply_batch_cases [of _ ns r ms l]) (use that in auto)
qed (simp add: memory_get_view)

lemma storage_ok_new: "storage_ok memory_new"
  by (simp add: storage_ok_def memory_new_def)

lemma reachable_ok: "mem_step\<^sup>*\<^sup>* memory_new st \<Longrightarrow> storage_ok st"
  by (rule mem.run_wf [OF _ storage_ok_new])

section \<open>Properties\<close>

text \<open>A small storage the witnesses below run on: one namespace with one entry, written at
  revision 1.\<close>

definition demo_store :: memory_storage where
  "demo_store = snd (memory_put memory_new ''app'' ''a'' [1] demo_limits)"

lemmas memory_eval = memory_put_def memory_apply_batch_def memory_get_def memory_revision_def
  memory_usage_def memory_delete_def memory_compare_exchange_def with_namespace_def put_body_def
  commit_mutations_def refused_def find_ns_def set_ns_def ns_usage_def default_namespace_def
  memory_new_def Let_def checked_add_def checked_sub_def next_revision_def demo_limits_def
  bt_get_def bt_remove_def

lemma demo_valid: "validate_namespace ''app'' = Inr ()" "validate_key ''a'' = Inr ()"
  "validate_key ''b'' = Inr ()" "validate_limits demo_limits = Inr ()"
  by (simp_all add: validate_namespace_def validate_key_def validate_limits_def demo_limits_def
      storage_consts text_defs)

lemma demo_store_eq:
  "demo_store = \<lparr>namespaces = [(''app'', \<lparr>ns_schema = 0, ns_revision = 1,
     ns_entries = [(''a'', [1])], ns_bytes = 1\<rparr>)]\<rparr>"
  using demo_valid by (simp add: demo_store_def memory_eval)

lemma demo_store_reachable: "mem_step\<^sup>*\<^sup>* memory_new demo_store"
  unfolding demo_store_def by (rule r_into_rtranclp) (rule mem_step.put)

text \<open>C3: revisions are ABA-safe.  Whatever calls any clients make in between, if a namespace
  reports the same revision at two moments of a run then every key has the same value at both:
  a change that is undone later still leaves a larger revision behind.\<close>

theorem memory_revision_identifies_contents:
  assumes "mem_step\<^sup>*\<^sup>* memory_new s" and "mem_step\<^sup>*\<^sup>* s s'"
    and "memory_revision s' ns = memory_revision s ns"
  shows "memory_get s' ns key = memory_get s ns key"
proof (cases "validate_namespace ns")
  case (Inl e)
  then show ?thesis by (simp add: memory_get_def)
next
  case (Inr u)
  then have "mem_rev s' ns = mem_rev s ns"
    using assms(3) by (simp add: memory_revision_def mem_rev_def)
  then have "mem_view s' ns = mem_view s ns"
    using mem.same_revision_same_contents [OF assms(2) reachable_ok [OF assms(1)]] by simp
  moreover have "memory_get st ns key = and_then (validate_key key) (\<lambda>_. Inr (mem_view st ns key))" for st
    using Inr by (simp add: memory_get_def mem_view_def split: option.split)
  ultimately show ?thesis by simp
qed

theorem memory_revision_identifies_contents_witness:
  "memory_get (snd (memory_put demo_store ''app'' ''a'' [1] demo_limits)) ''app'' ''a''
     = memory_get demo_store ''app'' ''a''"
proof (rule memory_revision_identifies_contents [OF demo_store_reachable])
  show "mem_step\<^sup>*\<^sup>* demo_store (snd (memory_put demo_store ''app'' ''a'' [1] demo_limits))"
    by (rule r_into_rtranclp) (rule mem_step.put)
  show "memory_revision (snd (memory_put demo_store ''app'' ''a'' [1] demo_limits)) ''app''
      = memory_revision demo_store ''app''"
    using demo_valid by (simp add: demo_store_eq memory_eval)
qed

text \<open>C9: optimistic concurrency loses no update.  Two clients read a namespace at the same
  revision and submit a batch for it; if the first batch changed anything, the second is not
  applied, whatever ran in between.\<close>

theorem memory_no_lost_update:
  assumes "mem_step\<^sup>*\<^sup>* memory_new s0" and "mem_step\<^sup>*\<^sup>* s0 s1"
    and "memory_apply_batch s1 ns (mem_rev s0 ns) ms1 l1 = (Inr res1, s2)"
    and "mem_view s2 ns \<noteq> mem_view s1 ns" and "mem_step\<^sup>*\<^sup>* s2 s3"
    and "memory_apply_batch s3 ns (mem_rev s0 ns) ms2 l2 = (Inr res2, s4)"
  shows "\<not> applied res2"
  using mem.no_lost_update [OF reachable_ok [OF assms(1)] assms(2-6)] .

definition demo_batch :: "storage_mutation list" where
  "demo_batch = [\<lparr>m_key = ''a'', m_value = None\<rparr>]"

lemma demo_batch_valid: "validate_mutations demo_batch demo_limits = Inr ()"
  using demo_valid
  by (simp add: validate_mutations_Inr demo_batch_def storage_consts mutation_bytes_def)

lemma demo_batch_run:
  "memory_apply_batch demo_store ''app'' 1 demo_batch demo_limits
     = (Inr \<lparr>applied = True, t_revision = 2\<rparr>,
        \<lparr>namespaces = [(''app'', \<lparr>ns_schema = 0, ns_revision = 2, ns_entries = [], ns_bytes = 0\<rparr>)]\<rparr>)"
  using demo_valid demo_batch_valid
  by (simp add: memory_eval demo_store_eq mutations_change_def apply_mutations_def
      count_mutation_def apply_mutation_def demo_batch_def)

theorem memory_no_lost_update_witness:
  "\<not> applied (projr (fst (memory_apply_batch (snd (memory_apply_batch demo_store ''app'' 1 demo_batch
       demo_limits)) ''app'' 1 [\<lparr>m_key = ''b'', m_value = Some [2]\<rparr>] demo_limits)))"
proof -
  let ?s2 = "snd (memory_apply_batch demo_store ''app'' 1 demo_batch demo_limits)"
  let ?ms = "[\<lparr>m_key = ''b'', m_value = Some [2 :: 8 word]\<rparr>]"
  have rev: "mem_rev demo_store ''app'' = 1"
    by (simp add: mem_rev_def demo_store_eq find_ns_def bt_get_def)
  have val: "validate_mutations ?ms demo_limits = Inr ()"
    using demo_valid
    by (simp add: validate_mutations_Inr storage_consts mutation_bytes_def demo_limits_def)
  have b1: "memory_apply_batch demo_store ''app'' (mem_rev demo_store ''app'') demo_batch demo_limits
      = (Inr \<lparr>applied = True, t_revision = 2\<rparr>, ?s2)"
    unfolding rev demo_batch_run by simp
  have ch: "mem_view ?s2 ''app'' \<noteq> mem_view demo_store ''app''"
    unfolding demo_batch_run by (simp add: mem_view_def find_ns_def bt_get_def demo_store_eq fun_eq_iff)
  have b2: "memory_apply_batch ?s2 ''app'' (mem_rev demo_store ''app'') ?ms demo_limits
      = (Inr \<lparr>applied = False, t_revision = 2\<rparr>, ?s2)"
    unfolding rev demo_batch_run
    using val demo_valid by (simp add: memory_apply_batch_def with_namespace_def refused_def
        find_ns_def set_ns_def bt_get_def)
  have "\<not> applied \<lparr>applied = False, t_revision = 2\<rparr>"
    using memory_no_lost_update [OF demo_store_reachable rtranclp.rtrancl_refl b1 ch
        rtranclp.rtrancl_refl b2] .
  then show ?thesis using b2 unfolding rev by simp
qed

text \<open>Quota accounting is exact.  In every state the calls can reach, the usage the code
  reports from its cached counter is the real one: the sum of the lengths of the stored values
  and the number of stored keys.\<close>

theorem memory_usage_exact:
  assumes "mem_step\<^sup>*\<^sup>* memory_new st" and "validate_namespace ns = Inr ()"
  shows "memory_usage st ns = Inr \<lparr>u_bytes = (\<Sum>k \<in> dom (mem_view st ns). length (the (mem_view st ns k))),
    u_keys = card (dom (mem_view st ns))\<rparr>"
proof -
  let ?e = "ns_entries (the_ns st ns)"
  have ok: "ns_ok (the_ns st ns)" using reachable_ok [OF assms(1)] by (rule the_ns_ok)
  then have bt: "bt_ok ?e" by (simp add: ns_ok_def)
  have "memory_usage st ns = Inr (ns_usage (the_ns st ns))"
    using assms(2)
    by (simp add: memory_usage_def the_ns_def ns_usage_def default_namespace_def split: option.split)
  moreover have "value_bytes ?e = (\<Sum>k \<in> dom (bt_get ?e). length (the (bt_get ?e k)))"
    using bt.weight_eq [OF bt, of length] by (simp add: value_bytes_def)
  moreover have "length ?e = card (dom (bt_get ?e))"
    using bt.weight_eq [OF bt, of "\<lambda>_. 1"] by (simp add: sum_list_triv)
  ultimately show ?thesis using ok by (simp add: ns_usage_def ns_ok_def observe_the_ns)
qed

theorem memory_usage_exact_witness:
  "memory_usage demo_store ''app'' = Inr \<lparr>u_bytes = 1, u_keys = 1\<rparr>"
proof -
  have v: "mem_view demo_store ''app'' = [''a'' \<mapsto> [1]]"
    by (simp add: mem_view_def find_ns_def bt_get_def demo_store_eq fun_eq_iff)
  show ?thesis
    using memory_usage_exact [OF demo_store_reachable demo_valid(1)] unfolding v by simp
qed

lemma memory_put_Inr:
  assumes "storage_ok st" and "memory_put st ns key val l = (Inr (), st')"
  shows "mem_view st' = (mem_view st)(ns := (mem_view st ns)(key \<mapsto> val))"
    and "mem_view st' \<noteq> mem_view st \<Longrightarrow> value_bytes (ns_entries (the_ns st' ns)) \<le> max_bytes l"
    and "mem_view st ns key = None \<Longrightarrow> length (ns_entries (the_ns st' ns)) \<le> max_keys l"
proof -
  let ?n = "the_ns st ns"
  have run: "memory_put st ns key val l = with_namespace st ns (put_body key val l)"
    using assms(2) by (auto simp: memory_put_def split: sum.splits)
  obtain n' where body: "put_body key val l ?n = (Inr (), n')"
    and st': "st' = snd (with_namespace st ns (put_body key val l))" "st' = set_ns st ns n'"
    using assms(2) unfolding run
    by (cases "put_body key val l ?n") (auto simp: with_namespace_the)
  have ok: "ns_ok ?n" using assms(1) by (rule the_ns_ok)
  note put = put_body_Inr [OF ok body]
  show view: "mem_view st' = (mem_view st)(ns := (mem_view st ns)(key \<mapsto> val))"
    unfolding st'(1) observe_with_namespace [OF assms(1)]
    using put(1) body by (simp add: observe_the_ns)
  show "mem_view st' \<noteq> mem_view st \<Longrightarrow> value_bytes (ns_entries (the_ns st' ns)) \<le> max_bytes l"
  proof -
    assume "mem_view st' \<noteq> mem_view st"
    then have "mem_view st ns key \<noteq> Some val" unfolding view by (metis fun_upd_triv)
    then show ?thesis using put(2) assms(1) by (auto simp: st'(2) the_set_ns observe_the_ns)
  qed
  show "mem_view st ns key = None \<Longrightarrow> length (ns_entries (the_ns st' ns)) \<le> max_keys l"
    using put(2) assms(1) ok by (auto simp: st'(2) the_set_ns observe_the_ns bt.length_ins ns_ok_def)
qed

lemma memory_put_Inl:
  assumes "storage_ok st" and "memory_put st ns key val l = (Inl e, st')"
  shows "mem_view st' = mem_view st \<and> mem_rev st' = mem_rev st"
proof (cases "st' = st")
  case False
  then have run: "memory_put st ns key val l = with_namespace st ns (put_body key val l)"
    using assms(2) by (auto simp: memory_put_def split: sum.splits)
  then have st': "st' = snd (with_namespace st ns (put_body key val l))"
    using assms(2) by (metis snd_conv)
  have "fst (put_body key val l (the_ns st ns)) = Inl e"
    using assms(2) unfolding run by (simp add: with_namespace_the)
  then have "snd (put_body key val l (the_ns st ns)) = the_ns st ns"
    using put_body_Inl [of key val l "the_ns st ns" e] by (metis prod.collapse)
  then show ?thesis
    unfolding st' observe_with_namespace [OF assms(1)] by (simp add: observe_the_ns fun_eq_iff)
qed simp

text \<open>\<^verbatim>\<open>put\<close> on every path.  A call that returns \<^verbatim>\<open>Ok\<close> changes exactly the addressed key of
  the addressed namespace, keeps the namespace within the byte quota if it changed anything, and
  within the key quota if it added the key; a call that returns an error changes no key of any
  namespace and no revision.\<close>

theorem memory_put_effect:
  assumes "mem_step\<^sup>*\<^sup>* memory_new st"
  shows "case memory_put st ns key val l of
      (Inr _, st') \<Rightarrow> mem_view st' = (mem_view st)(ns := (mem_view st ns)(key \<mapsto> val)) \<and>
        (mem_view st' \<noteq> mem_view st \<longrightarrow> value_bytes (ns_entries (the_ns st' ns)) \<le> max_bytes l) \<and>
        (mem_view st ns key = None \<longrightarrow> length (ns_entries (the_ns st' ns)) \<le> max_keys l)
    | (Inl _, st') \<Rightarrow> mem_view st' = mem_view st \<and> mem_rev st' = mem_rev st"
  using memory_put_Inr [OF reachable_ok [OF assms], of ns key val l]
    memory_put_Inl [OF reachable_ok [OF assms], of ns key val l]
  by (auto split: prod.split sum.split)

theorem memory_put_effect_witness:
  "memory_put demo_store ''app'' ''b'' [1, 2, 3, 4] demo_limits
     = (Inl (QuotaExceeded 5 4), demo_store) \<and>
   mem_view (snd (memory_put demo_store ''app'' ''b'' [7] demo_limits)) ''app'' ''b'' = Some [7]"
proof
  show "memory_put demo_store ''app'' ''b'' [1, 2, 3, 4] demo_limits
     = (Inl (QuotaExceeded 5 4), demo_store)"
    using demo_valid by (simp add: demo_store_eq memory_eval)
  have "fst (memory_put demo_store ''app'' ''b'' [7] demo_limits) = Inr ()"
    using demo_valid by (simp add: demo_store_eq memory_eval)
  then show "mem_view (snd (memory_put demo_store ''app'' ''b'' [7] demo_limits)) ''app'' ''b'' = Some [7]"
    using memory_put_effect [OF demo_store_reachable, of "''app''" "''b''" "[7]" demo_limits]
    by (auto split: prod.splits sum.splits)
qed

end
