(* ===== verification/Network_Http.thy ===== *)
theory Network_Http
  imports Ordered_Map "HOL-Library.Sublist"
begin

text \<open>
  The HTTP and service half of \<^verbatim>\<open>crates/cartridge-network/src/lib.rs\<close>: scopes and policies,
  requests and responses, header and path checks, and the fixture store.  The \<^verbatim>\<open>url\<close> crate is
  outside the repository: a parsed URL is a record of the accessors the code calls and the
  parser is the argument \<open>url_parse\<close>.  A request's fingerprint needs \<^verbatim>\<open>serde_json\<close> and
  \<^verbatim>\<open>sha2\<close>, which are the arguments \<open>to_vec\<close> and \<open>sha256hex\<close> (\<^verbatim>\<open>hex::encode(Sha256::digest(_))\<close>).

  Shown here: accepted headers cannot inject a line, repeat a name or name a header the host
  controls; a prefix scope matches whole path segments only; an authorised request agrees
  with a declared scope in method, scheme, host, effective port and path, and is unencrypted only
  towards a loopback host; replaying a recorded fixture
  returns the recorded response.
\<close>

section \<open>Limits and data\<close>

definition NETWORK_FORMAT_VERSION :: nat where "NETWORK_FORMAT_VERSION = 1"
definition MAX_HTTP_REQUEST_BYTES :: nat where "MAX_HTTP_REQUEST_BYTES = 1024 * 1024"
definition MAX_HTTP_RESPONSE_BYTES :: nat where "MAX_HTTP_RESPONSE_BYTES = 4 * 1024 * 1024"
definition MAX_HTTP_HEADERS :: nat where "MAX_HTTP_HEADERS = 128"
definition MAX_HTTP_HEADER_BYTES :: nat where "MAX_HTTP_HEADER_BYTES = 64 * 1024"
definition MAX_SERVICE_REQUEST_BYTES :: nat where "MAX_SERVICE_REQUEST_BYTES = 256 * 1024"
definition MAX_SERVICE_RESPONSE_BYTES :: nat where "MAX_SERVICE_RESPONSE_BYTES = 256 * 1024"
definition MAX_SERVICE_PATH_BYTES :: nat where "MAX_SERVICE_PATH_BYTES = 8192"
definition MAX_HTTP_SCOPES :: nat where "MAX_HTTP_SCOPES = 128"
definition MAX_FIXTURES :: nat where "MAX_FIXTURES = 4096"

lemmas http_consts = NETWORK_FORMAT_VERSION_def MAX_HTTP_REQUEST_BYTES_def MAX_HTTP_RESPONSE_BYTES_def
  MAX_HTTP_HEADERS_def MAX_HTTP_HEADER_BYTES_def MAX_SERVICE_REQUEST_BYTES_def
  MAX_SERVICE_RESPONSE_BYTES_def MAX_SERVICE_PATH_BYTES_def MAX_HTTP_SCOPES_def MAX_FIXTURES_def

datatype http_error =
    SchemeInvalid | UnencryptedRemote | ScopeHostInvalid | PathPrefixInvalid | NoMethods
  | PolicyLimitsInvalid | RequestTooLarge | UrlInvalid | UrlCredentials | OutsideScopes
  | ResponseTooLarge | ResponseStatusInvalid
  | HeaderCountExceeded | HeaderInvalid | DuplicateHeader | ForbiddenHeader
  | HeaderSizeOverflow | HeaderBytesExceeded
  | ServiceIdentityInvalid | ServiceRequestLimits | ServiceResponseLimits
  | FixtureDocumentInvalid | FixtureLimitExceeded | NoFixture | SerializationError

datatype http_method = Get | Head | Post | Put | Patch | Delete

record http_scope =
  sc_scheme :: string
  sc_host :: string
  sc_port :: "nat option"
  sc_path_prefix :: string
  sc_methods :: "http_method set"

record http_policy =
  hp_scopes :: "http_scope list"
  hp_max_request_bytes :: nat
  hp_max_response_bytes :: nat
  hp_max_redirects :: nat

record http_request =
  rq_method :: http_method
  rq_url :: string
  rq_headers :: "(string, string) btree"
  rq_body :: bytes

record http_response =
  rs_status :: nat
  rs_headers :: "(string, string) btree"
  rs_body :: bytes

record service_request =
  sv_id :: string
  sv_method :: http_method
  sv_path :: string
  sv_headers :: "(string, string) btree"
  sv_body :: bytes

record service_response =
  sr_status :: nat
  sr_headers :: "(string, string) btree"
  sr_body :: bytes

text \<open>The accessors of a parsed \<^verbatim>\<open>Url\<close> the code uses.\<close>

record url =
  url_scheme :: string
  url_host_str :: "string option"
  url_port_or_known_default :: "nat option"
  url_path :: string
  url_username :: string
  url_password :: "string option"
  url_fragment :: "string option"

section \<open>Headers and paths\<close>

definition header_name_byte :: "char \<Rightarrow> bool" where
  "header_name_byte b \<longleftrightarrow> is_ascii_alphanumeric b \<or>
     b \<in> set [CHR ''!'', CHR ''#'', CHR ''$'', CHR ''%'', CHR ''&'', CHR 0x27, CHR ''*'', CHR ''+'',
       CHR ''-'', CHR ''.'', CHR ''^'', CHR ''_'', CHR 0x60, CHR ''|'', CHR ''~'']"

definition forbidden_headers :: "string list" where
  "forbidden_headers = [''connection'', ''proxy-authorization'', ''proxy-authenticate'',
     ''transfer-encoding'', ''upgrade'', ''host'', ''content-length'']"

text \<open>One iteration of the loop of \<^verbatim>\<open>validate_headers\<close>: byte count and normalised names so far.\<close>

definition validate_header ::
    "nat \<times> string set \<Rightarrow> string \<times> string \<Rightarrow> http_error + (nat \<times> string set)" where
  "validate_header acc h =
     (case acc of (nbytes, normalized) \<Rightarrow> case h of (name, val) \<Rightarrow>
      and_then (fail_if (name = [] \<or> length name > 256 \<or> \<not> list_all header_name_byte name \<or>
          list_ex (\<lambda>ch. ch = 13 \<or> ch = 10 \<or> ch = 0) (chars val)) HeaderInvalid) (\<lambda>_.
      let lower = to_ascii_lowercase name in
      and_then (fail_if (lower \<in> normalized) DuplicateHeader) (\<lambda>_.
      and_then (fail_if (lower \<in> set forbidden_headers) ForbiddenHeader) (\<lambda>_.
      and_then (ok_or (checked_add 64 nbytes (length name + length val)) HeaderSizeOverflow) (\<lambda>nbytes'.
      Inr (nbytes', insert lower normalized))))))"

definition validate_headers :: "(string, string) btree \<Rightarrow> http_error + unit" where
  "validate_headers hs =
     and_then (fail_if (length hs > MAX_HTTP_HEADERS) HeaderCountExceeded) (\<lambda>_.
     and_then (try_fold validate_header (0, {}) hs) (\<lambda>acc.
     fail_if (fst acc > MAX_HTTP_HEADER_BYTES) HeaderBytesExceeded))"

definition valid_service_path :: "string \<Rightarrow> bool" where
  "valid_service_path path \<longleftrightarrow>
     \<not> (path = [] \<or> length path > MAX_SERVICE_PATH_BYTES \<or> \<not> starts_with path ''/'' \<or>
        starts_with path ''//'' \<or> str_contains path [CHR 0x5C] \<or> str_contains path ''#'' \<or>
        list_ex is_control (chars path)) \<and>
     (let lower = to_ascii_lowercase path in
      \<not> (str_contains lower ''%2e'' \<or> str_contains lower ''%2f'' \<or> str_contains lower ''%5c'')) \<and>
     list_all (\<lambda>part. part \<noteq> ''.'' \<and> part \<noteq> ''..'') (split_on (CHR ''/'') (hd (split_on (CHR ''?'') path)))"

definition path_prefix_matches :: "string \<Rightarrow> string \<Rightarrow> bool" where
  "path_prefix_matches pre path \<longleftrightarrow>
     pre = ''/'' \<or> path = pre \<or>
     (case strip_prefix path pre of
        None \<Rightarrow> False
      | Some rest \<Rightarrow> ends_with pre ''/'' \<or> starts_with rest ''/'')"

definition default_port :: "string \<Rightarrow> nat option" where
  "default_port scheme =
     (if scheme = ''https'' then Some 443 else if scheme = ''http'' then Some 80 else None)"

definition is_loopback_host :: "string \<Rightarrow> bool" where
  "is_loopback_host host \<longleftrightarrow> eq_ignore_ascii_case host ''localhost'' \<or>
     host = ''127.0.0.1'' \<or> host = ''[::1]'' \<or> host = ''::1''"

section \<open>Scopes and policies\<close>

definition validate_scope :: "http_scope \<Rightarrow> http_error + unit" where
  "validate_scope s =
     and_then (fail_if (sc_scheme s \<noteq> ''https'' \<and> sc_scheme s \<noteq> ''http'') SchemeInvalid) (\<lambda>_.
     and_then (fail_if (sc_scheme s = ''http'' \<and> \<not> is_loopback_host (sc_host s)) UnencryptedRemote) (\<lambda>_.
     and_then (fail_if (sc_host s = [] \<or> length (sc_host s) > 253 \<or> str_contains (sc_host s) ''/'' \<or>
         str_contains (sc_host s) ''@'' \<or> list_ex is_control (chars (sc_host s))) ScopeHostInvalid) (\<lambda>_.
     and_then (fail_if (\<not> starts_with (sc_path_prefix s) ''/'' \<or> str_contains (sc_path_prefix s) ''..'' \<or>
         length (sc_path_prefix s) > 2048) PathPrefixInvalid) (\<lambda>_.
     fail_if (sc_methods s = {}) NoMethods))))"

definition scope_permits :: "http_scope \<Rightarrow> http_method \<Rightarrow> url \<Rightarrow> bool" where
  "scope_permits s method u \<longleftrightarrow>
     method \<in> sc_methods s \<and> url_scheme u = sc_scheme s \<and>
     (case url_host_str u of None \<Rightarrow> False | Some host \<Rightarrow> eq_ignore_ascii_case host (sc_host s)) \<and>
     url_port_or_known_default u
       = (case sc_port s of Some p \<Rightarrow> Some p | None \<Rightarrow> default_port (sc_scheme s)) \<and>
     path_prefix_matches (sc_path_prefix s) (url_path u)"

definition default_http_policy :: http_policy where
  "default_http_policy = \<lparr>hp_scopes = [], hp_max_request_bytes = MAX_HTTP_REQUEST_BYTES,
     hp_max_response_bytes = MAX_HTTP_RESPONSE_BYTES, hp_max_redirects = 0\<rparr>"

definition validate_http_policy :: "http_policy \<Rightarrow> http_error + unit" where
  "validate_http_policy p =
     and_then (fail_if (length (hp_scopes p) > MAX_HTTP_SCOPES \<or>
         hp_max_request_bytes p = 0 \<or> hp_max_request_bytes p > MAX_HTTP_REQUEST_BYTES \<or>
         hp_max_response_bytes p = 0 \<or> hp_max_response_bytes p > MAX_HTTP_RESPONSE_BYTES \<or>
         hp_max_redirects p > 10) PolicyLimitsInvalid) (\<lambda>_.
     try_fold (\<lambda>_. validate_scope) () (hp_scopes p))"

definition validate_request :: "http_request \<Rightarrow> nat \<Rightarrow> http_error + unit" where
  "validate_request r max_body =
     and_then (fail_if (length (rq_url r) > 8192 \<or> length (rq_body r) > max_body) RequestTooLarge) (\<lambda>_.
     validate_headers (rq_headers r))"

definition authorize :: "(string \<Rightarrow> url option) \<Rightarrow> http_policy \<Rightarrow> http_request \<Rightarrow> http_error + url" where
  "authorize url_parse p r =
     and_then (validate_http_policy p) (\<lambda>_.
     and_then (validate_request r (hp_max_request_bytes p)) (\<lambda>_.
     and_then (ok_or (url_parse (rq_url r)) UrlInvalid) (\<lambda>u.
     and_then (fail_if (url_username u \<noteq> [] \<or> url_password u \<noteq> None \<or> url_fragment u \<noteq> None)
       UrlCredentials) (\<lambda>_.
     and_then (fail_if (\<not> list_ex (\<lambda>s. scope_permits s (rq_method r) u) (hp_scopes p)) OutsideScopes) (\<lambda>_.
     Inr u)))))"

definition validate_response :: "http_policy \<Rightarrow> http_response \<Rightarrow> http_error + unit" where
  "validate_response p r =
     and_then (fail_if (length (rs_body r) > hp_max_response_bytes p) ResponseTooLarge) (\<lambda>_.
     and_then (fail_if (\<not> (100 \<le> rs_status r \<and> rs_status r \<le> 599)) ResponseStatusInvalid) (\<lambda>_.
     validate_headers (rs_headers r)))"

section \<open>Services and fixtures\<close>

definition validate_service_request :: "service_request \<Rightarrow> http_error + unit" where
  "validate_service_request r =
     and_then (fail_if (\<not> is_digest (sv_id r)) ServiceIdentityInvalid) (\<lambda>_.
     and_then (fail_if (\<not> valid_service_path (sv_path r) \<or>
         length (sv_body r) > MAX_SERVICE_REQUEST_BYTES) ServiceRequestLimits) (\<lambda>_.
     validate_headers (sv_headers r)))"

definition validate_service_response :: "service_response \<Rightarrow> http_error + unit" where
  "validate_service_response r =
     and_then (fail_if (\<not> (100 \<le> sr_status r \<and> sr_status r \<le> 599) \<or>
         length (sr_body r) > MAX_SERVICE_RESPONSE_BYTES) ServiceResponseLimits) (\<lambda>_.
     validate_headers (sr_headers r))"

record http_fixtures =
  fx_format_version :: nat
  fx_responses :: "(string, http_response) btree"

definition fingerprint ::
    "(http_request \<Rightarrow> bytes option) \<Rightarrow> (bytes \<Rightarrow> string) \<Rightarrow> http_request \<Rightarrow> http_error + string" where
  "fingerprint to_vec sha256hex r =
     and_then (validate_request r MAX_HTTP_REQUEST_BYTES) (\<lambda>_.
     and_then (ok_or (to_vec r) SerializationError) (\<lambda>b. Inr (sha256hex b)))"

definition fixtures_new :: http_fixtures where
  "fixtures_new = \<lparr>fx_format_version = NETWORK_FORMAT_VERSION, fx_responses = []\<rparr>"

definition fixtures_valid :: "http_fixtures \<Rightarrow> bool" where
  "fixtures_valid fx \<longleftrightarrow>
     \<not> (fx_format_version fx \<noteq> NETWORK_FORMAT_VERSION \<or> length (fx_responses fx) > MAX_FIXTURES)"

definition fixtures_send ::
    "(http_request \<Rightarrow> bytes option) \<Rightarrow> (bytes \<Rightarrow> string) \<Rightarrow> http_fixtures \<Rightarrow> http_request
      \<Rightarrow> http_error + http_response" where
  "fixtures_send to_vec sha256hex fx r =
     and_then (fail_if (\<not> fixtures_valid fx) FixtureDocumentInvalid) (\<lambda>_.
     and_then (fingerprint to_vec sha256hex r) (\<lambda>id.
     ok_or (bt_get (fx_responses fx) id) NoFixture))"

definition fixtures_insert ::
    "(string \<Rightarrow> url option) \<Rightarrow> (http_request \<Rightarrow> bytes option) \<Rightarrow> (bytes \<Rightarrow> string)
      \<Rightarrow> http_fixtures \<Rightarrow> http_policy \<Rightarrow> http_request \<Rightarrow> http_response \<Rightarrow> http_error + http_fixtures" where
  "fixtures_insert url_parse to_vec sha256hex fx p r resp =
     and_then (authorize url_parse p r) (\<lambda>_.
     and_then (validate_response p resp) (\<lambda>_.
     and_then (if length (fx_responses fx) \<ge> MAX_FIXTURES
         then and_then (fingerprint to_vec sha256hex r) (\<lambda>id.
           fail_if (bt_get (fx_responses fx) id = None) FixtureLimitExceeded)
         else Inr ()) (\<lambda>_.
     and_then (fingerprint to_vec sha256hex r) (\<lambda>id.
     Inr (fx\<lparr>fx_responses := bt_insert id resp (fx_responses fx)\<rparr>)))))"

definition fixtures_replay ::
    "(string \<Rightarrow> url option) \<Rightarrow> (http_request \<Rightarrow> bytes option) \<Rightarrow> (bytes \<Rightarrow> string)
      \<Rightarrow> http_fixtures \<Rightarrow> http_policy \<Rightarrow> http_request \<Rightarrow> http_error + http_response" where
  "fixtures_replay url_parse to_vec sha256hex fx p r =
     and_then (fail_if (\<not> fixtures_valid fx) FixtureDocumentInvalid) (\<lambda>_.
     and_then (authorize url_parse p r) (\<lambda>_.
     and_then (fingerprint to_vec sha256hex r) (\<lambda>id.
     and_then (ok_or (bt_get (fx_responses fx) id) NoFixture) (\<lambda>resp.
     and_then (validate_response p resp) (\<lambda>_. Inr resp)))))"

section \<open>Accepted headers\<close>

definition header_ok :: "string \<times> string \<Rightarrow> bool" where
  "header_ok h \<longleftrightarrow> fst h \<noteq> [] \<and> length (fst h) \<le> 256 \<and> list_all header_name_byte (fst h) \<and>
     (\<forall>ch \<in> set (chars (snd h)). ch \<notin> {0, 10, 13}) \<and>
     to_ascii_lowercase (fst h) \<notin> set forbidden_headers"

definition header_bytes :: "string \<times> string \<Rightarrow> nat" where
  "header_bytes h = length (fst h) + length (snd h)"

lemma validate_header_Inr:
  "validate_header (b, K) h = Inr acc \<longleftrightarrow>
     header_ok h \<and> to_ascii_lowercase (fst h) \<notin> K \<and> b + header_bytes h < 2 ^ 64 \<and>
     acc = (b + header_bytes h, insert (to_ascii_lowercase (fst h)) K)"
  by (cases h) (auto simp: validate_header_def header_ok_def header_bytes_def Let_def result_simps
      list_ex_iff simp del: power_numeral)

lemma validate_header_fold_Inr:
  "try_fold validate_header (b, K) hs = Inr (b', K') \<longleftrightarrow>
     distinct (map (to_ascii_lowercase \<circ> fst) hs) \<and>
     set (map (to_ascii_lowercase \<circ> fst) hs) \<inter> K = {} \<and> (\<forall>h \<in> set hs. header_ok h) \<and>
     (hs = [] \<or> b' < 2 ^ 64) \<and> K' = set (map (to_ascii_lowercase \<circ> fst) hs) \<union> K \<and>
     b' = b + sum_list (map header_bytes hs)"
proof (induction hs arbitrary: b K)
  case Nil
  then show ?case by auto
next
  case (Cons h hs)
  show ?case
    by (auto simp: result_simps validate_header_Inr Cons simp del: power_numeral)
qed

text \<open>The header check accepts exactly the header maps that are safe to forward: at most 128
  headers and 64 KiB, every name a token that names no host-controlled or hop-by-hop header, no
  name repeated under any capitalisation, and no carriage return, line feed or NUL in a value.\<close>

theorem validate_headers_iff:
  "validate_headers hs = Inr () \<longleftrightarrow>
     length hs \<le> 128 \<and> sum_list (map header_bytes hs) \<le> 65536 \<and>
     distinct (map (to_ascii_lowercase \<circ> fst) hs) \<and> (\<forall>h \<in> set hs. header_ok h)"
  by (auto simp: validate_headers_def result_simps validate_header_fold_Inr MAX_HTTP_HEADERS_def
      MAX_HTTP_HEADER_BYTES_def)

theorem validate_headers_iff_witness:
  "validate_headers [(''Accept'', ''*''), (''accept'', ''*'')] = Inl DuplicateHeader \<and>
   validate_headers [(''Accept'', ''text''), (''X-Id'', ''7'')] = Inr ()"
proof
  show "validate_headers [(''Accept'', ''*''), (''accept'', ''*'')] = Inl DuplicateHeader"
    by (simp add: validate_headers_def validate_header_def http_consts header_name_byte_def
        forbidden_headers_def checked_add_def text_defs char_of_def bit_0)
  show "validate_headers [(''Accept'', ''text''), (''X-Id'', ''7'')] = Inr ()"
    by (subst validate_headers_iff) (simp add: header_ok_def header_bytes_def header_name_byte_def
        forbidden_headers_def text_defs char_of_def bit_0)
qed

section \<open>Path scopes\<close>

lemma ends_with_iff: "ends_with s [c] \<longleftrightarrow> s \<noteq> [] \<and> last s = c"
  by (cases s rule: rev_cases) (auto simp: ends_with_def)

lemma split_on_snoc: "split_on c (r @ [c]) = split_on c r @ [[]]"
  using split_on_append [of c r "[]"] by simp

text \<open>A path scope covers whole path segments.  For a prefix that does not end in a slash, a
  path matches exactly when the segments of the prefix are the first segments of the path, so
  \<^verbatim>\<open>/api\<close> covers \<^verbatim>\<open>/api/x\<close> and not \<^verbatim>\<open>/apix\<close>; for a prefix that ends in a slash every
  matching path starts with its segments.\<close>

theorem path_prefix_segments:
  assumes "starts_with pre ''/''" and "starts_with path ''/''"
  shows "if ends_with pre ''/''
    then path_prefix_matches pre path \<longrightarrow>
      prefix (butlast (split_on (CHR ''/'') pre)) (split_on (CHR ''/'') path)
    else path_prefix_matches pre path \<longleftrightarrow>
      prefix (split_on (CHR ''/'') pre) (split_on (CHR ''/'') path)"
proof (cases "ends_with pre ''/''")
  case True
  then obtain r where r: "pre = r @ ''/''" by (auto simp: ends_with_single)
  have seg: "butlast (split_on (CHR ''/'') pre) = split_on (CHR ''/'') r"
    using r split_on_snoc [of "CHR ''/''" r] by simp
  have "prefix (split_on (CHR ''/'') r) (split_on (CHR ''/'') path)" if "path_prefix_matches pre path"
  proof (cases "pre = ''/''")
    case True
    with r assms(2) show ?thesis by (auto simp: starts_with_iff)
  next
    case False
    then have "\<exists>q. path = r @ CHR ''/'' # q"
      using that r by (auto simp: path_prefix_matches_def strip_prefix_def starts_with_iff
          split: if_splits)
    then show ?thesis by (auto simp: split_on_append)
  qed
  with True seg show ?thesis by simp
next
  case False
  have ne: "pre \<noteq> ''/''" using False by (auto simp: ends_with_single)
  have "path_prefix_matches pre path \<longleftrightarrow> path = pre \<or> (\<exists>q. path = pre @ CHR ''/'' # q)"
    using False ne by (auto simp: path_prefix_matches_def strip_prefix_def starts_with_iff)
  also have "\<dots> \<longleftrightarrow> prefix (split_on (CHR ''/'') pre) (split_on (CHR ''/'') path)"
  proof
    assume "path = pre \<or> (\<exists>q. path = pre @ CHR ''/'' # q)"
    then show "prefix (split_on (CHR ''/'') pre) (split_on (CHR ''/'') path)"
      by (auto simp: split_on_append)
  next
    assume "prefix (split_on (CHR ''/'') pre) (split_on (CHR ''/'') path)"
    then obtain ss where ss: "split_on (CHR ''/'') path = split_on (CHR ''/'') pre @ ss"
      by (auto simp: prefix_def)
    show "path = pre \<or> (\<exists>q. path = pre @ CHR ''/'' # q)"
    proof (cases "ss = []")
      case True
      with ss show ?thesis by (metis append_Nil2 join_split)
    next
      case False
      then have "path = pre @ CHR ''/'' # join_on (CHR ''/'') ss"
        using ss join_on_append [of "split_on (CHR ''/'') pre" ss "CHR ''/''"] by (metis join_split split_on_nonempty)
      then show ?thesis by blast
    qed
  qed
  finally show ?thesis using False by simp
qed

theorem path_prefix_segments_witness:
  "path_prefix_matches ''/api'' ''/api/x'' \<and> \<not> path_prefix_matches ''/api'' ''/apix''"
  using path_prefix_segments [of "''/api''" "''/api/x''"] path_prefix_segments [of "''/api''" "''/apix''"]
  by (simp add: starts_with_def ends_with_def)

section \<open>Authorised requests\<close>

lemma validate_http_policy_scopes:
  "validate_http_policy p = Inr () \<Longrightarrow> s \<in> set (hp_scopes p) \<Longrightarrow> validate_scope s = Inr ()"
  by (auto simp: validate_http_policy_def result_simps try_fold_unit)

lemma loopback_names:
  assumes "is_loopback_host host" and "eq_ignore_ascii_case h host"
  shows "to_ascii_lowercase h \<in> {''localhost'', ''127.0.0.1'', ''[::1]'', ''::1''}"
  using assms by (auto simp: is_loopback_host_def eq_ignore_ascii_case_def) (simp_all add: text_defs)

lemma path_prefix_plain:
  "path_prefix_matches pre path \<longleftrightarrow> pre = ''/'' \<or>
     (\<exists>rest. path = pre @ rest \<and> (rest = [] \<or> pre \<noteq> [] \<and> last pre = CHR ''/'' \<or> hd rest = CHR ''/''))"
proof -
  have "starts_with rest ''/'' \<longleftrightarrow> rest \<noteq> [] \<and> hd rest = CHR ''/''" for rest
    by (cases rest) (auto simp: starts_with_iff)
  then show ?thesis
    by (auto simp: path_prefix_matches_def strip_prefix_def starts_with_iff ends_with_iff)
qed

text \<open>The fields a scope compares, the effective port among them.\<close>

lemma scope_permits_fields:
  assumes "scope_permits s method u" and "validate_scope s = Inr ()"
  shows "method \<in> sc_methods s \<and> url_scheme u = sc_scheme s \<and>
    (\<exists>host. url_host_str u = Some host \<and> to_ascii_lowercase host = to_ascii_lowercase (sc_host s) \<and>
      (url_scheme u = ''https'' \<or> url_scheme u = ''http'' \<and>
        to_ascii_lowercase host \<in> {''localhost'', ''127.0.0.1'', ''[::1]'', ''::1''})) \<and>
    url_port_or_known_default u =
      Some (case sc_port s of Some n \<Rightarrow> n | None \<Rightarrow> if url_scheme u = ''https'' then 443 else 80) \<and>
    (sc_path_prefix s = ''/'' \<or> (\<exists>rest. url_path u = sc_path_prefix s @ rest \<and>
      (rest = [] \<or> last (sc_path_prefix s) = CHR ''/'' \<or> hd rest = CHR ''/'')))"
proof -
  have v: "sc_scheme s = ''https'' \<or> sc_scheme s = ''http'' \<and> is_loopback_host (sc_host s)"
    using assms(2) by (auto simp: validate_scope_def result_simps)
  obtain host where h: "url_host_str u = Some host" "eq_ignore_ascii_case host (sc_host s)"
    using assms(1) by (auto simp: scope_permits_def split: option.splits)
  have port: "url_port_or_known_default u =
      Some (case sc_port s of Some n \<Rightarrow> n | None \<Rightarrow> if url_scheme u = ''https'' then 443 else 80)"
    using assms(1) v by (auto simp: scope_permits_def default_port_def split: option.splits)
  have "\<exists>host. url_host_str u = Some host \<and> to_ascii_lowercase host = to_ascii_lowercase (sc_host s) \<and>
      (url_scheme u = ''https'' \<or> url_scheme u = ''http'' \<and>
        to_ascii_lowercase host \<in> {''localhost'', ''127.0.0.1'', ''[::1]'', ''::1''})"
    using h v loopback_names [OF _ h(2)] assms(1) by (auto simp: scope_permits_def eq_ignore_ascii_case_def)
  with port assms(1) show ?thesis by (auto simp: scope_permits_def path_prefix_plain)
qed

text \<open>C26: a request is authorised only inside its policy.  The parsed URL carries no credentials
  and no fragment; one declared scope names its method, its scheme, its host up to case, its
  effective port (the declared one, or else 443 for https and 80 for http) and a path prefix that
  ends at a segment boundary of its path; the body is within the policy's limit and the headers are
  safe to forward; and it is unencrypted only when its host is a loopback name.\<close>

theorem authorize_confines:
  assumes "authorize url_parse p r = Inr u"
  shows "url_parse (rq_url r) = Some u \<and> url_username u = [] \<and> url_password u = None \<and>
    url_fragment u = None \<and> length (rq_body r) \<le> hp_max_request_bytes p \<and>
    length (rq_body r) \<le> MAX_HTTP_REQUEST_BYTES \<and>
    length (rq_headers r) \<le> 128 \<and> sum_list (map header_bytes (rq_headers r)) \<le> 65536 \<and>
    distinct (map (to_ascii_lowercase \<circ> fst) (rq_headers r)) \<and> (\<forall>h \<in> set (rq_headers r). header_ok h) \<and>
    (\<exists>s \<in> set (hp_scopes p). rq_method r \<in> sc_methods s \<and> url_scheme u = sc_scheme s \<and>
      (\<exists>host. url_host_str u = Some host \<and> to_ascii_lowercase host = to_ascii_lowercase (sc_host s) \<and>
        (url_scheme u = ''https'' \<or> url_scheme u = ''http'' \<and>
          to_ascii_lowercase host \<in> {''localhost'', ''127.0.0.1'', ''[::1]'', ''::1''})) \<and>
      url_port_or_known_default u =
        Some (case sc_port s of Some n \<Rightarrow> n | None \<Rightarrow> if url_scheme u = ''https'' then 443 else 80) \<and>
      (sc_path_prefix s = ''/'' \<or> (\<exists>rest. url_path u = sc_path_prefix s @ rest \<and>
        (rest = [] \<or> last (sc_path_prefix s) = CHR ''/'' \<or> hd rest = CHR ''/''))))"
proof -
  have v: "validate_http_policy p = Inr ()" "validate_request r (hp_max_request_bytes p) = Inr ()"
    "url_parse (rq_url r) = Some u" "url_username u = []" "url_password u = None" "url_fragment u = None"
    "\<exists>s \<in> set (hp_scopes p). scope_permits s (rq_method r) u"
    using assms by (auto simp: authorize_def result_simps list_ex_iff)
  then obtain s where s: "s \<in> set (hp_scopes p)" "scope_permits s (rq_method r) u" by blast
  note f = scope_permits_fields [OF s(2) validate_http_policy_scopes [OF v(1) s(1)]]
  have "hp_max_request_bytes p \<le> MAX_HTTP_REQUEST_BYTES"
    using v(1) by (auto simp: validate_http_policy_def result_simps)
  moreover have body: "length (rq_body r) \<le> hp_max_request_bytes p" and "validate_headers (rq_headers r) = Inr ()"
    using v(2) by (auto simp: validate_request_def result_simps)
  ultimately have max: "length (rq_body r) \<le> MAX_HTTP_REQUEST_BYTES"
    and headers: "length (rq_headers r) \<le> 128" "sum_list (map header_bytes (rq_headers r)) \<le> 65536"
      "distinct (map (to_ascii_lowercase \<circ> fst) (rq_headers r))" "\<forall>h \<in> set (rq_headers r). header_ok h"
    by (simp_all add: validate_headers_iff)
  show ?thesis by (intro conjI v(3-6) body max headers, rule bexI [OF _ s(1)], rule f)
qed

definition demo_url :: url where
  "demo_url = \<lparr>url_scheme = ''http'', url_host_str = Some ''LOCALHOST'',
     url_port_or_known_default = Some 80, url_path = ''/v1/x'', url_username = [],
     url_password = None, url_fragment = None\<rparr>"

definition demo_http_policy :: http_policy where
  "demo_http_policy = default_http_policy\<lparr>hp_scopes := [\<lparr>sc_scheme = ''http'',
     sc_host = ''localhost'', sc_port = None, sc_path_prefix = ''/v1'', sc_methods = {Get}\<rparr>]\<rparr>"

definition demo_request :: http_request where
  "demo_request = \<lparr>rq_method = Get, rq_url = ''http://LOCALHOST/v1/x'', rq_headers = [], rq_body = []\<rparr>"

lemma demo_authorized: "authorize (\<lambda>_. Some demo_url) demo_http_policy demo_request = Inr demo_url"
  by (simp add: authorize_def demo_url_def demo_http_policy_def demo_request_def default_http_policy_def
      validate_http_policy_def validate_scope_def validate_request_def validate_headers_def
      scope_permits_def path_prefix_matches_def is_loopback_host_def default_port_def http_consts
      text_defs char_of_def bit_0)

theorem authorize_confines_witness:
  "url_port_or_known_default demo_url = Some 80 \<and>
   to_ascii_lowercase ''LOCALHOST'' \<in> {''localhost'', ''127.0.0.1'', ''[::1]'', ''::1''} \<and>
   (\<exists>rest. url_path demo_url = ''/v1'' @ rest \<and> hd rest = CHR ''/'')"
  using authorize_confines [OF demo_authorized] by (auto simp: demo_url_def demo_http_policy_def)

section \<open>Fixtures\<close>

text \<open>A recorded fixture is replayed.  If recording a response succeeded, replaying the same
  request under the same policy returns that response, and the fixture document stays within
  its limit.\<close>

theorem fixtures_replay_insert:
  assumes "bt_ok (fx_responses fx)" and "fixtures_valid fx"
    and "fixtures_insert url_parse to_vec sha256hex fx p r resp = Inr fx'"
  shows "fixtures_replay url_parse to_vec sha256hex fx' p r = Inr resp \<and> fixtures_valid fx' \<and>
    bt_ok (fx_responses fx')"
proof -
  obtain u id where a: "authorize url_parse p r = Inr u" "validate_response p resp = Inr ()"
    "fingerprint to_vec sha256hex r = Inr id"
    "fx' = fx\<lparr>fx_responses := bt_insert id resp (fx_responses fx)\<rparr>"
    "length (fx_responses fx) \<ge> MAX_FIXTURES \<longrightarrow> bt_get (fx_responses fx) id \<noteq> None"
    using assms(3) by (auto simp: fixtures_insert_def result_simps split: if_splits)
  have "length (fx_responses fx') \<le> MAX_FIXTURES"
    using a(4,5) assms(1,2) by (auto simp: bt.length_ins fixtures_valid_def)
  then have valid: "fixtures_valid fx'"
    using assms(2) a(4) by (simp add: fixtures_valid_def)
  have "bt_get (fx_responses fx') id = Some resp" using a(4) assms(1) by simp
  then show ?thesis
    using valid a assms(1) by (simp add: fixtures_replay_def)
qed

theorem fixtures_replay_insert_witness:
  "fixtures_replay (\<lambda>_. Some demo_url) (\<lambda>_. Some []) (\<lambda>_. ''id'')
     (fixtures_new\<lparr>fx_responses := [(''id'', \<lparr>rs_status = 200, rs_headers = [], rs_body = [1]\<rparr>)]\<rparr>)
     demo_http_policy demo_request = Inr \<lparr>rs_status = 200, rs_headers = [], rs_body = [1]\<rparr>"
proof -
  let ?resp = "\<lparr>rs_status = 200, rs_headers = [], rs_body = [1 :: 8 word]\<rparr>"
  have "fixtures_insert (\<lambda>_. Some demo_url) (\<lambda>_. Some []) (\<lambda>_. ''id'') fixtures_new
      demo_http_policy demo_request ?resp = Inr (fixtures_new\<lparr>fx_responses := [(''id'', ?resp)]\<rparr>)"
    unfolding fixtures_insert_def demo_authorized
    by (simp add: fixtures_new_def validate_response_def
        validate_headers_def fingerprint_def validate_request_def demo_request_def demo_http_policy_def
        default_http_policy_def http_consts)
  then show ?thesis
    using fixtures_replay_insert [of fixtures_new]
    by (simp add: fixtures_new_def fixtures_valid_def http_consts)
qed

end
