(* ===== verification/Network_Peer.thy ===== *)
theory Network_Peer
  imports Prelude
begin

text \<open>
  Peer identities and encrypted sessions of \<^verbatim>\<open>crates/cartridge-network/src/lib.rs\<close>.  The hash, the
  key agreement, the AEAD cipher and the hex codec are third-party code: the record \<open>crypto\<close>
  holds them, and the properties that rely on their documented behaviour name it
  (\<open>crypto_ok\<close>: hex decoding inverts encoding, decryption inverts encryption and adds a 16-byte
  tag, the key agreement is symmetric).  The random nonce of \<^verbatim>\<open>seal\<close> is an argument.

  Shown here: two peers that open a session towards each other derive the same key and mirrored
  identities; everything one seals the other opens, in order and unchanged; a message that was
  opened is never opened again.
\<close>

section \<open>Identities\<close>

definition MAX_MESSAGE_BYTES :: nat where "MAX_MESSAGE_BYTES = 1024 * 1024"

record crypto =
  sha256 :: "bytes \<Rightarrow> bytes"
  hex_encode :: "bytes \<Rightarrow> string"
  hex_decode :: "string \<Rightarrow> bytes option"
  x25519 :: "bytes \<Rightarrow> bytes \<Rightarrow> bytes"
  x25519_basepoint :: bytes
  aead_encrypt :: "bytes \<Rightarrow> bytes \<Rightarrow> bytes \<Rightarrow> bytes \<Rightarrow> bytes option"
  aead_decrypt :: "bytes \<Rightarrow> bytes \<Rightarrow> bytes \<Rightarrow> bytes \<Rightarrow> bytes option"

datatype peer_error =
    NotHexadecimal | WrongLength | PeerIdMismatch | InvalidSharedSecret
  | MessageTooLarge | EncryptionFailed | SendSequenceOverflow
  | IdentityOrSequenceInvalid | CiphertextNotHex | CiphertextTooLarge | AuthenticationFailed
  | ReceiveSequenceOverflow | DiscoveryInvalid

record peer_identity =
  id_secret :: bytes
  id_public :: bytes

record peer_public =
  pp_peer_id :: string
  pp_public_key :: string

record peer_session =
  local_peer_id :: string
  remote_peer_id :: string
  session_key :: bytes
  send_sequence :: nat
  receive_sequence :: nat

record encrypted_message =
  em_sender :: string
  em_recipient :: string
  em_sequence :: nat
  em_nonce :: string
  em_ciphertext :: string

definition as_bytes :: "string \<Rightarrow> bytes" where
  "as_bytes s = map of_char s"

definition to_le_bytes :: "nat \<Rightarrow> nat \<Rightarrow> bytes" where
  "to_le_bytes n v = map (\<lambda>i. of_nat (v div 256 ^ i)) [0 ..< n]"

definition peer_id :: "crypto \<Rightarrow> bytes \<Rightarrow> string" where
  "peer_id c public = hex_encode c (sha256 c public)"

definition decode_array :: "crypto \<Rightarrow> nat \<Rightarrow> string \<Rightarrow> peer_error + bytes" where
  "decode_array c n s =
     and_then (ok_or (hex_decode c s) NotHexadecimal) (\<lambda>b.
     and_then (fail_if (length b \<noteq> n) WrongLength) (\<lambda>_. Inr b))"

text \<open>\<^verbatim>\<open>PeerIdentity::generate\<close> with its random secret as the argument.\<close>

definition identity_of :: "crypto \<Rightarrow> bytes \<Rightarrow> peer_identity" where
  "identity_of c secret = \<lparr>id_secret = secret, id_public = x25519 c secret (x25519_basepoint c)\<rparr>"

definition public_of :: "crypto \<Rightarrow> peer_identity \<Rightarrow> peer_public" where
  "public_of c i = \<lparr>pp_peer_id = peer_id c (id_public i), pp_public_key = hex_encode c (id_public i)\<rparr>"

definition validate_peer_public :: "crypto \<Rightarrow> peer_public \<Rightarrow> peer_error + unit" where
  "validate_peer_public c p =
     and_then (decode_array c 32 (pp_public_key p)) (\<lambda>public.
     fail_if (peer_id c public \<noteq> pp_peer_id p) PeerIdMismatch)"

definition session_of :: "crypto \<Rightarrow> peer_identity \<Rightarrow> peer_public \<Rightarrow> peer_error + peer_session" where
  "session_of c i remote =
     and_then (validate_peer_public c remote) (\<lambda>_.
     and_then (decode_array c 32 (pp_public_key remote)) (\<lambda>remote_public.
     let shared = x25519 c (id_secret i) remote_public in
     and_then (fail_if (shared = replicate 32 0) InvalidSharedSecret) (\<lambda>_.
     let peers = sort [id_public i, remote_public] in
     Inr \<lparr>local_peer_id = peer_id c (id_public i), remote_peer_id = pp_peer_id remote,
          session_key = sha256 c (as_bytes ''cartridge-peer-session-v1'' @ shared @ peers ! 0 @ peers ! 1),
          send_sequence = 0, receive_sequence = 0\<rparr>)))"

section \<open>Messages\<close>

definition message_aad :: "string \<Rightarrow> string \<Rightarrow> nat \<Rightarrow> bytes" where
  "message_aad sender recipient sequence =
     as_bytes sender @ [0] @ as_bytes recipient @ to_le_bytes 8 sequence"

definition seal ::
    "crypto \<Rightarrow> bytes \<Rightarrow> peer_session \<Rightarrow> bytes \<Rightarrow> (peer_error + encrypted_message) \<times> peer_session" where
  "seal c nonce s plaintext =
     (case
        and_then (fail_if (length plaintext > MAX_MESSAGE_BYTES) MessageTooLarge) (\<lambda>_.
        and_then (ok_or (aead_encrypt c (session_key s) nonce
            (message_aad (local_peer_id s) (remote_peer_id s) (send_sequence s)) plaintext)
          EncryptionFailed) (\<lambda>ciphertext.
        and_then (ok_or (checked_add 64 (send_sequence s) 1) SendSequenceOverflow) (\<lambda>next_sequence.
        Inr (\<lparr>em_sender = local_peer_id s, em_recipient = remote_peer_id s,
              em_sequence = send_sequence s, em_nonce = hex_encode c nonce,
              em_ciphertext = hex_encode c ciphertext\<rparr>, next_sequence)))) of
        Inl e \<Rightarrow> (Inl e, s)
      | Inr (message, next_sequence) \<Rightarrow> (Inr message, s\<lparr>send_sequence := next_sequence\<rparr>))"

definition open_message ::
    "crypto \<Rightarrow> peer_session \<Rightarrow> encrypted_message \<Rightarrow> (peer_error + bytes) \<times> peer_session" where
  "open_message c s m =
     (case
        and_then (fail_if (em_sender m \<noteq> remote_peer_id s \<or> em_recipient m \<noteq> local_peer_id s \<or>
            em_sequence m \<noteq> receive_sequence s) IdentityOrSequenceInvalid) (\<lambda>_.
        and_then (decode_array c 24 (em_nonce m)) (\<lambda>nonce.
        and_then (ok_or (hex_decode c (em_ciphertext m)) CiphertextNotHex) (\<lambda>ciphertext.
        and_then (fail_if (length ciphertext > MAX_MESSAGE_BYTES + 32) CiphertextTooLarge) (\<lambda>_.
        and_then (ok_or (aead_decrypt c (session_key s) nonce
            (message_aad (em_sender m) (em_recipient m) (em_sequence m)) ciphertext)
          AuthenticationFailed) (\<lambda>plaintext.
        and_then (ok_or (checked_add 64 (receive_sequence s) 1) ReceiveSequenceOverflow) (\<lambda>next_sequence.
        Inr (plaintext, next_sequence))))))) of
        Inl e \<Rightarrow> (Inl e, s)
      | Inr (plaintext, next_sequence) \<Rightarrow> (Inr plaintext, s\<lparr>receive_sequence := next_sequence\<rparr>))"

record discovery_record =
  dr_peer :: peer_public
  dr_route_token :: string
  dr_expires_at_ms :: nat

definition validate_discovery :: "crypto \<Rightarrow> discovery_record \<Rightarrow> nat \<Rightarrow> peer_error + unit" where
  "validate_discovery c d now_ms =
     and_then (validate_peer_public c (dr_peer d)) (\<lambda>_.
     fail_if (length (dr_route_token d) < 32 \<or> length (dr_route_token d) > 512 \<or>
       list_ex is_control (chars (dr_route_token d)) \<or> dr_expires_at_ms d \<le> now_ms) DiscoveryInvalid)"

section \<open>Key agreement\<close>

definition crypto_ok :: "crypto \<Rightarrow> bool" where
  "crypto_ok c \<longleftrightarrow>
     (\<forall>b. hex_decode c (hex_encode c b) = Some b) \<and>
     (\<forall>k n a m ct. aead_encrypt c k n a m = Some ct \<longrightarrow>
        aead_decrypt c k n a ct = Some m \<and> length ct = length m + 16) \<and>
     (\<forall>k n a m. length m \<le> MAX_MESSAGE_BYTES \<longrightarrow> aead_encrypt c k n a m \<noteq> None) \<and>
     (\<forall>a b. x25519 c a (x25519 c b (x25519_basepoint c)) = x25519 c b (x25519 c a (x25519_basepoint c)))"

lemma session_of_Inr:
  assumes "crypto_ok c" and "session_of c (identity_of c a) (public_of c (identity_of c b)) = Inr s"
  shows "s = \<lparr>local_peer_id = peer_id c (id_public (identity_of c a)),
      remote_peer_id = peer_id c (id_public (identity_of c b)),
      session_key = session_key s, send_sequence = 0, receive_sequence = 0\<rparr>"
    and "session_key s = sha256 c (as_bytes ''cartridge-peer-session-v1'' @
      x25519 c a (id_public (identity_of c b)) @
      sort [id_public (identity_of c a), id_public (identity_of c b)] ! 0 @
      sort [id_public (identity_of c a), id_public (identity_of c b)] ! 1)"
  using assms
  by (auto simp: session_of_def decode_array_def public_of_def crypto_ok_def identity_of_def
      result_simps Let_def)

lemma sort_pair: "sort [x, y] = sort [y, x :: 'a :: linorder]"
  by auto

lemma sessions_mirror:
  assumes "crypto_ok c"
    and "session_of c (identity_of c a) (public_of c (identity_of c b)) = Inr s"
    and "session_of c (identity_of c b) (public_of c (identity_of c a)) = Inr t"
  shows "local_peer_id s = remote_peer_id t \<and> remote_peer_id s = local_peer_id t \<and>
    session_key s = session_key t \<and> send_sequence s = 0 \<and> receive_sequence t = 0 \<and>
    receive_sequence s = 0 \<and> send_sequence t = 0"
proof -
  have "x25519 c a (id_public (identity_of c b)) = x25519 c b (id_public (identity_of c a))"
    using assms(1) by (simp add: crypto_ok_def identity_of_def)
  then have "session_key s = session_key t"
    unfolding session_of_Inr(2) [OF assms(1,2)] session_of_Inr(2) [OF assms(1,3)]
    by (simp only: sort_pair [of "id_public (identity_of c a)"])
  then show ?thesis
    using session_of_Inr(1) [OF assms(1,2)] session_of_Inr(1) [OF assms(1,3)]
    by (metis peer_session.select_convs)
qed

section \<open>Delivery\<close>

text \<open>A whole conversation in one direction: sealing a list of messages with their nonces, and
  opening a list of sealed messages, each stopping at the first failure.\<close>

fun seal_all ::
    "crypto \<Rightarrow> peer_session \<Rightarrow> (bytes \<times> bytes) list \<Rightarrow> (peer_error + encrypted_message list) \<times> peer_session" where
  "seal_all c s [] = (Inr [], s)"
| "seal_all c s ((nonce, p) # ps) =
     (case seal c nonce s p of
        (Inl e, s') \<Rightarrow> (Inl e, s')
      | (Inr m, s') \<Rightarrow>
          (case seal_all c s' ps of (r, s'') \<Rightarrow> (and_then r (\<lambda>ms. Inr (m # ms)), s'')))"

fun open_all ::
    "crypto \<Rightarrow> peer_session \<Rightarrow> encrypted_message list \<Rightarrow> (peer_error + bytes list) \<times> peer_session" where
  "open_all c s [] = (Inr [], s)"
| "open_all c s (m # ms) =
     (case open_message c s m of
        (Inl e, s') \<Rightarrow> (Inl e, s')
      | (Inr p, s') \<Rightarrow>
          (case open_all c s' ms of (r, s'') \<Rightarrow> (and_then r (\<lambda>ps. Inr (p # ps)), s'')))"

definition linked :: "peer_session \<Rightarrow> peer_session \<Rightarrow> bool" where
  "linked s t \<longleftrightarrow> local_peer_id s = remote_peer_id t \<and> remote_peer_id s = local_peer_id t \<and>
     session_key s = session_key t \<and> send_sequence s = receive_sequence t"

lemma seal_open:
  assumes "crypto_ok c" and "linked s t" and "length nonce = 24" and "length p \<le> MAX_MESSAGE_BYTES"
    and "send_sequence s + 1 < 2 ^ 64"
  obtains m where "seal c nonce s p = (Inr m, s\<lparr>send_sequence := send_sequence s + 1\<rparr>)"
    "open_message c t m = (Inr p, t\<lparr>receive_sequence := receive_sequence t + 1\<rparr>)"
proof -
  let ?aad = "message_aad (local_peer_id s) (remote_peer_id s) (send_sequence s)"
  obtain ct where ct: "aead_encrypt c (session_key s) nonce ?aad p = Some ct"
    using assms(1,4) by (fastforce simp: crypto_ok_def)
  have dec: "aead_decrypt c (session_key s) nonce ?aad ct = Some p" "length ct = length p + 16"
    using assms(1) ct by (auto simp: crypto_ok_def)
  have hex: "hex_decode c (hex_encode c b) = Some b" for b
    using assms(1) by (simp add: crypto_ok_def)
  let ?m = "\<lparr>em_sender = local_peer_id s, em_recipient = remote_peer_id s,
    em_sequence = send_sequence s, em_nonce = hex_encode c nonce, em_ciphertext = hex_encode c ct\<rparr>"
  show thesis
  proof (rule that)
    show "seal c nonce s p = (Inr ?m, s\<lparr>send_sequence := send_sequence s + 1\<rparr>)"
      using assms(4,5) ct by (simp add: seal_def checked_add_def)
    show "open_message c t ?m = (Inr p, t\<lparr>receive_sequence := receive_sequence t + 1\<rparr>)"
      using assms(2-5) dec by (simp add: open_message_def linked_def decode_array_def hex checked_add_def)
  qed
qed

lemma seal_open_all:
  assumes "crypto_ok c" and "linked s t"
    and "\<forall>(nonce, p) \<in> set ps. length nonce = 24 \<and> length p \<le> MAX_MESSAGE_BYTES"
    and "send_sequence s + length ps < 2 ^ 64"
  shows "\<exists>ms s' t'. seal_all c s ps = (Inr ms, s') \<and> open_all c t ms = (Inr (map snd ps), t') \<and> linked s' t'"
  using assms
proof (induction ps arbitrary: s t)
  case Nil
  then show ?case by simp
next
  case (Cons np ps)
  obtain nonce p where np: "np = (nonce, p)" by (cases np)
  have ok: "length nonce = 24" "length p \<le> MAX_MESSAGE_BYTES" "send_sequence s + 1 < 2 ^ 64"
    using Cons.prems(3,4) np by auto
  let ?s = "s\<lparr>send_sequence := send_sequence s + 1\<rparr>"
  let ?t = "t\<lparr>receive_sequence := receive_sequence t + 1\<rparr>"
  obtain m where m: "seal c nonce s p = (Inr m, ?s)" "open_message c t m = (Inr p, ?t)"
    using seal_open [OF Cons.prems(1,2) ok] by blast
  have "linked ?s ?t" using Cons.prems(2) by (simp add: linked_def)
  then obtain ms s' t' where "seal_all c ?s ps = (Inr ms, s')"
    "open_all c ?t ms = (Inr (map snd ps), t')" "linked s' t'"
    using Cons.IH [OF Cons.prems(1), of ?s ?t] Cons.prems(3,4) by auto
  with m np show ?case by auto
qed

text \<open>C23: sessions deliver.  When two peers open a session towards each other, every sequence of
  messages within the size limit that one of them seals, with whatever 24-byte nonces, is opened
  by the other in the same order and with the same contents.\<close>

theorem peer_sessions_deliver:
  assumes "crypto_ok c"
    and "session_of c (identity_of c a) (public_of c (identity_of c b)) = Inr s"
    and "session_of c (identity_of c b) (public_of c (identity_of c a)) = Inr t"
    and "\<forall>(nonce, p) \<in> set ps. length nonce = 24 \<and> length p \<le> MAX_MESSAGE_BYTES"
    and "length ps < 2 ^ 64"
  shows "\<exists>ms. fst (seal_all c s ps) = Inr ms \<and> fst (open_all c t ms) = Inr (map snd ps)"
proof -
  have "linked s t" "send_sequence s = 0"
    using sessions_mirror [OF assms(1-3)] by (simp_all add: linked_def)
  with seal_open_all [OF assms(1) _ assms(4), of s t] assms(5) show ?thesis by force
qed

definition demo_crypto :: crypto where
  "demo_crypto = \<lparr>sha256 = (\<lambda>_. replicate 32 7), hex_encode = map (\<lambda>w. char_of (unat w)),
     hex_decode = (\<lambda>s. Some (map of_char s)), x25519 = (\<lambda>_ _. replicate 32 1),
     x25519_basepoint = replicate 32 9,
     aead_encrypt = (\<lambda>_ _ _ m. Some (m @ replicate 16 0)),
     aead_decrypt = (\<lambda>_ _ _ ct. Some (take (length ct - 16) ct))\<rparr>"

lemma of_char_of_nat: "n < 256 \<Longrightarrow> of_char (char_of n) = (of_nat n :: 8 word)"
proof -
  assume n: "n < 256"
  have "(of_char (char_of n) :: 8 word) = of_nat (of_char (char_of n) :: nat)"
    by (simp only: of_nat_of_char)
  also have "\<dots> = of_nat n" using n by (simp only: of_char_of mod_less)
  finally show ?thesis .
qed

lemma of_char_of_byte: "of_char (char_of (unat (w :: 8 word))) = w"
  using of_char_of_nat [of "unat w"] unsigned_less [of w] by simp

lemma demo_crypto_ok: "crypto_ok demo_crypto"
  by (simp add: crypto_ok_def demo_crypto_def comp_def of_char_of_byte)

definition demo_session :: peer_session where
  "demo_session = \<lparr>local_peer_id = hex_encode demo_crypto (replicate 32 7),
     remote_peer_id = hex_encode demo_crypto (replicate 32 7), session_key = replicate 32 7,
     send_sequence = 0, receive_sequence = 0\<rparr>"

lemma demo_session_of:
  "session_of demo_crypto (identity_of demo_crypto [1]) (public_of demo_crypto (identity_of demo_crypto [2]))
     = Inr demo_session"
  "session_of demo_crypto (identity_of demo_crypto [2]) (public_of demo_crypto (identity_of demo_crypto [1]))
     = Inr demo_session"
  by (simp_all add: session_of_def demo_crypto_def demo_session_def identity_of_def public_of_def
      validate_peer_public_def decode_array_def peer_id_def comp_def of_char_of_byte Let_def)

theorem peer_sessions_deliver_witness:
  "\<exists>ms. fst (seal_all demo_crypto demo_session [(replicate 24 0, [1, 2]), (replicate 24 1, [3])]) = Inr ms \<and>
     fst (open_all demo_crypto demo_session ms) = Inr [[1, 2], [3]]"
  using peer_sessions_deliver [OF demo_crypto_ok demo_session_of,
      of "[(replicate 24 0, [1, 2]), (replicate 24 1, [3])]"]
  by (simp add: MAX_MESSAGE_BYTES_def)

section \<open>Replay protection\<close>

text \<open>Any use of a session: sealing or opening, whatever the outcome.\<close>

inductive session_step :: "crypto \<Rightarrow> peer_session \<Rightarrow> peer_session \<Rightarrow> bool" for c where
  seal: "session_step c s (snd (seal c nonce s p))"
| open_message: "session_step c s (snd (open_message c s m))"

lemma open_message_Inr:
  "open_message c s m = (Inr p, s') \<Longrightarrow>
     em_sequence m = receive_sequence s \<and> receive_sequence s' = receive_sequence s + 1"
  by (auto simp: open_message_def result_simps split: sum.splits)

lemma session_step_receive: "session_step c s s' \<Longrightarrow> receive_sequence s \<le> receive_sequence s'"
  by (erule session_step.cases)
    (auto simp: seal_def open_message_def result_simps split: sum.splits)

lemma session_run_receive: "(session_step c)\<^sup>*\<^sup>* s s' \<Longrightarrow> receive_sequence s \<le> receive_sequence s'"
  by (induction rule: rtranclp_induct) (auto dest: session_step_receive)

text \<open>No replay.  A message that a session has opened is refused for good: after any further
  sealing and opening in that session, opening it again fails on its sequence number.\<close>

theorem peer_message_opens_once:
  assumes "open_message c s m = (Inr p, s1)" and "(session_step c)\<^sup>*\<^sup>* s1 s2"
  shows "open_message c s2 m = (Inl IdentityOrSequenceInvalid, s2)"
proof -
  have "em_sequence m < receive_sequence s2"
    using open_message_Inr [OF assms(1)] session_run_receive [OF assms(2)] by simp
  then show ?thesis by (simp add: open_message_def)
qed

definition demo_message :: encrypted_message where
  "demo_message = \<lparr>em_sender = remote_peer_id demo_session, em_recipient = local_peer_id demo_session,
     em_sequence = 0, em_nonce = hex_encode demo_crypto (replicate 24 0),
     em_ciphertext = hex_encode demo_crypto (5 # replicate 16 0)\<rparr>"

theorem peer_message_opens_once_witness:
  "open_message demo_crypto demo_session demo_message = (Inr [5], demo_session\<lparr>receive_sequence := 1\<rparr>) \<and>
   fst (open_message demo_crypto (demo_session\<lparr>receive_sequence := 1\<rparr>) demo_message)
     = Inl IdentityOrSequenceInvalid"
proof -
  have o: "open_message demo_crypto demo_session demo_message = (Inr [5], demo_session\<lparr>receive_sequence := 1\<rparr>)"
    by (simp add: open_message_def demo_message_def demo_session_def demo_crypto_def decode_array_def
        comp_def of_char_of_byte MAX_MESSAGE_BYTES_def checked_add_def
        of_char_of_nat)
  show ?thesis using o peer_message_opens_once [OF o rtranclp.rtrancl_refl] by simp
qed

end
