(* ===== verification/Network_Flow.thy ===== *)
theory Network_Flow
  imports Network_Peer "HOL-Library.Multiset"
begin

text \<open>
  The transport helpers of \<^verbatim>\<open>crates/cartridge-network/src/lib.rs\<close>: the bounded message channel,
  asset transfer in chunks, the rollback window that filters datagrams, and the reproducible
  network simulation.

  Shown here: a channel is a first-in first-out queue within its quotas whose byte counter is
  exact; assembling the chunks of an asset gives the asset back, and whatever is assembled has
  the announced identity; a datagram is accepted at most once; the simulation loses, delays and
  reorders packets but never alters, duplicates or invents one.
\<close>

section \<open>Message channels\<close>

definition MAX_CHANNEL_MESSAGES :: nat where "MAX_CHANNEL_MESSAGES = 4096"
definition MAX_ASSET_BYTES :: nat where "MAX_ASSET_BYTES = 128 * 1024 * 1024"
definition ASSET_CHUNK_BYTES :: nat where "ASSET_CHUNK_BYTES = 64 * 1024"
definition MAX_SIMULATED_PACKETS :: nat where "MAX_SIMULATED_PACKETS = 100000"
definition MAX_ROLLBACK_DATAGRAMS :: nat where "MAX_ROLLBACK_DATAGRAMS = 65536"

datatype flow_error =
    ChannelLimitsInvalid | ChannelQuotaExceeded
  | AssetTooLarge | AssetChunkInvalid | AssetIdentityInvalid
  | SimulationLimitsInvalid | SimulatedPacketCount | SimulatedPacketTooLarge
  | RollbackWindowInvalid | DatagramTooLarge | RollbackWindowFull

record message_channel =
  ch_queue :: "bytes list"
  ch_max_messages :: nat
  ch_max_bytes :: nat
  ch_bytes :: nat

definition channel_new :: "nat \<Rightarrow> nat \<Rightarrow> flow_error + message_channel" where
  "channel_new max_messages max_bytes =
     and_then (fail_if (max_messages = 0 \<or> max_messages > MAX_CHANNEL_MESSAGES \<or>
         max_bytes = 0 \<or> max_bytes > MAX_ASSET_BYTES) ChannelLimitsInvalid) (\<lambda>_.
     Inr \<lparr>ch_queue = [], ch_max_messages = max_messages, ch_max_bytes = max_bytes, ch_bytes = 0\<rparr>)"

definition channel_send :: "message_channel \<Rightarrow> bytes \<Rightarrow> flow_error + message_channel" where
  "channel_send ch val =
     and_then (fail_if (length val > MAX_MESSAGE_BYTES \<or> length (ch_queue ch) \<ge> ch_max_messages ch \<or>
         saturating_add 64 (ch_bytes ch) (length val) > ch_max_bytes ch) ChannelQuotaExceeded) (\<lambda>_.
     Inr (ch\<lparr>ch_bytes := wrapping_add 64 (ch_bytes ch) (length val), ch_queue := ch_queue ch @ [val]\<rparr>))"

definition channel_receive :: "message_channel \<Rightarrow> (bytes \<times> message_channel) option" where
  "channel_receive ch =
     (case ch_queue ch of
        [] \<Rightarrow> None
      | val # rest \<Rightarrow>
          Some (val, ch\<lparr>ch_queue := rest, ch_bytes := wrapping_sub 64 (ch_bytes ch) (length val)\<rparr>))"

section \<open>Asset transfer\<close>

record asset_chunk =
  ac_asset_sha256 :: string
  ac_offset :: nat
  ac_total_bytes :: nat
  ac_bytes :: bytes
  ac_chunk_sha256 :: string

text \<open>\<^verbatim>\<open>slice::chunks(n)\<close> for a positive \<open>n\<close>.\<close>

function chunks :: "nat \<Rightarrow> 'a list \<Rightarrow> 'a list list" where
  "chunks n xs = (if n = 0 \<or> xs = [] then [] else take n xs # chunks n (drop n xs))"
  by pat_completeness auto
termination by (relation "measure (\<lambda>(n, xs). length xs)") auto

declare chunks.simps [simp del]

definition split_asset :: "(bytes \<Rightarrow> string) \<Rightarrow> bytes \<Rightarrow> flow_error + asset_chunk list" where
  "split_asset sha256hex bs =
     and_then (fail_if (length bs > MAX_ASSET_BYTES) AssetTooLarge) (\<lambda>_.
     let asset_sha256 = sha256hex bs in
     Inr (map (\<lambda>(index, chunk). \<lparr>ac_asset_sha256 = asset_sha256, ac_offset = index * ASSET_CHUNK_BYTES,
         ac_total_bytes = length bs, ac_bytes = chunk, ac_chunk_sha256 = sha256hex chunk\<rparr>)
       (enumerate 0 (chunks ASSET_CHUNK_BYTES bs))))"

definition assemble_chunk ::
    "(bytes \<Rightarrow> string) \<Rightarrow> string \<Rightarrow> nat \<Rightarrow> bytes \<times> nat \<Rightarrow> asset_chunk \<Rightarrow> flow_error + (bytes \<times> nat)" where
  "assemble_chunk sha256hex expected nbytes acc chunk =
     (case acc of (output, offset) \<Rightarrow>
      and_then (fail_if (ac_asset_sha256 chunk \<noteq> expected \<or> ac_total_bytes chunk \<noteq> nbytes \<or>
          ac_offset chunk \<noteq> offset \<or> length (ac_bytes chunk) > ASSET_CHUNK_BYTES \<or>
          sha256hex (ac_bytes chunk) \<noteq> ac_chunk_sha256 chunk) AssetChunkInvalid) (\<lambda>_.
      Inr (output @ ac_bytes chunk, offset + length (ac_bytes chunk))))"

definition assemble_asset :: "(bytes \<Rightarrow> string) \<Rightarrow> asset_chunk list \<Rightarrow> flow_error + bytes" where
  "assemble_asset sha256hex cs =
     (case cs of
        [] \<Rightarrow> Inr []
      | c0 # _ \<Rightarrow>
          let expected = ac_asset_sha256 c0; nbytes = ac_total_bytes c0 in
          and_then (fail_if (nbytes > MAX_ASSET_BYTES) AssetTooLarge) (\<lambda>_.
          and_then (try_fold (assemble_chunk sha256hex expected nbytes) ([], 0) cs) (\<lambda>(output, offset).
          and_then (fail_if (length output \<noteq> nbytes \<or> sha256hex output \<noteq> expected) AssetIdentityInvalid) (\<lambda>_.
          Inr output))))"

section \<open>Rollback window\<close>

record rollback_datagram =
  rd_tick :: nat
  rd_sequence :: nat
  rd_payload :: bytes

record rollback_window =
  newest_tick :: nat
  max_rollback_ticks :: nat
  rw_seen :: "(nat \<times> nat) set"

definition rollback_new :: "nat \<Rightarrow> flow_error + rollback_window" where
  "rollback_new ticks =
     and_then (fail_if (ticks = 0 \<or> ticks > 10000) RollbackWindowInvalid) (\<lambda>_.
     Inr \<lparr>newest_tick = 0, max_rollback_ticks = ticks, rw_seen = {}\<rparr>)"

definition rollback_accept ::
    "rollback_window \<Rightarrow> rollback_datagram \<Rightarrow> (flow_error + bool) \<times> rollback_window" where
  "rollback_accept w d =
     (if length (rd_payload d) > MAX_MESSAGE_BYTES then (Inl DatagramTooLarge, w)
      else if saturating_add 64 (rd_tick d) (max_rollback_ticks w) < newest_tick w then (Inr False, w)
      else
        let newest = max (newest_tick w) (rd_tick d);
            oldest = newest - max_rollback_ticks w;
            retained = {e \<in> rw_seen w. fst e \<ge> oldest};
            w' = w\<lparr>newest_tick := newest, rw_seen := retained\<rparr>
        in if card retained \<ge> MAX_ROLLBACK_DATAGRAMS then (Inl RollbackWindowFull, w')
           else (Inr ((rd_tick d, rd_sequence d) \<notin> retained),
                 w'\<lparr>rw_seen := insert (rd_tick d, rd_sequence d) retained\<rparr>))"

section \<open>Simulation\<close>

record simulation_config =
  base_latency_ms :: nat
  jitter_ms :: nat
  loss_per_million :: nat
  reorder_per_million :: nat
  seed :: nat

record simulated_packet =
  sp_sequence :: nat
  deliver_at_ms :: nat
  sp_payload :: bytes

definition random_u32 :: "nat \<Rightarrow> nat \<times> nat" where
  "random_u32 state =
     (let state' = (state * 6364136223846793005 + 1442695040888963407) mod 2 ^ 64
      in (state' div 2 ^ 32, state'))"

text \<open>One packet: lost, or delivered with a delay drawn from the generator.\<close>

definition simulate_packet ::
    "simulation_config \<Rightarrow> nat \<Rightarrow> nat \<Rightarrow> bytes \<Rightarrow> simulated_packet option \<times> nat" where
  "simulate_packet cfg state sequence payload =
     (let (r1, state1) = random_u32 state in
      if r1 mod 1000000 < loss_per_million cfg then (None, state1)
      else
        let spread = saturating_add 32 (saturating_mul 32 (jitter_ms cfg) 2) 1;
            (jitter, state2) = (if spread = 0 then (0, state1)
              else (let (r2, s2) = random_u32 state1 in (r2 mod spread, s2)));
            latency = saturating_add 32 (base_latency_ms cfg) jitter - jitter_ms cfg;
            (r3, state3) = random_u32 state2;
            reorder = (r3 mod 1000000 < reorder_per_million cfg);
            adjustment = (if reorder then min (base_latency_ms cfg) 10 else 0)
        in (Some \<lparr>sp_sequence = sequence, deliver_at_ms = latency - adjustment, sp_payload = payload\<rparr>,
            state3))"

fun simulate_packets ::
    "simulation_config \<Rightarrow> nat \<Rightarrow> simulated_packet list \<Rightarrow> (nat \<times> bytes) list
      \<Rightarrow> flow_error + simulated_packet list" where
  "simulate_packets cfg state out [] = Inr out"
| "simulate_packets cfg state out ((sequence, payload) # packets) =
     (if length out \<ge> MAX_SIMULATED_PACKETS then Inl SimulatedPacketCount
      else if length payload > MAX_MESSAGE_BYTES then Inl SimulatedPacketTooLarge
      else
        (case simulate_packet cfg state sequence payload of
           (None, state') \<Rightarrow> simulate_packets cfg state' out packets
         | (Some packet, state') \<Rightarrow> simulate_packets cfg state' (out @ [packet]) packets))"

definition simulate ::
    "simulation_config \<Rightarrow> (nat \<times> bytes) list \<Rightarrow> flow_error + simulated_packet list" where
  "simulate cfg packets =
     and_then (fail_if (base_latency_ms cfg > 60000 \<or> jitter_ms cfg > 60000 \<or>
         loss_per_million cfg > 1000000 \<or> reorder_per_million cfg > 1000000) SimulationLimitsInvalid) (\<lambda>_.
     and_then (simulate_packets cfg (seed cfg) [] packets) (\<lambda>out.
     Inr (sort_key (\<lambda>p. (deliver_at_ms p, sp_sequence p)) out)))"

section \<open>Channels are queues\<close>

text \<open>The contract of a bounded queue, and what a client of it may conclude about a whole run:
  what comes out, followed by what is still queued, is what was queued, followed by what was
  accepted.\<close>

datatype 'm queue_call = Send 'm | Receive

locale bounded_queue =
  fixes wf :: "'q \<Rightarrow> bool"
    and contents :: "'q \<Rightarrow> 'm list"
    and send :: "'q \<Rightarrow> 'm \<Rightarrow> 'e + 'q"
    and receive :: "'q \<Rightarrow> ('m \<times> 'q) option"
  assumes send_wf: "wf q \<Longrightarrow> send q m = Inr q' \<Longrightarrow> wf q' \<and> contents q' = contents q @ [m]"
    and receive_None: "wf q \<Longrightarrow> receive q = None \<longleftrightarrow> contents q = []"
    and receive_Some: "wf q \<Longrightarrow> receive q = Some (m, q') \<Longrightarrow> wf q' \<and> contents q = m # contents q'"
begin

primrec run :: "'m queue_call list \<Rightarrow> 'q \<Rightarrow> 'm list \<times> 'm list \<times> 'q" where
  "run [] q = ([], [], q)"
| "run (c # cs) q =
     (case c of
        Send m \<Rightarrow>
          (case send q m of
             Inl _ \<Rightarrow> run cs q
           | Inr q' \<Rightarrow> (case run cs q' of (ins, outs, q'') \<Rightarrow> (m # ins, outs, q'')))
      | Receive \<Rightarrow>
          (case receive q of
             None \<Rightarrow> run cs q
           | Some (m, q') \<Rightarrow> (case run cs q' of (ins, outs, q'') \<Rightarrow> (ins, m # outs, q''))))"

lemma run_fifo:
  assumes "wf q" and "run cs q = (ins, outs, q')"
  shows "wf q' \<and> outs @ contents q' = contents q @ ins"
  using assms
proof (induction cs arbitrary: q ins outs)
  case (Cons c cs)
  show ?case
  proof (cases c)
    case (Send m)
    show ?thesis
    proof (cases "send q m")
      case (Inr q1)
      obtain ins1 where "run cs q1 = (ins1, outs, q')" "ins = m # ins1"
        using Cons.prems(2) Send Inr by (auto split: prod.splits)
      with Cons.IH send_wf [OF Cons.prems(1) Inr] show ?thesis by fastforce
    qed (use Cons Send in auto)
  next
    case Receive
    show ?thesis
    proof (cases "receive q")
      case (Some mq)
      obtain m q1 where "mq = (m, q1)" by (cases mq)
      moreover obtain outs1 where "run cs q1 = (ins, outs1, q')" "outs = m # outs1"
        using Cons.prems(2) Receive Some calculation by (auto split: prod.splits)
      ultimately show ?thesis
        using Cons.IH [of q1 ins outs1] receive_Some [OF Cons.prems(1), of m q1] Some by auto
    qed (use Cons Receive in auto)
  qed
qed auto

end

definition channel_ok :: "message_channel \<Rightarrow> bool" where
  "channel_ok ch \<longleftrightarrow> ch_bytes ch = sum_list (map length (ch_queue ch)) \<and>
     ch_bytes ch \<le> ch_max_bytes ch \<and> length (ch_queue ch) \<le> ch_max_messages ch \<and>
     ch_max_bytes ch \<le> MAX_ASSET_BYTES"

lemma channel_send_ok:
  "channel_ok ch \<Longrightarrow> channel_send ch m = Inr ch' \<Longrightarrow>
     channel_ok ch' \<and> ch_queue ch' = ch_queue ch @ [m]"
  by (auto simp: channel_send_def channel_ok_def result_simps saturating_add_def MAX_ASSET_BYTES_def)

lemma channel_receive_ok:
  assumes "channel_ok ch" and "channel_receive ch = Some (m, ch')"
  shows "channel_ok ch' \<and> ch_queue ch = m # ch_queue ch'"
proof -
  obtain rest where q: "ch_queue ch = m # rest"
    and ch': "ch' = ch\<lparr>ch_queue := rest, ch_bytes := wrapping_sub 64 (ch_bytes ch) (length m)\<rparr>"
    using assms(2) by (auto simp: channel_receive_def split: list.splits)
  have "ch_bytes ch < 2 ^ 64" using assms(1) by (simp add: channel_ok_def MAX_ASSET_BYTES_def)
  then have "wrapping_sub 64 (ch_bytes ch) (length m) = ch_bytes ch - length m"
    using assms(1) q by (intro wrapping_sub_small) (auto simp: channel_ok_def)
  with assms(1) q ch' show ?thesis by (auto simp: channel_ok_def)
qed

interpretation channel: bounded_queue channel_ok ch_queue channel_send channel_receive
proof
  fix q q' :: message_channel and m
  assume ok: "channel_ok q"
  show "channel_ok q' \<and> ch_queue q' = ch_queue q @ [m]" if "channel_send q m = Inr q'"
    using channel_send_ok [OF ok that] .
  show "channel_receive q = None \<longleftrightarrow> ch_queue q = []"
    by (simp add: channel_receive_def split: list.split)
  show "channel_ok q' \<and> ch_queue q = m # ch_queue q'" if "channel_receive q = Some (m, q')"
    using channel_receive_ok [OF ok that] .
qed

text \<open>C25: a message channel is a first-in first-out queue within its quotas.  After any sequence
  of sends and receives on a new channel, the messages received so far followed by the messages
  still queued are exactly the accepted messages in their order, and what is queued respects both
  the message and the byte quota.\<close>

theorem message_channel_fifo:
  assumes "channel_new mm mb = Inr ch" and "channel.run calls ch = (ins, outs, ch')"
  shows "outs @ ch_queue ch' = ins \<and> length (ch_queue ch') \<le> ch_max_messages ch' \<and>
    sum_list (map length (ch_queue ch')) \<le> ch_max_bytes ch' \<and>
    ch_bytes ch' = sum_list (map length (ch_queue ch'))"
proof -
  have "channel_ok ch" "ch_queue ch = []"
    using assms(1) by (auto simp: channel_new_def channel_ok_def result_simps)
  with channel.run_fifo [OF _ assms(2)] show ?thesis by (auto simp: channel_ok_def)
qed

theorem message_channel_fifo_witness:
  "\<exists>ch ch'. channel_new 2 8 = Inr ch \<and>
     channel.run [Send [1], Send [2, 3], Send [4], Receive] ch = ([[1], [2, 3]], [[1]], ch') \<and>
     [[1]] @ ch_queue ch' = [[1], [2, 3]]"
proof -
  let ?ch = "\<lparr>ch_queue = [], ch_max_messages = 2, ch_max_bytes = 8, ch_bytes = 0\<rparr>"
  let ?ch' = "\<lparr>ch_queue = [[2, 3 :: 8 word]], ch_max_messages = 2, ch_max_bytes = 8, ch_bytes = 2\<rparr>"
  have n: "channel_new 2 8 = Inr ?ch"
    by (simp add: channel_new_def MAX_CHANNEL_MESSAGES_def MAX_ASSET_BYTES_def)
  have r: "channel.run [Send [1], Send [2, 3], Send [4], Receive] ?ch = ([[1], [2, 3]], [[1]], ?ch')"
    by (simp add: channel_send_def channel_receive_def MAX_MESSAGE_BYTES_def saturating_add_def
        wrapping_add_def wrapping_sub_def)
  show ?thesis using n r message_channel_fifo [OF n r] by blast
qed

section \<open>Assets survive the transfer\<close>

lemma chunks_Nil [simp]: "chunks n [] = []"
  by (simp add: chunks.simps)

lemma chunks_Cons: "0 < n \<Longrightarrow> xs \<noteq> [] \<Longrightarrow> chunks n xs = take n xs # chunks n (drop n xs)"
  by (simp add: chunks.simps [of n xs])

definition chunk_at :: "(bytes \<Rightarrow> string) \<Rightarrow> string \<Rightarrow> nat \<Rightarrow> nat \<times> bytes \<Rightarrow> asset_chunk" where
  "chunk_at sha256hex asset_sha256 nbytes ic = \<lparr>ac_asset_sha256 = asset_sha256,
     ac_offset = fst ic * ASSET_CHUNK_BYTES, ac_total_bytes = nbytes, ac_bytes = snd ic,
     ac_chunk_sha256 = sha256hex (snd ic)\<rparr>"

lemma split_asset_chunk_at:
  "split_asset h bs = and_then (fail_if (length bs > MAX_ASSET_BYTES) AssetTooLarge) (\<lambda>_.
     Inr (map (chunk_at h (h bs) (length bs)) (enumerate 0 (chunks ASSET_CHUNK_BYTES bs))))"
proof -
  have "(\<lambda>(index, chunk). \<lparr>ac_asset_sha256 = h bs, ac_offset = index * ASSET_CHUNK_BYTES,
      ac_total_bytes = length bs, ac_bytes = chunk, ac_chunk_sha256 = h chunk\<rparr>)
    = chunk_at h (h bs) (length bs)"
    by (auto simp: chunk_at_def fun_eq_iff)
  then show ?thesis by (simp add: split_asset_def Let_def)
qed

lemma assemble_chunks:
  "try_fold (assemble_chunk h expected nbytes) (out, k * ASSET_CHUNK_BYTES)
     (map (chunk_at h expected nbytes) (enumerate k (chunks ASSET_CHUNK_BYTES bs)))
   = Inr (out @ bs, k * ASSET_CHUNK_BYTES + length bs)"
proof (induction "length bs" arbitrary: bs out k rule: less_induct)
  case less
  have pos: "0 < ASSET_CHUNK_BYTES" by (simp add: ASSET_CHUNK_BYTES_def)
  show ?case
  proof (cases "bs = []")
    case False
    let ?t = "take ASSET_CHUNK_BYTES bs" and ?d = "drop ASSET_CHUNK_BYTES bs"
    have step: "assemble_chunk h expected nbytes (out, k * ASSET_CHUNK_BYTES)
        (chunk_at h expected nbytes (k, ?t)) = Inr (out @ ?t, k * ASSET_CHUNK_BYTES + length ?t)"
      by (simp add: assemble_chunk_def chunk_at_def)
    have unfold: "try_fold (assemble_chunk h expected nbytes) (out, k * ASSET_CHUNK_BYTES)
        (map (chunk_at h expected nbytes) (enumerate k (chunks ASSET_CHUNK_BYTES bs)))
      = try_fold (assemble_chunk h expected nbytes) (out @ ?t, k * ASSET_CHUNK_BYTES + length ?t)
          (map (chunk_at h expected nbytes) (enumerate (Suc k) (chunks ASSET_CHUNK_BYTES ?d)))"
      unfolding chunks_Cons [OF pos False] enumerate_simps list.map try_fold.simps step and_then_simps ..
    show ?thesis
    proof (cases "?d = []")
      case True
      then show ?thesis unfolding unfold by simp
    next
      case rest: False
      then have len: "k * ASSET_CHUNK_BYTES + length ?t = Suc k * ASSET_CHUNK_BYTES" by simp
      have "length ?d < length bs" using False pos by simp
      from less [OF this, of "out @ ?t" "Suc k"] show ?thesis
        unfolding unfold len using rest by simp
    qed
  qed simp
qed

text \<open>C24: splitting and assembling are inverse.  For every asset within the transfer limit, and
  whatever the hash function, the chunks of \<^verbatim>\<open>split_asset\<close> are accepted by \<^verbatim>\<open>assemble_asset\<close> and
  give the asset back.\<close>

theorem asset_round_trip:
  assumes "length bs \<le> MAX_ASSET_BYTES"
  shows "and_then (split_asset sha256hex bs) (assemble_asset sha256hex) = Inr bs"
proof (cases "bs = []")
  case False
  have pos: "0 < ASSET_CHUNK_BYTES" by (simp add: ASSET_CHUNK_BYTES_def)
  let ?cs = "map (chunk_at sha256hex (sha256hex bs) (length bs)) (enumerate 0 (chunks ASSET_CHUNK_BYTES bs))"
  have "?cs \<noteq> []" using False pos by (simp add: chunks_Cons)
  then obtain c0 cs' where cs: "?cs = c0 # cs'" by (cases ?cs) auto
  have c0: "ac_asset_sha256 c0 = sha256hex bs" "ac_total_bytes c0 = length bs"
    using cs False pos by (auto simp: chunks_Cons chunk_at_def)
  have "try_fold (assemble_chunk sha256hex (sha256hex bs) (length bs)) ([], 0) (c0 # cs')
      = Inr (bs, length bs)"
    using assemble_chunks [of sha256hex "sha256hex bs" "length bs" "[]" 0 bs] unfolding cs by simp
  then have "assemble_asset sha256hex (c0 # cs') = Inr bs"
    unfolding assemble_asset_def list.case Let_def c0 using assms by (simp del: try_fold.simps)
  then show ?thesis using assms cs by (simp add: split_asset_chunk_at)
qed (simp add: split_asset_chunk_at assemble_asset_def)

theorem asset_round_trip_witness:
  "and_then (split_asset (\<lambda>b. replicate (length b) CHR ''x'') [1, 2, 3])
     (assemble_asset (\<lambda>b. replicate (length b) CHR ''x'')) = Inr [1, 2, 3]"
  by (rule asset_round_trip) (simp add: MAX_ASSET_BYTES_def)

lemma assemble_chunk_Inr:
  "assemble_chunk h expected nbytes (out, off) c = Inr acc \<longleftrightarrow>
     ac_asset_sha256 c = expected \<and> ac_total_bytes c = nbytes \<and> ac_offset c = off \<and>
     length (ac_bytes c) \<le> ASSET_CHUNK_BYTES \<and> h (ac_bytes c) = ac_chunk_sha256 c \<and>
     acc = (out @ ac_bytes c, off + length (ac_bytes c))"
  by (auto simp: assemble_chunk_def result_simps)

lemma assemble_fold_Inr:
  "try_fold (assemble_chunk h expected nbytes) (out, off) cs = Inr (out', off') \<Longrightarrow>
     out' = out @ concat (map ac_bytes cs) \<and>
     (\<forall>c \<in> set cs. ac_asset_sha256 c = expected \<and> ac_total_bytes c = nbytes \<and>
        h (ac_bytes c) = ac_chunk_sha256 c)"
proof (induction cs arbitrary: out off)
  case (Cons c cs)
  from Cons.prems have "try_fold (assemble_chunk h expected nbytes) (out @ ac_bytes c, off + length (ac_bytes c)) cs
      = Inr (out', off')"
    "ac_asset_sha256 c = expected" "ac_total_bytes c = nbytes" "h (ac_bytes c) = ac_chunk_sha256 c"
    by (auto simp: result_simps assemble_chunk_Inr)
  with Cons.IH [of "out @ ac_bytes c"] show ?case by simp
qed simp

text \<open>Assembling checks what it returns.  Whatever chunks arrive, a successful assembly is
  their concatenation, has the announced length, hashes to the identity every chunk announces,
  and every chunk hashes to its own digest.\<close>

theorem assemble_asset_verified:
  assumes "assemble_asset sha256hex cs = Inr out"
  shows "out = concat (map ac_bytes cs) \<and> (\<forall>c \<in> set cs. sha256hex out = ac_asset_sha256 c \<and>
    length out = ac_total_bytes c \<and> sha256hex (ac_bytes c) = ac_chunk_sha256 c)"
proof (cases cs)
  case Nil
  with assms show ?thesis by (simp add: assemble_asset_def)
next
  case (Cons c0 cs')
  obtain off where f: "try_fold (assemble_chunk sha256hex (ac_asset_sha256 c0) (ac_total_bytes c0)) ([], 0) cs
      = Inr (out, off)"
    and o: "length out = ac_total_bytes c0" "sha256hex out = ac_asset_sha256 c0"
    using assms Cons by (auto simp: assemble_asset_def Let_def result_simps simp del: try_fold.simps)
  show ?thesis using assemble_fold_Inr [OF f] o by auto
qed

theorem assemble_asset_verified_witness:
  "length ([1, 2] :: bytes) = 2 \<and>
   assemble_asset (\<lambda>_. ''xx'') [\<lparr>ac_asset_sha256 = ''xx'', ac_offset = 0,
     ac_total_bytes = 2, ac_bytes = [1, 2], ac_chunk_sha256 = ''xx''\<rparr>] = Inr [1, 2]"
proof -
  have a: "assemble_asset (\<lambda>_. ''xx'') [\<lparr>ac_asset_sha256 = ''xx'', ac_offset = 0,
     ac_total_bytes = 2, ac_bytes = [1, 2], ac_chunk_sha256 = ''xx''\<rparr>] = Inr [1, 2]"
    by (simp add: assemble_asset_def assemble_chunk_def MAX_ASSET_BYTES_def ASSET_CHUNK_BYTES_def)
  show ?thesis using a assemble_asset_verified [OF a] by simp
qed

section \<open>Datagrams are accepted once\<close>

primrec accept_all ::
    "rollback_window \<Rightarrow> rollback_datagram list \<Rightarrow> (flow_error + bool) list" where
  "accept_all w [] = []"
| "accept_all w (d # ds) = fst (rollback_accept w d) # accept_all (snd (rollback_accept w d)) ds"

text \<open>A datagram identity is spent when it is in the window or has fallen out of it.\<close>

definition spent :: "rollback_window \<Rightarrow> nat \<times> nat \<Rightarrow> bool" where
  "spent w e \<longleftrightarrow> e \<in> rw_seen w \<or> fst e + max_rollback_ticks w < newest_tick w"

definition window_ok :: "rollback_window \<Rightarrow> bool" where
  "window_ok w \<longleftrightarrow> newest_tick w < 2 ^ 64"

lemma accept_window_ok:
  "window_ok w \<Longrightarrow> rd_tick d < 2 ^ 64 \<Longrightarrow> window_ok (snd (rollback_accept w d))"
  by (simp add: rollback_accept_def window_ok_def Let_def)

lemma accept_keeps_spent: "spent w e \<Longrightarrow> spent (snd (rollback_accept w d)) e"
  by (auto simp: rollback_accept_def spent_def Let_def)

lemma accept_spends:
  "fst (rollback_accept w d) = Inr True \<Longrightarrow> spent (snd (rollback_accept w d)) (rd_tick d, rd_sequence d)"
  by (auto simp: rollback_accept_def spent_def Let_def split: if_splits)

lemma spent_refused:
  assumes "window_ok w" and "spent w (rd_tick d, rd_sequence d)"
  shows "fst (rollback_accept w d) \<noteq> Inr True"
proof (cases "rd_tick d + max_rollback_ticks w < newest_tick w")
  case True
  then have "saturating_add 64 (rd_tick d) (max_rollback_ticks w) < newest_tick w"
    using assms(1) by (simp add: saturating_add_def window_ok_def)
  then show ?thesis by (simp add: rollback_accept_def)
next
  case False
  then have "(rd_tick d, rd_sequence d) \<in> rw_seen w" using assms(2) by (simp add: spent_def)
  with False show ?thesis by (auto simp: rollback_accept_def Let_def split: if_splits)
qed

lemma accept_all_spent:
  "window_ok w \<Longrightarrow> spent w e \<Longrightarrow> \<forall>d \<in> set ds. rd_tick d < 2 ^ 64 \<Longrightarrow> j < length ds \<Longrightarrow>
     (rd_tick (ds ! j), rd_sequence (ds ! j)) = e \<Longrightarrow> accept_all w ds ! j \<noteq> Inr True"
proof (induction ds arbitrary: w j)
  case (Cons d ds)
  show ?case
  proof (cases j)
    case 0
    then show ?thesis using Cons.prems spent_refused [of w d] by auto
  next
    case (Suc i)
    then show ?thesis
      using Cons.IH [OF accept_window_ok accept_keeps_spent, of w d i] Cons.prems by auto
  qed
qed simp

text \<open>C12: the rollback window accepts a datagram at most once.  In whatever order datagrams
  arrive, and although old identities are forgotten, no two arrivals with the same tick and
  sequence number are both reported as new.\<close>

theorem rollback_accepts_once:
  assumes "window_ok w" and "\<forall>d \<in> set ds. rd_tick d < 2 ^ 64" and "i < j" and "j < length ds"
    and "rd_tick (ds ! i) = rd_tick (ds ! j)" and "rd_sequence (ds ! i) = rd_sequence (ds ! j)"
    and "accept_all w ds ! i = Inr True"
  shows "accept_all w ds ! j \<noteq> Inr True"
  using assms
proof (induction ds arbitrary: w i j)
  case (Cons d ds)
  obtain k where j: "j = Suc k" using Cons.prems(3) by (cases j) auto
  show ?case
  proof (cases i)
    case 0
    then have "fst (rollback_accept w d) = Inr True" using Cons.prems(7) by simp
    from accept_spends [OF this] show ?thesis
      using accept_all_spent [OF accept_window_ok, of w d _ ds k] Cons.prems 0 j by auto
  next
    case (Suc l)
    then show ?thesis
      using Cons.IH [OF accept_window_ok, of w d l k] Cons.prems j by auto
  qed
qed simp

theorem rollback_accepts_once_witness:
  "accept_all \<lparr>newest_tick = 0, max_rollback_ticks = 2, rw_seen = {}\<rparr>
     [\<lparr>rd_tick = 1, rd_sequence = 0, rd_payload = []\<rparr>, \<lparr>rd_tick = 9, rd_sequence = 0, rd_payload = []\<rparr>,
      \<lparr>rd_tick = 1, rd_sequence = 0, rd_payload = []\<rparr>] ! 2 \<noteq> Inr True"
  by (rule rollback_accepts_once [of _ _ 0])
    (simp_all add: window_ok_def rollback_accept_def saturating_add_def MAX_MESSAGE_BYTES_def
      MAX_ROLLBACK_DATAGRAMS_def)

section \<open>The simulation is honest\<close>

definition packet_of :: "simulated_packet \<Rightarrow> nat \<times> bytes" where
  "packet_of p = (sp_sequence p, sp_payload p)"

lemma simulate_packet_Some:
  assumes "simulate_packet cfg state sequence payload = (Some p, state')"
    and "base_latency_ms cfg \<le> 60000" and "jitter_ms cfg \<le> 60000"
  shows "packet_of p = (sequence, payload) \<and> deliver_at_ms p \<le> base_latency_ms cfg + jitter_ms cfg"
proof -
  have spread: "saturating_add 32 (saturating_mul 32 (jitter_ms cfg) 2) 1 = Suc (2 * jitter_ms cfg)"
    using assms(3) by (simp add: saturating_add_def saturating_mul_def)
  have draw: "r mod Suc (2 * jitter_ms cfg) \<le> 2 * jitter_ms cfg" for r
    by (metis less_Suc_eq_le mod_less_divisor zero_less_Suc)
  have late: "saturating_add 32 (base_latency_ms cfg) (r mod Suc (2 * jitter_ms cfg)) - jitter_ms cfg
      \<le> base_latency_ms cfg + jitter_ms cfg" for r
  proof -
    have "saturating_add 32 (base_latency_ms cfg) (r mod Suc (2 * jitter_ms cfg))
        \<le> base_latency_ms cfg + r mod Suc (2 * jitter_ms cfg)"
      unfolding saturating_add_def by (rule min.cobounded1)
    with draw [of r] show ?thesis by linarith
  qed
  then have "saturating_add 32 (base_latency_ms cfg) (r mod Suc (2 * jitter_ms cfg)) - jitter_ms cfg - d
      \<le> base_latency_ms cfg + jitter_ms cfg" for r d
    by (meson diff_le_self order_trans)
  with assms(1) late show ?thesis
    unfolding simulate_packet_def Let_def spread
    by (auto simp: packet_of_def split: prod.splits if_splits simp del: diff_diff_left)
qed

lemma simulate_packet_None:
  "simulate_packet cfg state sequence payload = (None, state') \<Longrightarrow> loss_per_million cfg \<noteq> 0"
  by (auto simp: simulate_packet_def Let_def split: prod.splits if_splits)

lemma simulate_packets_Inr:
  assumes "simulate_packets cfg state out ps = Inr out'"
    and "base_latency_ms cfg \<le> 60000" and "jitter_ms cfg \<le> 60000"
  shows "\<exists>new. out' = out @ new \<and> mset (map packet_of new) \<subseteq># mset ps \<and>
    (loss_per_million cfg = 0 \<longrightarrow> map packet_of new = ps) \<and>
    (\<forall>p \<in> set new. deliver_at_ms p \<le> base_latency_ms cfg + jitter_ms cfg)"
  using assms(1)
proof (induction ps arbitrary: state out)
  case (Cons sp ps)
  obtain sequence payload where sp: "sp = (sequence, payload)" by (cases sp)
  obtain r state1 where r: "simulate_packet cfg state sequence payload = (r, state1)"
    by (cases "simulate_packet cfg state sequence payload")
  show ?case
  proof (cases r)
    case None
    then obtain new where "out' = out @ new" "mset (map packet_of new) \<subseteq># mset ps"
      "\<forall>p \<in> set new. deliver_at_ms p \<le> base_latency_ms cfg + jitter_ms cfg"
      using Cons.IH [of state1 out] Cons.prems r sp by (auto split: if_splits)
    then show ?thesis
      using simulate_packet_None [of cfg state sequence payload state1] r None
      by (intro exI [of _ new]) (auto intro: subset_mset.order_trans)
  next
    case (Some p)
    then obtain new where "out' = (out @ [p]) @ new" "mset (map packet_of new) \<subseteq># mset ps"
      "loss_per_million cfg = 0 \<longrightarrow> map packet_of new = ps"
      "\<forall>p \<in> set new. deliver_at_ms p \<le> base_latency_ms cfg + jitter_ms cfg"
      using Cons.IH [of state1 "out @ [p]"] Cons.prems r sp by (auto split: if_splits)
    then show ?thesis
      using simulate_packet_Some [OF r [unfolded Some] assms(2,3)] sp
      by (intro exI [of _ "p # new"]) auto
  qed
qed simp

text \<open>The simulated network only loses, delays and reorders.  What it delivers is sorted by
  delivery time and sequence number, each delivery is one of the packets handed in with its
  payload unchanged and none is delivered more often than it was handed in, no delay exceeds
  base latency plus jitter, and with a loss rate of zero every packet arrives.\<close>

theorem simulate_honest:
  assumes "simulate cfg packets = Inr out"
  shows "sorted (map (\<lambda>p. (deliver_at_ms p, sp_sequence p)) out) \<and>
    mset (map packet_of out) \<subseteq># mset packets \<and>
    (loss_per_million cfg = 0 \<longrightarrow> mset (map packet_of out) = mset packets) \<and>
    (\<forall>p \<in> set out. deliver_at_ms p \<le> base_latency_ms cfg + jitter_ms cfg)"
proof -
  obtain raw where raw: "simulate_packets cfg (seed cfg) [] packets = Inr raw"
    and lim: "base_latency_ms cfg \<le> 60000" "jitter_ms cfg \<le> 60000"
    and out: "out = sort_key (\<lambda>p. (deliver_at_ms p, sp_sequence p)) raw"
    using assms by (auto simp: simulate_def result_simps)
  have "mset (map packet_of out) = mset (map packet_of raw)" "set out = set raw"
    by (simp_all add: out)
  moreover have "sorted (map (\<lambda>p. (deliver_at_ms p, sp_sequence p)) out)"
    by (simp add: out)
  ultimately show ?thesis
    using simulate_packets_Inr [OF raw lim] by auto
qed

theorem simulate_honest_witness:
  "\<exists>out. simulate \<lparr>base_latency_ms = 5, jitter_ms = 1, loss_per_million = 0, reorder_per_million = 0,
       seed = 1\<rparr> [(2, [8]), (1, [9])] = Inr out \<and> mset (map packet_of out) = {#(2, [8]), (1, [9])#}"
proof -
  let ?cfg = "\<lparr>base_latency_ms = 5, jitter_ms = 1, loss_per_million = 0, reorder_per_million = 0, seed = 1\<rparr>"
  have "\<exists>out. simulate_packets cfg state [] [(2, [8]), (1, [9])] = Inr out" for cfg state
    by (auto simp: MAX_SIMULATED_PACKETS_def MAX_MESSAGE_BYTES_def split: prod.split option.split)
  then have "\<exists>out. simulate ?cfg [(2, [8]), (1, [9])] = Inr out"
    by (auto simp: simulate_def result_simps simp del: simulate_packets.simps)
  then obtain out where "simulate ?cfg [(2, [8]), (1, [9])] = Inr out" ..
  with simulate_honest [OF this] show ?thesis by auto
qed

end
