(* ===== verification/Network_Document.thy ===== *)
theory Network_Document
  imports Ordered_Map Network_Peer
begin

text \<open>
  Shared documents of \<^verbatim>\<open>crates/cartridge-network/src/lib.rs\<close>: last-writer-wins maps that replicas
  edit offline and merge.  The identity of an operation is the hash of its serialisation; both
  are third-party code and arguments here (\<open>to_vec\<close>, \<open>sha256hex\<close>).

  Shown here: the byte counter is exact and within the quota; replicas that applied the same set
  of operations, in any order and with repetitions, hold the same document, and two replicas
  that merge each other agree, provided that operations on one key have distinct stamps
  (\<^verbatim>\<open>clock\<close>, \<^verbatim>\<open>peer_id\<close>) and that operation identities do not collide.  The first proviso is
  needed: the code accepts two operations with equal stamps and different values, and then
  the result depends on the order of arrival.
\<close>

definition MAX_DOCUMENT_OPERATIONS :: nat where "MAX_DOCUMENT_OPERATIONS = 100000"
definition MAX_DOCUMENT_BYTES :: nat where "MAX_DOCUMENT_BYTES = 16 * 1024 * 1024"

datatype document_error =
    TokenInvalid | AnotherDocument | ValueOverLimit | OperationLimit | ByteCountOverflow
  | ByteQuotaExceeded | DifferentDocuments | OperationNotSerializable

record document_operation =
  op_document_id :: string
  op_key :: string
  op_value :: "bytes option"
  op_clock :: nat
  op_peer_id :: string

record shared_document =
  doc_id :: string
  doc_entries :: "(string, document_operation) btree"
  doc_seen :: "string set"
  doc_bytes :: nat

definition validate_token :: "string \<Rightarrow> nat \<Rightarrow> document_error + unit" where
  "validate_token s maximum =
     fail_if (s = [] \<or> length s > maximum \<or> list_ex is_control (chars s)) TokenInvalid"

definition validate_operation :: "document_operation \<Rightarrow> string \<Rightarrow> document_error + unit" where
  "validate_operation oper document =
     and_then (fail_if (op_document_id oper \<noteq> document) AnotherDocument) (\<lambda>_.
     and_then (validate_token (op_key oper) 1024) (\<lambda>_.
     and_then (validate_token (op_peer_id oper) 128) (\<lambda>_.
     fail_if (case op_value oper of None \<Rightarrow> False | Some b \<Rightarrow> length b > MAX_MESSAGE_BYTES)
       ValueOverLimit)))"

definition operation_id ::
    "(document_operation \<Rightarrow> bytes option) \<Rightarrow> (bytes \<Rightarrow> string) \<Rightarrow> document_operation
      \<Rightarrow> document_error + string" where
  "operation_id to_vec sha256hex oper =
     and_then (ok_or (to_vec oper) OperationNotSerializable) (\<lambda>b. Inr (sha256hex b))"

definition document_new :: "string \<Rightarrow> document_error + shared_document" where
  "document_new name =
     and_then (validate_token name 128) (\<lambda>_.
     Inr \<lparr>doc_id = name, doc_entries = [], doc_seen = {}, doc_bytes = 0\<rparr>)"

definition stamp :: "document_operation \<Rightarrow> nat \<times> string" where
  "stamp oper = (op_clock oper, op_peer_id oper)"

definition op_bytes :: "document_operation \<Rightarrow> nat" where
  "op_bytes oper = (case op_value oper of None \<Rightarrow> 0 | Some b \<Rightarrow> length b)"

text \<open>\<^verbatim>\<open>SharedDocument::apply\<close>; it changes the document only on its success paths.\<close>

definition document_apply ::
    "(document_operation \<Rightarrow> bytes option) \<Rightarrow> (bytes \<Rightarrow> string) \<Rightarrow> shared_document
      \<Rightarrow> document_operation \<Rightarrow> document_error + (bool \<times> shared_document)" where
  "document_apply to_vec sha256hex d oper =
     and_then (validate_operation oper (doc_id d)) (\<lambda>_.
     and_then (operation_id to_vec sha256hex oper) (\<lambda>identity.
     if identity \<in> doc_seen d then Inr (False, d)
     else
       and_then (fail_if (card (doc_seen d) \<ge> MAX_DOCUMENT_OPERATIONS) OperationLimit) (\<lambda>_.
       let replace = (case bt_get (doc_entries d) (op_key oper) of
             None \<Rightarrow> True | Some current \<Rightarrow> stamp oper > stamp current) in
       if replace then
         let old = (case bt_get (doc_entries d) (op_key oper) of None \<Rightarrow> 0 | Some current \<Rightarrow> op_bytes current);
             new = op_bytes oper in
         and_then (ok_or (checked_add 64 (doc_bytes d - old) new) ByteCountOverflow) (\<lambda>next_bytes.
         and_then (fail_if (next_bytes > MAX_DOCUMENT_BYTES) ByteQuotaExceeded) (\<lambda>_.
         Inr (True, d\<lparr>doc_bytes := next_bytes, doc_entries := bt_insert (op_key oper) oper (doc_entries d),
                      doc_seen := insert identity (doc_seen d)\<rparr>)))
       else Inr (False, d\<lparr>doc_seen := insert identity (doc_seen d)\<rparr>))))"

text \<open>Applying operations one after the other until one fails.\<close>

fun document_apply_all ::
    "(document_operation \<Rightarrow> bytes option) \<Rightarrow> (bytes \<Rightarrow> string) \<Rightarrow> shared_document
      \<Rightarrow> document_operation list \<Rightarrow> (document_error + unit) \<times> shared_document" where
  "document_apply_all to_vec sha256hex d [] = (Inr (), d)"
| "document_apply_all to_vec sha256hex d (x # xs) =
     (case document_apply to_vec sha256hex d x of
        Inl e \<Rightarrow> (Inl e, d)
      | Inr (_, d') \<Rightarrow> document_apply_all to_vec sha256hex d' xs)"

definition document_merge ::
    "(document_operation \<Rightarrow> bytes option) \<Rightarrow> (bytes \<Rightarrow> string) \<Rightarrow> shared_document
      \<Rightarrow> shared_document \<Rightarrow> (document_error + unit) \<times> shared_document" where
  "document_merge to_vec sha256hex d other =
     (if doc_id d \<noteq> doc_id other then (Inl DifferentDocuments, d)
      else document_apply_all to_vec sha256hex d (map snd (doc_entries other)))"

definition document_get :: "shared_document \<Rightarrow> string \<Rightarrow> bytes option" where
  "document_get d key = Option.bind (bt_get (doc_entries d) key) op_value"

section \<open>What a document represents\<close>

text \<open>A set of operations whose stamps are distinct per key and whose identities are distinct.\<close>

definition distinguishable ::
    "(document_operation \<Rightarrow> bytes option) \<Rightarrow> (bytes \<Rightarrow> string) \<Rightarrow> document_operation set \<Rightarrow> bool" where
  "distinguishable to_vec sha256hex A \<longleftrightarrow>
     (\<forall>x \<in> A. \<forall>y \<in> A. op_key x = op_key y \<and> stamp x = stamp y \<longrightarrow> x = y) \<and>
     inj_on (operation_id to_vec sha256hex) A"

definition document_ok :: "shared_document \<Rightarrow> bool" where
  "document_ok d \<longleftrightarrow> bt_ok (doc_entries d) \<and>
     doc_bytes d = sum_list (map (\<lambda>e. op_bytes (snd e)) (doc_entries d)) \<and>
     doc_bytes d \<le> MAX_DOCUMENT_BYTES"

text \<open>\<open>represents to_vec sha256hex d A\<close>: the document holds, for every key, an operation of
  \<open>A\<close> with the largest stamp for that key, and has seen only operations of \<open>A\<close>.\<close>

definition represents ::
    "(document_operation \<Rightarrow> bytes option) \<Rightarrow> (bytes \<Rightarrow> string) \<Rightarrow> shared_document
      \<Rightarrow> document_operation set \<Rightarrow> bool" where
  "represents to_vec sha256hex d A \<longleftrightarrow> document_ok d \<and>
     (\<forall>k w. bt_get (doc_entries d) k = Some w \<longrightarrow> w \<in> A \<and> op_key w = k) \<and>
     (\<forall>x \<in> A. \<exists>w. bt_get (doc_entries d) (op_key x) = Some w \<and> stamp x \<le> stamp w) \<and>
     (\<forall>i \<in> doc_seen d. \<exists>x \<in> A. operation_id to_vec sha256hex x = Inr i)"

lemma represents_new: "document_new name = Inr d \<Longrightarrow> represents t h d {}"
  by (auto simp: document_new_def represents_def document_ok_def result_simps)

lemma represents_entry:
  "represents t h d A \<Longrightarrow> bt_get (doc_entries d) k = Some w \<Longrightarrow> w \<in> A \<and> op_key w = k"
  by (simp add: represents_def)

lemma represents_winner:
  "represents t h d A \<Longrightarrow> x \<in> A \<Longrightarrow> \<exists>w. bt_get (doc_entries d) (op_key x) = Some w \<and> stamp x \<le> stamp w"
  by (simp add: represents_def)

lemma represents_entries:
  assumes "represents t h d A" and "represents t h d' A" and "distinguishable t h A"
  shows "doc_entries d = doc_entries d' \<and> doc_bytes d = doc_bytes d'"
proof -
  have sub: "bt_get (doc_entries y) k = Some w"
    if x: "represents t h x A" and y: "represents t h y A" and k: "bt_get (doc_entries x) k = Some w"
    for x y k w
  proof -
    have w: "w \<in> A" "op_key w = k" using represents_entry [OF x k] by simp_all
    obtain v where v: "bt_get (doc_entries y) k = Some v" "stamp w \<le> stamp v"
      using represents_winner [OF y w(1)] w(2) by blast
    have v': "v \<in> A" "op_key v = k" using represents_entry [OF y v(1)] by simp_all
    have "stamp v \<le> stamp w" using represents_winner [OF x v'(1)] v'(2) k by auto
    then have "v = w" using v v' w assms(3) by (auto simp: distinguishable_def)
    with v(1) show ?thesis by simp
  qed
  have "bt_get (doc_entries d) k = bt_get (doc_entries d') k" for k
    using sub [OF assms(1,2), of k] sub [OF assms(2,1), of k]
    by (cases "bt_get (doc_entries d) k"; cases "bt_get (doc_entries d') k") auto
  then have "doc_entries d = doc_entries d'"
    using assms(1,2) by (intro bt_ext) (auto simp: represents_def document_ok_def)
  then show ?thesis using assms(1,2) by (simp add: represents_def document_ok_def)
qed

lemma apply_ok:
  assumes "document_ok d" and "document_apply t h d x = Inr (b, d')"
  shows "document_ok d'"
proof -
  let ?old = "case bt_get (doc_entries d) (op_key x) of None \<Rightarrow> 0 | Some c \<Rightarrow> op_bytes c"
  have ok: "bt_ok (doc_entries d)" using assms(1) by (simp add: document_ok_def)
  have ins: "sum_list (map (\<lambda>e. op_bytes (snd e)) (bt_insert (op_key x) x (doc_entries d))) + ?old
      = sum_list (map (\<lambda>e. op_bytes (snd e)) (doc_entries d)) + op_bytes x"
    using bt.weight_ins [OF ok, of op_bytes "op_key x" x] by (simp split: option.splits)
  have le: "?old \<le> sum_list (map (\<lambda>e. op_bytes (snd e)) (doc_entries d))"
    using bt.weight_get_le [OF ok, of "op_key x" _ op_bytes] by (simp split: option.splits)
  show ?thesis
    using assms ok ins le
    by (auto simp: document_apply_def document_ok_def result_simps Let_def split: if_splits)
qed

lemma apply_cases:
  assumes "document_apply t h d x = Inr (b, d')"
  obtains (seen) i where "operation_id t h x = Inr i" "i \<in> doc_seen d" "d' = d"
  | (newer) i where "operation_id t h x = Inr i" "doc_seen d' = insert i (doc_seen d)" "doc_id d' = doc_id d"
      "doc_entries d' = bt_insert (op_key x) x (doc_entries d)"
      "\<And>c. bt_get (doc_entries d) (op_key x) = Some c \<Longrightarrow> stamp x > stamp c"
  | (stale) i c where "operation_id t h x = Inr i" "doc_seen d' = insert i (doc_seen d)" "doc_id d' = doc_id d"
      "doc_entries d' = doc_entries d" "bt_get (doc_entries d) (op_key x) = Some c" "stamp x \<le> stamp c"
proof -
  obtain i where i: "operation_id t h x = Inr i"
    using assms by (auto simp: document_apply_def result_simps)
  show thesis
  proof (cases "i \<in> doc_seen d")
    case True
    then have "d' = d" using assms i by (simp add: document_apply_def result_simps)
    with i True show thesis by (rule seen)
  next
    case unseen: False
    show thesis
    proof (cases "case bt_get (doc_entries d) (op_key x) of None \<Rightarrow> True | Some c \<Rightarrow> stamp x > stamp c")
      case True
      then have "doc_seen d' = insert i (doc_seen d) \<and> doc_id d' = doc_id d \<and>
          doc_entries d' = bt_insert (op_key x) x (doc_entries d)"
        using assms i unseen by (auto simp: document_apply_def result_simps Let_def)
      with True show thesis by (intro newer [OF i]) auto
    next
      case False
      then obtain c where c: "bt_get (doc_entries d) (op_key x) = Some c" "stamp x \<le> stamp c"
        by (auto split: option.splits)
      have "doc_seen d' = insert i (doc_seen d) \<and> doc_id d' = doc_id d \<and> doc_entries d' = doc_entries d"
        using assms i unseen False by (auto simp: document_apply_def result_simps Let_def)
      with c show thesis by (intro stale [OF i]) auto
    qed
  qed
qed

lemma representsI:
  assumes "document_ok d"
    and "\<And>k w. bt_get (doc_entries d) k = Some w \<Longrightarrow> w \<in> A \<and> op_key w = k"
    and "\<And>x. x \<in> A \<Longrightarrow> \<exists>w. bt_get (doc_entries d) (op_key x) = Some w \<and> stamp x \<le> stamp w"
    and "\<And>i. i \<in> doc_seen d \<Longrightarrow> \<exists>x \<in> A. operation_id t h x = Inr i"
  shows "represents t h d A"
  using assms by (simp add: represents_def)

lemma represents_seen:
  "represents t h d A \<Longrightarrow> i \<in> doc_seen d \<Longrightarrow> \<exists>x \<in> A. operation_id t h x = Inr i"
  by (simp add: represents_def)

lemma represents_ok: "represents t h d A \<Longrightarrow> document_ok d \<and> bt_ok (doc_entries d)"
  by (simp add: represents_def document_ok_def)

lemma apply_represents:
  assumes r: "represents t h d A" and a: "document_apply t h d x = Inr (b, d')"
    and u: "distinguishable t h (insert x A)"
  shows "represents t h d' (insert x A) \<and> doc_id d' = doc_id d"
  using a
proof (cases rule: apply_cases)
  case (seen i)
  then obtain y where y: "y \<in> A" "operation_id t h y = Inr i" using represents_seen [OF r] by blast
  then have "y = x" using u seen(1) by (auto simp: distinguishable_def inj_on_def)
  then have "insert x A = A" using y(1) by auto
  then show ?thesis using r seen(3) by simp
next
  case (newer i)
  have get: "bt_get (doc_entries d') = (bt_get (doc_entries d))(op_key x \<mapsto> x)"
    using represents_ok [OF r] newer(4) by simp
  have "represents t h d' (insert x A)"
  proof (rule representsI)
    show "document_ok d'" using apply_ok [OF _ a] represents_ok [OF r] by simp
    show "w \<in> insert x A \<and> op_key w = k" if "bt_get (doc_entries d') k = Some w" for k w
      using that represents_entry [OF r, of k w] by (auto simp: get split: if_splits)
    show "\<exists>y \<in> insert x A. operation_id t h y = Inr j" if "j \<in> doc_seen d'" for j
      using that represents_seen [OF r, of j] newer(1,2) by auto
    show "\<exists>w. bt_get (doc_entries d') (op_key y) = Some w \<and> stamp y \<le> stamp w" if y: "y \<in> insert x A" for y
    proof (cases "y = x")
      case False
      then obtain w where w: "bt_get (doc_entries d) (op_key y) = Some w" "stamp y \<le> stamp w"
        using represents_winner [OF r, of y] y by auto
      then show ?thesis using newer(5) [of w] by (cases "op_key y = op_key x") (auto simp: get)
    qed (simp add: get)
  qed
  then show ?thesis using newer(3) by simp
next
  case (stale i c)
  have "represents t h d' (insert x A)"
  proof (rule representsI)
    show "document_ok d'" using apply_ok [OF _ a] represents_ok [OF r] by simp
    show "w \<in> insert x A \<and> op_key w = k" if "bt_get (doc_entries d') k = Some w" for k w
      using that represents_entry [OF r, of k w] stale(4) by auto
    show "\<exists>y \<in> insert x A. operation_id t h y = Inr j" if "j \<in> doc_seen d'" for j
      using that represents_seen [OF r, of j] stale(1,2) by auto
    show "\<exists>w. bt_get (doc_entries d') (op_key y) = Some w \<and> stamp y \<le> stamp w" if "y \<in> insert x A" for y
      using that represents_winner [OF r, of y] stale(4-6) by auto
  qed
  then show ?thesis using stale(3) by simp
qed

lemma distinguishable_mono: "distinguishable t h A \<Longrightarrow> B \<subseteq> A \<Longrightarrow> distinguishable t h B"
  by (auto simp: distinguishable_def intro: inj_on_subset)

lemma apply_all_represents:
  assumes "represents t h d A" and "document_apply_all t h d xs = (Inr (), d')"
    and "distinguishable t h (A \<union> set xs)"
  shows "represents t h d' (A \<union> set xs) \<and> doc_id d' = doc_id d"
  using assms
proof (induction xs arbitrary: d A)
  case (Cons x xs)
  obtain b d1 where x: "document_apply t h d x = Inr (b, d1)"
    and xs: "document_apply_all t h d1 xs = (Inr (), d')"
    using Cons.prems(2) by (auto split: sum.splits)
  have "represents t h d1 (insert x A) \<and> doc_id d1 = doc_id d"
    using apply_represents [OF Cons.prems(1) x] distinguishable_mono [OF Cons.prems(3)] by auto
  with Cons.IH [OF _ xs, of "insert x A"] Cons.prems(3) show ?case by simp
qed simp

lemma merge_represents:
  assumes "represents t h d A" and "represents t h e B" and "distinguishable t h (A \<union> B)"
    and "document_merge t h d e = (Inr (), d')"
  shows "represents t h d' (A \<union> B)"
proof -
  let ?W = "set (map snd (doc_entries e))"
  have run: "document_apply_all t h d (map snd (doc_entries e)) = (Inr (), d')"
    using assms(4) by (simp add: document_merge_def split: if_splits)
  have ok: "bt_ok (doc_entries e)" using assms(2) by (simp add: represents_def document_ok_def)
  have W: "w \<in> ?W \<longleftrightarrow> (\<exists>k. bt_get (doc_entries e) k = Some w)" for w
    using bt_get_in_set [OF ok] by force
  then have sub: "?W \<subseteq> B" using assms(2) by (auto simp: represents_def)
  have r: "represents t h d' (A \<union> ?W)"
    using apply_all_represents [OF assms(1) run] distinguishable_mono [OF assms(3)] sub by blast
  have "\<exists>w. bt_get (doc_entries d') (op_key x) = Some w \<and> stamp x \<le> stamp w" if "x \<in> B" for x
  proof -
    obtain v where v: "bt_get (doc_entries e) (op_key x) = Some v" "stamp x \<le> stamp v"
      using represents_winner [OF assms(2) \<open>x \<in> B\<close>] by blast
    then have "v \<in> A \<union> ?W" "op_key v = op_key x" using W represents_entry [OF assms(2) v(1)] by auto
    then obtain w where "bt_get (doc_entries d') (op_key x) = Some w" "stamp v \<le> stamp w"
      using represents_winner [OF r, of v] by auto
    with v(2) show ?thesis by (meson order_trans)
  qed
  with r sub show ?thesis unfolding represents_def by blast
qed

section \<open>Convergence\<close>

text \<open>A concrete hash and serialisation for the witnesses: the identity spells out clock, peer
  and value.\<close>

definition demo_vec :: "document_operation \<Rightarrow> bytes option" where
  "demo_vec x = Some (of_nat (op_clock x) # of_nat (length (op_peer_id x)) #
     (case op_value x of None \<Rightarrow> [] | Some b \<Rightarrow> b))"

definition demo_hex :: "bytes \<Rightarrow> string" where
  "demo_hex b = map (\<lambda>w. char_of (unat w)) b"

definition demo_op :: "nat \<Rightarrow> string \<Rightarrow> bytes \<Rightarrow> document_operation" where
  "demo_op clock peer val = \<lparr>op_document_id = ''n'', op_key = ''t'', op_value = Some val,
     op_clock = clock, op_peer_id = peer\<rparr>"

definition demo_doc :: shared_document where
  "demo_doc = \<lparr>doc_id = ''n'', doc_entries = [], doc_seen = {}, doc_bytes = 0\<rparr>"

lemma demo_doc_new: "document_new ''n'' = Inr demo_doc"
  by (simp add: document_new_def demo_doc_def validate_token_def is_control_def)

lemmas document_eval = document_apply_def validate_operation_def validate_token_def operation_id_def
  demo_vec_def demo_hex_def demo_op_def demo_doc_def stamp_def op_bytes_def bt_get_def is_control_def
  MAX_MESSAGE_BYTES_def MAX_DOCUMENT_OPERATIONS_def MAX_DOCUMENT_BYTES_def checked_add_def Let_def
  char_of_def bit_0

lemma demo_distinguishable:
  "distinguishable demo_vec demo_hex {demo_op 2 ''a'' [1], demo_op 3 ''a'' [2]}"
  by (simp add: distinguishable_def demo_op_def stamp_def inj_on_def operation_id_def demo_vec_def
      demo_hex_def char_of_def bit_0)

text \<open>Shared documents converge.  Two replicas of a document that accepted the same set of
  operations, each in its own order and with any repetitions, hold the same entries and the same
  byte count, provided operations on one key carry distinct stamps and identities do not
  collide.\<close>

theorem documents_converge:
  assumes "document_new name = Inr d"
    and "document_apply_all to_vec sha256hex d xs = (Inr (), d1)"
    and "document_apply_all to_vec sha256hex d ys = (Inr (), d2)"
    and "set xs = set ys" and "distinguishable to_vec sha256hex (set xs)"
  shows "doc_entries d1 = doc_entries d2 \<and> doc_bytes d1 = doc_bytes d2"
proof -
  have "represents to_vec sha256hex d1 (set xs)" "represents to_vec sha256hex d2 (set xs)"
    using apply_all_represents [OF represents_new [OF assms(1)] assms(2)]
      apply_all_represents [OF represents_new [OF assms(1)] assms(3)] assms(4,5) by simp_all
  then show ?thesis using assms(5) by (rule represents_entries)
qed

theorem documents_converge_witness:
  "doc_entries (snd (document_apply_all demo_vec demo_hex demo_doc [demo_op 2 ''a'' [1], demo_op 3 ''a'' [2]]))
   = doc_entries (snd (document_apply_all demo_vec demo_hex demo_doc [demo_op 3 ''a'' [2], demo_op 2 ''a'' [1]]))"
proof -
  let ?x = "demo_op 2 ''a'' [1]" and ?y = "demo_op 3 ''a'' [2]"
  have "fst (document_apply_all demo_vec demo_hex demo_doc [?x, ?y]) = Inr ()"
    "fst (document_apply_all demo_vec demo_hex demo_doc [?y, ?x]) = Inr ()"
    by (simp_all add: document_eval)
  then obtain d1 d2 where "document_apply_all demo_vec demo_hex demo_doc [?x, ?y] = (Inr (), d1)"
    "document_apply_all demo_vec demo_hex demo_doc [?y, ?x] = (Inr (), d2)"
    by (metis prod.collapse)
  moreover have "set [?x, ?y] = set [?y, ?x]" by auto
  ultimately show ?thesis
    using documents_converge [OF demo_doc_new, of demo_vec demo_hex "[?x, ?y]" d1 "[?y, ?x]" d2]
      demo_distinguishable by (simp del: document_apply_all.simps)
qed

text \<open>C4: merging converges.  Two replicas of one document were edited independently.  If all the
  operations they accepted are distinguishable, that is, no two different operations on one key
  carry the same stamp (\<^verbatim>\<open>clock\<close>, \<^verbatim>\<open>peer_id\<close>) and no two have the same identity, and each then
  merges the other's document, both merges succeeding, they hold the same entries afterwards.
  The proviso on the stamps cannot be dropped: see the section on divergence.\<close>

theorem document_merge_converges:
  assumes "document_new name = Inr d"
    and "document_apply_all to_vec sha256hex d xs = (Inr (), left)"
    and "document_apply_all to_vec sha256hex d ys = (Inr (), right)"
    and "distinguishable to_vec sha256hex (set xs \<union> set ys)"
    and "document_merge to_vec sha256hex left right = (Inr (), left')"
    and "document_merge to_vec sha256hex right left = (Inr (), right')"
  shows "doc_entries left' = doc_entries right' \<and> document_get left' key = document_get right' key"
proof -
  have l: "represents to_vec sha256hex left (set xs)"
    using apply_all_represents [OF represents_new [OF assms(1)] assms(2)]
      distinguishable_mono [OF assms(4)] by simp
  have r: "represents to_vec sha256hex right (set ys)"
    using apply_all_represents [OF represents_new [OF assms(1)] assms(3)]
      distinguishable_mono [OF assms(4)] by simp
  have "represents to_vec sha256hex left' (set xs \<union> set ys)"
    by (rule merge_represents [OF l r assms(4,5)])
  moreover have "represents to_vec sha256hex right' (set xs \<union> set ys)"
    using merge_represents [OF r l _ assms(6)] assms(4) by (simp add: Un_commute)
  ultimately have "doc_entries left' = doc_entries right'"
    using represents_entries [OF _ _ assms(4)] by blast
  then show ?thesis by (simp add: document_get_def)
qed

theorem document_merge_converges_witness:
  "let l = snd (document_apply_all demo_vec demo_hex demo_doc [demo_op 2 ''a'' [1]]);
       r = snd (document_apply_all demo_vec demo_hex demo_doc [demo_op 3 ''a'' [2]])
   in document_get (snd (document_merge demo_vec demo_hex l r)) ''t''
      = document_get (snd (document_merge demo_vec demo_hex r l)) ''t''"
proof -
  let ?run = "document_apply_all demo_vec demo_hex demo_doc"
  let ?l = "snd (?run [demo_op 2 ''a'' [1]])" and ?r = "snd (?run [demo_op 3 ''a'' [2]])"
  have l: "?run [demo_op 2 ''a'' [1]] = (Inr (), ?l)" and r: "?run [demo_op 3 ''a'' [2]] = (Inr (), ?r)"
    by (simp_all add: document_eval)
  have ml: "document_merge demo_vec demo_hex ?l ?r = (Inr (), snd (document_merge demo_vec demo_hex ?l ?r))"
    and mr: "document_merge demo_vec demo_hex ?r ?l = (Inr (), snd (document_merge demo_vec demo_hex ?r ?l))"
    by (simp_all add: document_merge_def document_eval)
  have dis: "distinguishable demo_vec demo_hex (set [demo_op 2 ''a'' [1]] \<union> set [demo_op 3 ''a'' [2]])"
    using demo_distinguishable by (simp add: insert_commute)
  show ?thesis
    unfolding Let_def
    using document_merge_converges [OF demo_doc_new l r dis ml mr] by (rule conjunct2)
qed

section \<open>Divergence\<close>

text \<open>What accepted operations leave behind, whether or not they are distinguishable.\<close>

lemma apply_traces:
  assumes "document_apply t h d x = Inr (b, d')"
  shows "validate_operation x (doc_id d) = Inr () \<and> (\<exists>i. operation_id t h x = Inr i \<and> doc_seen d' = insert i (doc_seen d)) \<and>
    doc_id d' = doc_id d \<and> set (doc_entries d') \<subseteq> insert (op_key x, x) (set (doc_entries d)) \<and>
    (bt_ok (doc_entries d) \<longrightarrow> bt_ok (doc_entries d'))"
proof -
  have v: "validate_operation x (doc_id d) = Inr ()" using assms by (auto simp: document_apply_def result_simps)
  from assms show ?thesis
    by (cases rule: apply_cases) (use v in \<open>auto intro: bt_ok_insert dest: bt_insert_entries\<close>)
qed

lemma apply_all_Cons:
  "document_apply_all t h d (x # xs) = (Inr (), d') \<longleftrightarrow>
     (\<exists>b d1. document_apply t h d x = Inr (b, d1) \<and> document_apply_all t h d1 xs = (Inr (), d'))"
  by (auto split: sum.splits)

lemma apply_all_append:
  "document_apply_all t h d (xs @ ys) = (Inr (), d') \<longleftrightarrow>
     (\<exists>d1. document_apply_all t h d xs = (Inr (), d1) \<and> document_apply_all t h d1 ys = (Inr (), d'))"
  by (induction xs arbitrary: d) (auto simp: apply_all_Cons simp del: document_apply_all.simps(2))

lemma apply_all_traces:
  assumes "document_apply_all t h d xs = (Inr (), d')"
  shows "doc_id d' = doc_id d \<and> doc_seen d' = doc_seen d \<union> {i. \<exists>x \<in> set xs. operation_id t h x = Inr i} \<and>
    (\<forall>x \<in> set xs. validate_operation x (doc_id d) = Inr () \<and> (\<exists>i. operation_id t h x = Inr i)) \<and>
    set (doc_entries d') \<subseteq> (\<lambda>x. (op_key x, x)) ` set xs \<union> set (doc_entries d) \<and>
    (bt_ok (doc_entries d) \<longrightarrow> bt_ok (doc_entries d'))"
  using assms
proof (induction xs arbitrary: d)
  case (Cons x xs)
  then obtain b d1 where x: "document_apply t h d x = Inr (b, d1)" and xs: "document_apply_all t h d1 xs = (Inr (), d')"
    unfolding apply_all_Cons by blast
  from apply_traces [OF x] Cons.IH [OF xs] show ?case by auto
qed simp

lemma apply_all_seen:
  assumes "\<forall>x \<in> set xs. validate_operation x (doc_id d) = Inr () \<and> (\<exists>i \<in> doc_seen d. operation_id t h x = Inr i)"
  shows "document_apply_all t h d xs = (Inr (), d)"
  using assms by (induction xs) (auto simp: document_apply_def)

lemma merge_seen:
  assumes "document_new name = Inr d" and "document_apply_all t h d xs = (Inr (), left)"
    and "document_apply_all t h d ys = (Inr (), right)" and "set xs = set ys"
  shows "document_merge t h left right = (Inr (), left)"
proof -
  note l = apply_all_traces [OF assms(2)] and r = apply_all_traces [OF assms(3)]
  have d: "doc_entries d = []" using assms(1) by (auto simp: document_new_def result_simps)
  have "document_apply_all t h left (map snd (doc_entries right)) = (Inr (), left)"
    by (rule apply_all_seen) (use l r d assms(4) in fastforce)
  then show ?thesis using l r by (simp add: document_merge_def)
qed

lemma entry_kept:
  assumes "document_apply_all t h d xs = (Inr (), d')" and "bt_ok (doc_entries d)"
    and "bt_get (doc_entries d) k = Some x" and "\<forall>z \<in> set xs. op_key z = k \<longrightarrow> stamp z \<le> stamp x"
  shows "bt_get (doc_entries d') k = Some x"
  using assms
proof (induction xs arbitrary: d)
  case (Cons z xs)
  then obtain b d1 where z: "document_apply t h d z = Inr (b, d1)" and xs: "document_apply_all t h d1 xs = (Inr (), d')"
    unfolding apply_all_Cons by blast
  have "bt_get (doc_entries d1) k = Some x"
    using z by (cases rule: apply_cases) (use Cons.prems(2-4) in \<open>auto simp: not_le [symmetric]\<close>)
  moreover have "bt_ok (doc_entries d1)" using apply_traces [OF z] Cons.prems(2) by blast
  ultimately show ?case using Cons.IH [OF xs] Cons.prems(4) by simp
qed simp

text \<open>Of the operations with the largest stamp on a key the one that arrives first stays.\<close>

lemma first_arrival_stays:
  assumes "document_new name = Inr d" and "document_apply_all t h d (xs @ x # xs') = (Inr (), d')"
    and "inj_on (operation_id t h) (set (xs @ x # xs'))" and "x \<notin> set xs"
    and "\<forall>z \<in> set xs. op_key z = op_key x \<longrightarrow> stamp z < stamp x"
    and "\<forall>z \<in> set xs'. op_key z = op_key x \<longrightarrow> stamp z \<le> stamp x"
  shows "bt_get (doc_entries d') (op_key x) = Some x"
proof -
  obtain d1 b d2 where a: "document_apply_all t h d xs = (Inr (), d1)" "document_apply t h d1 x = Inr (b, d2)"
    "document_apply_all t h d2 xs' = (Inr (), d')"
    using assms(2) unfolding apply_all_append apply_all_Cons by blast
  have d: "doc_entries d = []" "doc_seen d = {}" using assms(1) by (auto simp: document_new_def result_simps)
  note tr = apply_all_traces [OF a(1)]
  have ok: "bt_ok (doc_entries d1)" using tr d by simp
  have "bt_get (doc_entries d2) (op_key x) = Some x" using a(2)
  proof (cases rule: apply_cases)
    case (seen i)
    then obtain z where "z \<in> set xs" "operation_id t h z = Inr i" using tr d by auto
    with seen(1) assms(3,4) show ?thesis by (auto simp: inj_on_def)
  next
    case (newer i)
    then show ?thesis using ok by simp
  next
    case (stale i c)
    then have "(op_key x, c) \<in> set (doc_entries d1)" using bt_get_in_set [OF ok] by blast
    then have "c \<in> set xs \<and> op_key c = op_key x" using tr d by auto
    with stale(6) assms(5) show ?thesis by auto
  qed
  with entry_kept [OF a(3)] ok apply_traces [OF a(2)] assms(6) show ?thesis by blast
qed

text \<open>C27: equal stamps break convergence.  Let \<open>x\<close> and \<open>y\<close> be operations on one key with the same
  stamp and different values, newer than every other operation on that key.  Two replicas accept
  the same operations, identities not colliding; \<open>x\<close> reaches the left one before \<open>y\<close>, and \<open>y\<close>
  reaches the right one before \<open>x\<close>.  Then the left one shows the value of \<open>x\<close> and the right one
  that of \<open>y\<close>, and merging each other succeeds and changes neither.\<close>

theorem equal_stamps_diverge:
  assumes "document_new name = Inr d" and "set (xs @ x # xs') = set (ys @ y # ys')"
    and "document_apply_all to_vec sha256hex d (xs @ x # xs') = (Inr (), left)"
    and "document_apply_all to_vec sha256hex d (ys @ y # ys') = (Inr (), right)"
    and "{x, y} \<inter> set xs = {}" and "{x, y} \<inter> set ys = {}"
    and "op_key x = op_key y" and "stamp x = stamp y" and "op_value x \<noteq> op_value y"
    and "\<forall>z \<in> set (xs @ x # xs') - {x, y}. op_key z = op_key x \<longrightarrow> stamp z < stamp x"
    and "inj_on (operation_id to_vec sha256hex) (set (xs @ x # xs'))"
  shows "document_get left (op_key x) = op_value x \<and> document_get right (op_key x) = op_value y \<and>
    document_get left (op_key x) \<noteq> document_get right (op_key x) \<and>
    document_merge to_vec sha256hex left right = (Inr (), left) \<and>
    document_merge to_vec sha256hex right left = (Inr (), right)"
proof -
  have "bt_get (doc_entries left) (op_key x) = Some x"
    by (rule first_arrival_stays [OF assms(1,3,11)]) (use assms(5,7,8,10) in auto)
  moreover have "bt_get (doc_entries right) (op_key y) = Some y"
    by (rule first_arrival_stays [OF assms(1,4)]) (use assms(2,6,7,8,10,11) in auto)
  ultimately show ?thesis
    using merge_seen [OF assms(1,3,4,2)] merge_seen [OF assms(1,4,3) assms(2) [symmetric]] assms(7,9)
    by (simp add: document_get_def)
qed

theorem equal_stamps_diverge_witness:
  "\<exists>l r. document_apply_all demo_vec demo_hex demo_doc [demo_op 1 ''a'' [0], demo_op 2 ''a'' [1], demo_op 2 ''a'' [2]] = (Inr (), l) \<and>
     document_apply_all demo_vec demo_hex demo_doc [demo_op 2 ''a'' [2], demo_op 1 ''a'' [0], demo_op 2 ''a'' [1]] = (Inr (), r) \<and>
     document_get l ''t'' = Some [1] \<and> document_get r ''t'' = Some [2] \<and>
     document_merge demo_vec demo_hex l r = (Inr (), l) \<and> document_merge demo_vec demo_hex r l = (Inr (), r)"
proof -
  let ?o = "demo_op 1 ''a'' [0]" and ?x = "demo_op 2 ''a'' [1]" and ?y = "demo_op 2 ''a'' [2]"
  let ?run = "document_apply_all demo_vec demo_hex demo_doc"
  have "fst (?run ([?o] @ ?x # [?y])) = Inr ()" "fst (?run ([] @ ?y # [?o, ?x])) = Inr ()"
    by (simp_all add: document_eval)
  then obtain l r where run: "?run ([?o] @ ?x # [?y]) = (Inr (), l)" "?run ([] @ ?y # [?o, ?x]) = (Inr (), r)"
    by (metis prod.collapse)
  have same: "set ([?o] @ ?x # [?y]) = set ([] @ ?y # [?o, ?x])" by auto
  have ops: "{?x, ?y} \<inter> set [?o] = {}" "{?x, ?y} \<inter> set [] = {}" "op_key ?x = op_key ?y" "stamp ?x = stamp ?y"
    "op_value ?x \<noteq> op_value ?y"
    "\<forall>z \<in> set ([?o] @ ?x # [?y]) - {?x, ?y}. op_key z = op_key ?x \<longrightarrow> stamp z < stamp ?x"
    by (auto simp: demo_op_def stamp_def)
  have inj: "inj_on (operation_id demo_vec demo_hex) (set ([?o] @ ?x # [?y]))"
    by (simp add: inj_on_def operation_id_def demo_op_def demo_vec_def demo_hex_def char_of_def bit_0)
  have "op_key ?x = ''t''" "op_value ?x = Some [1]" "op_value ?y = Some [2]" by (simp_all add: demo_op_def)
  with equal_stamps_diverge [OF demo_doc_new same run ops inj] run show ?thesis by simp
qed

end
