(* ===== verification/Identifiers.thy ===== *)
theory Identifiers
  imports Prelude
begin

text \<open>
  The name and text checks the crates share: stack and instance names, cartridge identifiers,
  aliases, bounded text and WIT interface references (\<^verbatim>\<open>valid_name\<close> and friends of
  \<^verbatim>\<open>crates/cartridge-engine/src/lib.rs\<close>, \<^verbatim>\<open>resolver.rs\<close> and \<^verbatim>\<open>manifest.rs\<close> of
  \<^verbatim>\<open>crates/cartridge-core/src\<close>).  Semantic versions are parsed by the \<^verbatim>\<open>semver\<close> crate: the
  argument \<open>version_ok\<close> says whether \<^verbatim>\<open>Version::parse\<close> succeeds.  Shown here: the characters an
  accepted name can contain, which is what lets names be used as path components and namespaces.
\<close>

definition name_byte :: "char \<Rightarrow> bool" where
  "name_byte b \<longleftrightarrow> is_ascii_lowercase b \<or> is_ascii_digit b \<or> b = CHR ''-''"

definition valid_name :: "string \<Rightarrow> bool" where
  "valid_name s \<longleftrightarrow> s \<noteq> [] \<and> length s \<le> 64 \<and> list_all name_byte s \<and>
     \<not> starts_with s ''-'' \<and> \<not> ends_with s ''-''"

definition valid_segment :: "string \<Rightarrow> bool" where
  "valid_segment s \<longleftrightarrow> s \<noteq> [] \<and> list_all name_byte s \<and> \<not> starts_with s ''-'' \<and> \<not> ends_with s ''-''"

definition valid_cartridge_id :: "string \<Rightarrow> bool" where
  "valid_cartridge_id s \<longleftrightarrow> length s \<le> 128 \<and> length (split_on (CHR ''.'') s) \<ge> 3 \<and>
     list_all valid_segment (split_on (CHR ''.'') s)"

definition valid_text :: "string \<Rightarrow> nat \<Rightarrow> bool \<Rightarrow> bool" where
  "valid_text s maximum allow_empty \<longleftrightarrow>
     (allow_empty \<or> \<not> blank s) \<and> length (chars s) \<le> maximum \<and> \<not> list_ex is_control (chars s)"

definition is_alias :: "string \<Rightarrow> bool" where
  "is_alias s \<longleftrightarrow> s \<noteq> [] \<and> length s \<le> 48 \<and> list_all name_byte s \<and>
     \<not> starts_with s ''-'' \<and> \<not> ends_with s ''-''"

definition is_cartridge_id :: "string \<Rightarrow> bool" where
  "is_cartridge_id s \<longleftrightarrow> length s \<le> 128 \<and> length (split_on (CHR ''.'') s) \<ge> 3 \<and>
     list_all valid_segment (split_on (CHR ''.'') s)"

definition is_bounded_text :: "string \<Rightarrow> nat \<Rightarrow> bool \<Rightarrow> bool" where
  "is_bounded_text s maximum allow_empty \<longleftrightarrow>
     (allow_empty \<or> \<not> blank s) \<and> length (chars s) \<le> maximum \<and> \<not> list_ex is_control (chars s)"

datatype interface_error =
  InterfaceVersionMissing | InterfaceVersionInvalid | InterfaceSyntax | WitNameInvalid

definition validate_wit_name :: "string \<Rightarrow> interface_error + unit" where
  "validate_wit_name s =
     fail_if (s = [] \<or> length s > 64 \<or> \<not> list_all name_byte s \<or> starts_with s ''-'' \<or> ends_with s ''-'')
       WitNameInvalid"

definition validate_interface :: "(string \<Rightarrow> bool) \<Rightarrow> string \<Rightarrow> interface_error + unit" where
  "validate_interface version_ok s =
     and_then (ok_or (rsplit_once (CHR ''@'') s) InterfaceVersionMissing) (\<lambda>(path, version).
     and_then (fail_if (\<not> version_ok version) InterfaceVersionInvalid) (\<lambda>_.
     and_then (ok_or (split_once (CHR ''/'') path) InterfaceSyntax) (\<lambda>(package_ref, interface).
     and_then (ok_or (split_once (CHR '':'') package_ref) InterfaceSyntax) (\<lambda>(namespace, package).
     and_then (validate_wit_name namespace) (\<lambda>_.
     and_then (validate_wit_name package) (\<lambda>_.
     validate_wit_name interface))))))"

lemmas identifier_defs = valid_name_def valid_segment_def valid_cartridge_id_def valid_text_def
  is_alias_def is_cartridge_id_def is_bounded_text_def name_byte_def

section \<open>Accepted names are safe path components\<close>

lemma name_byte_safe: "name_byte b \<Longrightarrow> b \<noteq> CHR ''/'' \<and> b \<noteq> CHR ''.'' \<and> b \<noteq> CHR 0x5C \<and> b \<noteq> CHR 0x00"
  by (auto simp: name_byte_def text_defs)

lemma valid_name_safe:
  assumes "valid_name s"
  shows "s \<noteq> ''.'' \<and> s \<noteq> ''..'' \<and> CHR ''/'' \<notin> set s \<and> CHR 0x5C \<notin> set s \<and> CHR 0x00 \<notin> set s"
proof -
  have "name_byte b" if "b \<in> set s" for b
    using assms that by (simp add: valid_name_def list_all_iff)
  then have "CHR ''/'' \<notin> set s" "CHR ''.'' \<notin> set s" "CHR 0x5C \<notin> set s" "CHR 0x00 \<notin> set s"
    using name_byte_safe by blast+
  then show ?thesis by auto
qed

end
