(* ===== verification/Composition.thy ===== *)
theory Composition
  imports Identifiers "HOL-Library.Product_Lexorder"
begin

text \<open>
  Composition locks of \<^verbatim>\<open>crates/cartridge-core/src/resolver.rs\<close>: the packages and dependency
  edges a plan pins.  Shown here: an accepted lock lists each provider once in order, and the
  providers are exactly the packages its edges refer to.
\<close>

definition COMPOSITION_LOCK_FORMAT_VERSION :: nat where "COMPOSITION_LOCK_FORMAT_VERSION = 1"
definition MAX_LOCKED_PACKAGES :: nat where "MAX_LOCKED_PACKAGES = 128"
definition MAX_LOCKED_PACKAGE_BYTES :: nat where "MAX_LOCKED_PACKAGE_BYTES = 160 * 1024 * 1024"

datatype lock_error =
    LockFormatInvalid | LockPackageInvalid | LockNotSorted | LockEdgeInvalid
  | LockOptionalInvalid | LockUnreferenced

record resolved_dependency =
  rd_alias :: string
  rd_cartridge :: string
  rd_version :: string
  rd_interfaces :: "string list"

record unavailable_dependency =
  ud_alias :: string
  ud_cartridge :: string
  ud_reason :: string

record resolution_plan =
  rp_resolved :: "resolved_dependency list"
  rp_unavailable_optional :: "unavailable_dependency list"

record locked_package =
  lp_cartridge_id :: string
  lp_version :: string
  lp_package_sha256 :: string
  lp_package_bytes :: nat
  lp_component_sha256 :: string
  lp_assets_root_sha256 :: string

record composition_lock =
  cl_format_version :: nat
  cl_root :: locked_package
  cl_providers :: "locked_package list"
  cl_plan :: resolution_plan

definition validate_locked_package :: "(string \<Rightarrow> bool) \<Rightarrow> locked_package \<Rightarrow> lock_error + unit" where
  "validate_locked_package version_ok p =
     fail_if (\<not> is_cartridge_id (lp_cartridge_id p) \<or> \<not> is_bounded_text (lp_version p) 64 False \<or>
       \<not> version_ok (lp_version p) \<or> lp_package_bytes p = 0 \<or>
       lp_package_bytes p > MAX_LOCKED_PACKAGE_BYTES \<or> \<not> is_digest (lp_package_sha256 p) \<or>
       \<not> is_digest (lp_component_sha256 p) \<or>
       (lp_assets_root_sha256 p \<noteq> [] \<and> \<not> is_digest (lp_assets_root_sha256 p)))
     LockPackageInvalid"

definition package_key :: "locked_package \<Rightarrow> string \<times> string" where
  "package_key p = (lp_cartridge_id p, lp_version p)"

definition dependency_key :: "resolved_dependency \<Rightarrow> string \<times> string" where
  "dependency_key d = (rd_cartridge d, rd_version d)"

text \<open>The three loops of \<^verbatim>\<open>CompositionLock::validate\<close>.\<close>

definition validate_provider ::
    "(string \<Rightarrow> bool) \<Rightarrow> (string \<times> string) option \<times> (string \<times> string) set \<Rightarrow> locked_package
      \<Rightarrow> lock_error + ((string \<times> string) option \<times> (string \<times> string) set)" where
  "validate_provider version_ok acc p =
     (case acc of (previous, indexed) \<Rightarrow>
      and_then (validate_locked_package version_ok p) (\<lambda>_.
      and_then (fail_if (case previous of None \<Rightarrow> False | Some k \<Rightarrow> k \<ge> package_key p) LockNotSorted) (\<lambda>_.
      Inr (Some (package_key p), insert (package_key p) indexed))))"

definition validate_edge ::
    "(string \<Rightarrow> bool) \<Rightarrow> (string \<times> string) set \<Rightarrow> string set \<times> (string \<times> string) set
      \<Rightarrow> resolved_dependency \<Rightarrow> lock_error + (string set \<times> (string \<times> string) set)" where
  "validate_edge version_ok indexed acc d =
     (case acc of (aliases, referenced) \<Rightarrow>
      and_then (fail_if (\<not> is_alias (rd_alias d) \<or> \<not> is_cartridge_id (rd_cartridge d) \<or>
          \<not> is_bounded_text (rd_version d) 64 False \<or> \<not> version_ok (rd_version d) \<or>
          rd_alias d \<in> aliases \<or> rd_interfaces d = [] \<or> length (rd_interfaces d) > 64 \<or>
          list_ex (\<lambda>i. \<not> is_bounded_text i 256 False \<or> isl (validate_interface version_ok i)) (rd_interfaces d) \<or>
          dependency_key d \<notin> indexed) LockEdgeInvalid) (\<lambda>_.
      Inr (insert (rd_alias d) aliases, insert (dependency_key d) referenced)))"

definition validate_optional_edge ::
    "string set \<Rightarrow> unavailable_dependency \<Rightarrow> lock_error + string set" where
  "validate_optional_edge aliases d =
     and_then (fail_if (\<not> is_alias (ud_alias d) \<or> \<not> is_cartridge_id (ud_cartridge d) \<or>
         ud_alias d \<in> aliases \<or> \<not> is_bounded_text (ud_reason d) 512 False) LockOptionalInvalid) (\<lambda>_.
     Inr (insert (ud_alias d) aliases))"

definition validate_lock :: "(string \<Rightarrow> bool) \<Rightarrow> composition_lock \<Rightarrow> lock_error + unit" where
  "validate_lock version_ok l =
     and_then (fail_if (cl_format_version l \<noteq> COMPOSITION_LOCK_FORMAT_VERSION \<or>
         length (cl_providers l) > MAX_LOCKED_PACKAGES \<or>
         length (rp_resolved (cl_plan l)) > MAX_LOCKED_PACKAGES \<or>
         length (rp_unavailable_optional (cl_plan l)) > MAX_LOCKED_PACKAGES) LockFormatInvalid) (\<lambda>_.
     and_then (validate_locked_package version_ok (cl_root l)) (\<lambda>_.
     and_then (try_fold (validate_provider version_ok) (None, {}) (cl_providers l)) (\<lambda>(_, indexed).
     and_then (try_fold (validate_edge version_ok indexed) ({}, {}) (rp_resolved (cl_plan l)))
       (\<lambda>(aliases, referenced).
     and_then (try_fold validate_optional_edge aliases (rp_unavailable_optional (cl_plan l))) (\<lambda>_.
     fail_if (indexed \<noteq> referenced) LockUnreferenced)))))"

definition new_lock ::
    "(string \<Rightarrow> bool) \<Rightarrow> locked_package \<Rightarrow> locked_package list \<Rightarrow> resolution_plan \<Rightarrow> lock_error + composition_lock" where
  "new_lock version_ok root providers plan =
     (let l = \<lparr>cl_format_version = COMPOSITION_LOCK_FORMAT_VERSION, cl_root = root,
            cl_providers = sort_key package_key providers, cl_plan = plan\<rparr>
      in and_then (validate_lock version_ok l) (\<lambda>_. Inr l))"

section \<open>Accepted locks\<close>

lemma validate_provider_Inr:
  "validate_provider v (prev, K) p = Inr acc \<longleftrightarrow>
     validate_locked_package v p = Inr () \<and> (\<forall>k. prev = Some k \<longrightarrow> k < package_key p) \<and>
     acc = (Some (package_key p), insert (package_key p) K)"
  by (cases prev) (auto simp: validate_provider_def result_simps not_le)

lemma validate_edge_Inr:
  "validate_edge v I (A, R) d = Inr acc \<Longrightarrow>
     rd_alias d \<notin> A \<and> dependency_key d \<in> I \<and> acc = (insert (rd_alias d) A, insert (dependency_key d) R)"
  by (auto simp: validate_edge_def result_simps)

lemma providers_Inr:
  "try_fold (validate_provider v) (prev, K) ps = Inr (prev', K') \<Longrightarrow>
     K' = K \<union> package_key ` set ps \<and> (\<forall>p \<in> set ps. validate_locked_package v p = Inr ()) \<and>
     sorted_wrt (<) (map package_key ps) \<and>
     (\<forall>k. prev = Some k \<longrightarrow> (\<forall>p \<in> set ps. k < package_key p))"
proof (induction ps arbitrary: prev K)
  case (Cons p ps)
  have now: "validate_locked_package v p = Inr ()" "\<forall>k. prev = Some k \<longrightarrow> k < package_key p"
    and rest: "try_fold (validate_provider v) (Some (package_key p), insert (package_key p) K) ps = Inr (prev', K')"
    using Cons.prems by (auto simp: result_simps validate_provider_Inr)
  note ih = Cons.IH [OF rest]
  then have "\<forall>q \<in> set ps. package_key p < package_key q" by blast
  with ih now show ?case by (auto intro: less_trans)
qed simp

lemma edges_Inr:
  "try_fold (validate_edge v I) (A, R) ds = Inr (A', R') \<Longrightarrow>
     A' = A \<union> rd_alias ` set ds \<and> R' = R \<union> dependency_key ` set ds \<and>
     distinct (map rd_alias ds) \<and> rd_alias ` set ds \<inter> A = {} \<and> dependency_key ` set ds \<subseteq> I"
proof (induction ds arbitrary: A R)
  case (Cons d ds)
  have now: "rd_alias d \<notin> A" "dependency_key d \<in> I"
    and rest: "try_fold (validate_edge v I) (insert (rd_alias d) A, insert (dependency_key d) R) ds = Inr (A', R')"
    using Cons.prems by (auto simp: result_simps dest!: validate_edge_Inr)
  with Cons.IH [OF rest] show ?case by auto
qed simp

text \<open>An accepted composition lock is canonical and closed.  Its providers are strictly sorted by
  identifier and version, so no package is listed twice, and the listed packages are exactly
  those some dependency edge refers to; dependency aliases are pairwise distinct.\<close>

theorem composition_lock_closed:
  assumes "validate_lock version_ok l = Inr ()"
  shows "sorted_wrt (<) (map package_key (cl_providers l)) \<and>
    package_key ` set (cl_providers l) = dependency_key ` set (rp_resolved (cl_plan l)) \<and>
    distinct (map rd_alias (rp_resolved (cl_plan l)))"
proof -
  obtain prev I A R where p: "try_fold (validate_provider version_ok) (None, {}) (cl_providers l) = Inr (prev, I)"
    and e: "try_fold (validate_edge version_ok I) ({}, {}) (rp_resolved (cl_plan l)) = Inr (A, R)"
    and eq: "I = R"
    using assms by (auto simp: validate_lock_def result_simps)
  show ?thesis using providers_Inr [OF p] edges_Inr [OF e] eq by auto
qed

definition demo_digest :: string where
  "demo_digest = replicate 64 CHR ''a''"

lemma demo_digest_ok [simp]: "is_digest demo_digest"
  by (simp add: is_digest_def demo_digest_def list_all_iff is_ascii_digit_def)

definition demo_package :: "string \<Rightarrow> locked_package" where
  "demo_package cid = \<lparr>lp_cartridge_id = cid, lp_version = ''1'', lp_package_sha256 = demo_digest,
     lp_package_bytes = 1, lp_component_sha256 = demo_digest, lp_assets_root_sha256 = []\<rparr>"

definition demo_lock :: composition_lock where
  "demo_lock = \<lparr>cl_format_version = 1, cl_root = demo_package ''a.b.c'', cl_providers = [demo_package ''d.e.f''],
     cl_plan = \<lparr>rp_resolved = [\<lparr>rd_alias = ''x'', rd_cartridge = ''d.e.f'', rd_version = ''1'',
       rd_interfaces = [''n:p/i@1'']\<rparr>], rp_unavailable_optional = []\<rparr>\<rparr>"

lemma demo_lock_ok: "validate_lock (\<lambda>_. True) demo_lock = Inr ()"
  by (simp add: validate_lock_def demo_lock_def demo_package_def validate_locked_package_def
      validate_provider_def validate_edge_def package_key_def dependency_key_def identifier_defs
      validate_interface_def validate_wit_name_def COMPOSITION_LOCK_FORMAT_VERSION_def
      MAX_LOCKED_PACKAGES_def MAX_LOCKED_PACKAGE_BYTES_def text_defs)

theorem composition_lock_closed_witness:
  "package_key ` set (cl_providers demo_lock) = {(''d.e.f'', ''1'')}"
  using composition_lock_closed [OF demo_lock_ok] by (simp add: demo_lock_def dependency_key_def)

end
