(* ===== verification/Limits.thy ===== *)
theory Limits
  imports Prelude
begin

text \<open>
  Resource limits: \<^verbatim>\<open>RuntimeLimits\<close> of \<^verbatim>\<open>crates/cartridge-core/src/manifest.rs\<close>, which a package
  requests, and \<^verbatim>\<open>InstanceLimits\<close> of \<^verbatim>\<open>crates/cartridge-engine/src/lib.rs\<close>, with which an operator
  caps them.  Shown here: capping never raises a limit, keeps accepted limits acceptable, is the
  greatest accepted set of limits below both arguments, and the limits a plan records pass the
  later check against the installed package.
\<close>

definition MAX_FUEL :: nat where "MAX_FUEL = 1000000000000"
definition MAX_MEMORY_BYTES :: nat where "MAX_MEMORY_BYTES = 256 * 1024 * 1024"
definition MAX_STORAGE_BYTES :: nat where "MAX_STORAGE_BYTES = 64 * 1024 * 1024"
definition MAX_STORAGE_KEYS :: nat where "MAX_STORAGE_KEYS = 100000"
definition MAX_STORAGE_VALUE_BYTES :: nat where "MAX_STORAGE_VALUE_BYTES = 8 * 1024 * 1024"
definition MAX_TIMEOUT_MS :: nat where "MAX_TIMEOUT_MS = 5 * 60 * 1000"
definition MAX_GRAPHICS_PIXELS :: nat where "MAX_GRAPHICS_PIXELS = 4 * 1024 * 1024"
definition MAX_GRAPHICS_COMMANDS :: nat where "MAX_GRAPHICS_COMMANDS = 32768"
definition MAX_AUDIO_NODES :: nat where "MAX_AUDIO_NODES = 128"
definition MAX_AUDIO_EVENTS :: nat where "MAX_AUDIO_EVENTS = 65536"
definition MAX_AUDIO_FRAMES :: nat where "MAX_AUDIO_FRAMES = 48000 * 30"

lemmas limit_consts = MAX_FUEL_def MAX_MEMORY_BYTES_def MAX_STORAGE_BYTES_def MAX_STORAGE_KEYS_def
  MAX_STORAGE_VALUE_BYTES_def MAX_TIMEOUT_MS_def MAX_GRAPHICS_PIXELS_def MAX_GRAPHICS_COMMANDS_def
  MAX_AUDIO_NODES_def MAX_AUDIO_EVENTS_def MAX_AUDIO_FRAMES_def

datatype limit_error =
    FuelRange | MemoryRange | TimeoutRange | StorageBytesRange | StorageKeysRange
  | StorageValueRange | GraphicsPixelsRange | GraphicsCommandsRange | AudioNodesRange
  | AudioEventsRange | AudioFramesRange

record runtime_limits =
  fuel :: nat
  memory_bytes :: nat
  timeout_ms :: nat
  storage_bytes :: nat
  storage_keys :: nat
  storage_value_bytes :: nat
  graphics_pixels :: nat
  graphics_commands :: nat
  audio_nodes :: nat
  audio_events :: nat
  audio_frames :: nat

definition maximum_limits :: runtime_limits where
  "maximum_limits = \<lparr>fuel = MAX_FUEL, memory_bytes = MAX_MEMORY_BYTES, timeout_ms = MAX_TIMEOUT_MS,
     storage_bytes = MAX_STORAGE_BYTES, storage_keys = MAX_STORAGE_KEYS,
     storage_value_bytes = MAX_STORAGE_VALUE_BYTES, graphics_pixels = MAX_GRAPHICS_PIXELS,
     graphics_commands = MAX_GRAPHICS_COMMANDS, audio_nodes = MAX_AUDIO_NODES,
     audio_events = MAX_AUDIO_EVENTS, audio_frames = MAX_AUDIO_FRAMES\<rparr>"

definition default_limits :: runtime_limits where
  "default_limits = \<lparr>fuel = 10000000, memory_bytes = 64 * 1024 * 1024, timeout_ms = 30000,
     storage_bytes = 1024 * 1024, storage_keys = 1024, storage_value_bytes = 256 * 1024,
     graphics_pixels = 2 * 1024 * 1024, graphics_commands = 8192, audio_nodes = 64,
     audio_events = 16384, audio_frames = 480000\<rparr>"

definition in_range :: "nat \<Rightarrow> nat \<Rightarrow> nat \<Rightarrow> bool" where
  "in_range lo hi x \<longleftrightarrow> lo \<le> x \<and> x \<le> hi"

definition validate_runtime_limits :: "runtime_limits \<Rightarrow> limit_error + unit" where
  "validate_runtime_limits l =
     and_then (fail_if (\<not> in_range 1 MAX_FUEL (fuel l)) FuelRange) (\<lambda>_.
     and_then (fail_if (\<not> in_range (1024 * 1024) MAX_MEMORY_BYTES (memory_bytes l)) MemoryRange) (\<lambda>_.
     and_then (fail_if (\<not> in_range 1 MAX_TIMEOUT_MS (timeout_ms l)) TimeoutRange) (\<lambda>_.
     and_then (fail_if (\<not> in_range 1 MAX_STORAGE_BYTES (storage_bytes l)) StorageBytesRange) (\<lambda>_.
     and_then (fail_if (\<not> in_range 1 MAX_STORAGE_KEYS (storage_keys l)) StorageKeysRange) (\<lambda>_.
     and_then (fail_if (storage_value_bytes l = 0 \<or> storage_value_bytes l > storage_bytes l \<or>
         storage_value_bytes l > MAX_STORAGE_VALUE_BYTES) StorageValueRange) (\<lambda>_.
     and_then (fail_if (\<not> in_range 1 MAX_GRAPHICS_PIXELS (graphics_pixels l)) GraphicsPixelsRange) (\<lambda>_.
     and_then (fail_if (\<not> in_range 1 MAX_GRAPHICS_COMMANDS (graphics_commands l)) GraphicsCommandsRange) (\<lambda>_.
     and_then (fail_if (\<not> in_range 1 MAX_AUDIO_NODES (audio_nodes l)) AudioNodesRange) (\<lambda>_.
     and_then (fail_if (\<not> in_range 1 MAX_AUDIO_EVENTS (audio_events l)) AudioEventsRange) (\<lambda>_.
     fail_if (\<not> in_range 1 MAX_AUDIO_FRAMES (audio_frames l)) AudioFramesRange))))))))))"

definition constrained_by :: "runtime_limits \<Rightarrow> runtime_limits \<Rightarrow> runtime_limits" where
  "constrained_by a ceiling =
     (let bytes_cap = min (storage_bytes a) (storage_bytes ceiling) in
      \<lparr>fuel = min (fuel a) (fuel ceiling), memory_bytes = min (memory_bytes a) (memory_bytes ceiling),
       timeout_ms = min (timeout_ms a) (timeout_ms ceiling), storage_bytes = bytes_cap,
       storage_keys = min (storage_keys a) (storage_keys ceiling),
       storage_value_bytes = min (min (storage_value_bytes a) (storage_value_bytes ceiling)) bytes_cap,
       graphics_pixels = min (graphics_pixels a) (graphics_pixels ceiling),
       graphics_commands = min (graphics_commands a) (graphics_commands ceiling),
       audio_nodes = min (audio_nodes a) (audio_nodes ceiling),
       audio_events = min (audio_events a) (audio_events ceiling),
       audio_frames = min (audio_frames a) (audio_frames ceiling)\<rparr>)"

record instance_limits =
  il_fuel :: "nat option"
  il_memory_bytes :: "nat option"
  il_timeout_ms :: "nat option"
  il_storage_bytes :: "nat option"
  il_storage_keys :: "nat option"
  il_storage_value_bytes :: "nat option"
  il_graphics_pixels :: "nat option"
  il_graphics_commands :: "nat option"
  il_audio_nodes :: "nat option"
  il_audio_events :: "nat option"
  il_audio_frames :: "nat option"

definition unwrap_or :: "'a option \<Rightarrow> 'a \<Rightarrow> 'a" where
  "unwrap_or x d = (case x of None \<Rightarrow> d | Some v \<Rightarrow> v)"

text \<open>\<^verbatim>\<open>InstanceLimits::ceiling\<close>: the maximum with every given field overwritten.\<close>

definition limits_ceiling :: "instance_limits \<Rightarrow> limit_error + runtime_limits" where
  "limits_ceiling i =
     (let m = maximum_limits;
          set_bytes = unwrap_or (il_storage_bytes i) (storage_bytes m);
          limits = \<lparr>fuel = unwrap_or (il_fuel i) (fuel m),
            memory_bytes = unwrap_or (il_memory_bytes i) (memory_bytes m),
            timeout_ms = unwrap_or (il_timeout_ms i) (timeout_ms m), storage_bytes = set_bytes,
            storage_keys = unwrap_or (il_storage_keys i) (storage_keys m),
            storage_value_bytes =
              min (unwrap_or (il_storage_value_bytes i) (storage_value_bytes m)) set_bytes,
            graphics_pixels = unwrap_or (il_graphics_pixels i) (graphics_pixels m),
            graphics_commands = unwrap_or (il_graphics_commands i) (graphics_commands m),
            audio_nodes = unwrap_or (il_audio_nodes i) (audio_nodes m),
            audio_events = unwrap_or (il_audio_events i) (audio_events m),
            audio_frames = unwrap_or (il_audio_frames i) (audio_frames m)\<rparr>
      in and_then (validate_runtime_limits limits) (\<lambda>_. Inr limits))"

definition limits_apply :: "instance_limits \<Rightarrow> runtime_limits \<Rightarrow> limit_error + runtime_limits" where
  "limits_apply i requested = and_then (limits_ceiling i) (\<lambda>ceiling. Inr (constrained_by requested ceiling))"

section \<open>Capping is a meet\<close>

text \<open>The order on limits: no limit of \<open>a\<close> exceeds that of \<open>b\<close>.\<close>

definition limits_le :: "runtime_limits \<Rightarrow> runtime_limits \<Rightarrow> bool" where
  "limits_le a b \<longleftrightarrow> fuel a \<le> fuel b \<and> memory_bytes a \<le> memory_bytes b \<and> timeout_ms a \<le> timeout_ms b \<and>
     storage_bytes a \<le> storage_bytes b \<and> storage_keys a \<le> storage_keys b \<and>
     storage_value_bytes a \<le> storage_value_bytes b \<and> graphics_pixels a \<le> graphics_pixels b \<and>
     graphics_commands a \<le> graphics_commands b \<and> audio_nodes a \<le> audio_nodes b \<and>
     audio_events a \<le> audio_events b \<and> audio_frames a \<le> audio_frames b"

lemma constrained_by_le: "limits_le (constrained_by a c) a" "limits_le (constrained_by a c) c"
  by (simp_all add: limits_le_def constrained_by_def Let_def min_le_iff_disj)

lemma constrained_by_greatest:
  "limits_le x a \<Longrightarrow> limits_le x c \<Longrightarrow> storage_value_bytes x \<le> storage_bytes x \<Longrightarrow>
     limits_le x (constrained_by a c)"
  by (auto simp: limits_le_def constrained_by_def Let_def)

lemma validate_value_le: "validate_runtime_limits l = Inr () \<Longrightarrow> storage_value_bytes l \<le> storage_bytes l"
  by (auto simp: validate_runtime_limits_def result_simps)

lemma constrained_by_valid:
  "validate_runtime_limits a = Inr () \<Longrightarrow> validate_runtime_limits c = Inr () \<Longrightarrow>
     validate_runtime_limits (constrained_by a c) = Inr ()"
  by (simp add: validate_runtime_limits_def result_simps constrained_by_def in_range_def Let_def)
    (auto simp: min_def)

lemma limits_ceiling_valid: "limits_ceiling i = Inr c \<Longrightarrow> validate_runtime_limits c = Inr ()"
  by (auto simp: limits_ceiling_def result_simps Let_def)

text \<open>Capping computes the greatest accepted limits below both sides.  Whenever the package's
  requested limits are accepted and the operator's caps are accepted, the effective limits are
  accepted, exceed neither the request nor any cap, and every accepted choice below both is
  below them.\<close>

theorem limits_apply_meet:
  assumes "validate_runtime_limits requested = Inr ()" and "limits_apply i requested = Inr eff"
  shows "\<exists>ceiling. limits_ceiling i = Inr ceiling \<and> validate_runtime_limits eff = Inr () \<and>
    limits_le eff requested \<and> limits_le eff ceiling \<and>
    (\<forall>x. validate_runtime_limits x = Inr () \<and> limits_le x requested \<and> limits_le x ceiling \<longrightarrow>
       limits_le x eff)"
proof -
  obtain c where c: "limits_ceiling i = Inr c" "eff = constrained_by requested c"
    using assms(2) by (auto simp: limits_apply_def result_simps)
  then show ?thesis
    using constrained_by_valid [OF assms(1) limits_ceiling_valid [OF c(1)]]
      constrained_by_le [of requested c] constrained_by_greatest validate_value_le by blast
qed

definition demo_caps :: instance_limits where
  "demo_caps = \<lparr>il_fuel = Some 1000, il_memory_bytes = None, il_timeout_ms = None,
     il_storage_bytes = Some 4096, il_storage_keys = None, il_storage_value_bytes = None,
     il_graphics_pixels = None, il_graphics_commands = None, il_audio_nodes = None,
     il_audio_events = None, il_audio_frames = None\<rparr>"

lemma default_limits_valid: "validate_runtime_limits default_limits = Inr ()"
  by (simp add: validate_runtime_limits_def default_limits_def limit_consts in_range_def)

lemma demo_caps_apply:
  "limits_apply demo_caps default_limits
     = Inr (default_limits\<lparr>fuel := 1000, storage_bytes := 4096, storage_value_bytes := 4096\<rparr>)"
  by (simp add: limits_apply_def limits_ceiling_def demo_caps_def maximum_limits_def limit_consts
      validate_runtime_limits_def in_range_def unwrap_or_def default_limits_def constrained_by_def Let_def)

theorem limits_apply_meet_witness:
  "limits_le (default_limits\<lparr>fuel := 1000, storage_bytes := 4096, storage_value_bytes := 4096\<rparr>) default_limits"
  using limits_apply_meet [OF default_limits_valid demo_caps_apply] by blast

text \<open>What planning records, installation accepts.  The effective limits of an accepted request
  are exactly reproduced when the request is capped by them, which is the check
  \<^verbatim>\<open>verify_installed\<close> makes; and capping by any limits reproduces those limits only if they
  exceed the request nowhere.\<close>

theorem limits_apply_stable:
  assumes "validate_runtime_limits requested = Inr ()" and "limits_apply i requested = Inr eff"
  shows "constrained_by requested eff = eff \<and>
    (\<forall>l. constrained_by requested l = l \<longrightarrow> limits_le l requested)"
proof -
  have "constrained_by requested (constrained_by requested c) = constrained_by requested c" for c
    by (auto simp: constrained_by_def Let_def min_def)
  moreover have "limits_le l requested" if "constrained_by requested l = l" for l
    using constrained_by_le(1) [of requested l] that by simp
  ultimately show ?thesis using assms(2) by (auto simp: limits_apply_def result_simps)
qed

theorem limits_apply_stable_witness:
  "constrained_by default_limits
     (default_limits\<lparr>fuel := 1000, storage_bytes := 4096, storage_value_bytes := 4096\<rparr>)
   = default_limits\<lparr>fuel := 1000, storage_bytes := 4096, storage_value_bytes := 4096\<rparr>"
  using limits_apply_stable [OF default_limits_valid demo_caps_apply] by blast

end
