(* ===== verification/Rolling.thy ===== *)
theory Rolling
  imports Prelude
begin

text \<open>
  \<^verbatim>\<open>crates/cartridge-engine/src/rolling.rs\<close>: the rolling-update scheduler of one instance.  Given
  a policy and an observation of which replicas of the previous and of the candidate generation
  are active, ready and available, \<open>next_rolling\<close> (\<^verbatim>\<open>RollingObservation::next\<close>) chooses the next
  action.  A \<^verbatim>\<open>BTreeSet<u16>\<close> is a set of numbers and its iteration order the sorted list.

  Shown here: a start never exceeds the surge limit, a drain never takes ready capacity below
  the availability floor, an accepted observation in which everything started has become
  available is never answered by waiting, and following the scheduler from such an observation
  completes the update within \<^verbatim>\<open>previous_replicas + candidate_replicas\<close> actions through
  accepted observations only.
\<close>

section \<open>Policy and observation\<close>

definition MIN_ROLLING_PROGRESS_DEADLINE_MS :: nat where "MIN_ROLLING_PROGRESS_DEADLINE_MS = 1000"
definition MAX_ROLLING_PROGRESS_DEADLINE_MS :: nat where "MAX_ROLLING_PROGRESS_DEADLINE_MS = 60 * 60 * 1000"
definition MAX_ROLLING_MIN_READY_MS :: nat where "MAX_ROLLING_MIN_READY_MS = 5 * 60 * 1000"
definition MAX_ROLLING_DRAIN_TIMEOUT_MS :: nat where "MAX_ROLLING_DRAIN_TIMEOUT_MS = 5 * 60 * 1000"
definition MAX_STACK_REPLICAS :: nat where "MAX_STACK_REPLICAS = 32"

lemmas rolling_consts = MIN_ROLLING_PROGRESS_DEADLINE_MS_def MAX_ROLLING_PROGRESS_DEADLINE_MS_def
  MAX_ROLLING_MIN_READY_MS_def MAX_ROLLING_DRAIN_TIMEOUT_MS_def MAX_STACK_REPLICAS_def

datatype rolling_order = StartFirst | StopFirst

record rolling_update_policy =
  order :: rolling_order
  max_surge :: nat
  max_unavailable :: nat
  min_ready_ms :: nat
  progress_deadline_ms :: nat
  drain_timeout_ms :: nat

definition default_policy :: rolling_update_policy where
  "default_policy = \<lparr>order = StartFirst, max_surge = 1, max_unavailable = 0, min_ready_ms = 2000,
     progress_deadline_ms = 5 * 60 * 1000, drain_timeout_ms = 30000\<rparr>"

definition is_default_policy :: "rolling_update_policy \<Rightarrow> bool" where
  "is_default_policy p \<longleftrightarrow> p = default_policy"

datatype rolling_error =
  PolicyInvalid | ObservationInconsistent | ActiveCountOverflow | SurgeCountOverflow | SurgeLimitExceeded

definition validate_policy :: "rolling_update_policy \<Rightarrow> nat \<Rightarrow> rolling_error + unit" where
  "validate_policy p replicas =
     fail_if (replicas = 0 \<or> replicas > MAX_STACK_REPLICAS \<or>
       max_surge p > replicas \<or> max_unavailable p > replicas \<or>
       max_surge p = 0 \<and> max_unavailable p = 0 \<or>
       min_ready_ms p > MAX_ROLLING_MIN_READY_MS \<or>
       \<not> (MIN_ROLLING_PROGRESS_DEADLINE_MS \<le> progress_deadline_ms p \<and>
          progress_deadline_ms p \<le> MAX_ROLLING_PROGRESS_DEADLINE_MS) \<or>
       progress_deadline_ms p \<le> min_ready_ms p \<or>
       drain_timeout_ms p > MAX_ROLLING_DRAIN_TIMEOUT_MS \<or>
       progress_deadline_ms p \<le> drain_timeout_ms p)
     PolicyInvalid"

record rolling_observation =
  previous_replicas :: nat
  candidate_replicas :: nat
  previous_active :: "nat set"
  previous_ready :: "nat set"
  candidate_active :: "nat set"
  candidate_ready :: "nat set"
  candidate_available :: "nat set"
  candidate_terminal :: "nat set"
  elapsed_since_progress_ms :: nat

datatype rolling_wait_reason = CandidateReadiness | MinimumReadyTime | AvailabilityBudget

datatype rolling_rollback_reason = CandidateFailed | ProgressDeadline

datatype rolling_action =
    StartCandidate "nat list"
  | DrainPrevious "nat list" nat
  | Wait rolling_wait_reason
  | Complete
  | Rollback rolling_rollback_reason

definition policy_replicas :: "rolling_observation \<Rightarrow> nat" where
  "policy_replicas ob = max (previous_replicas ob) (candidate_replicas ob)"

definition validate_observation ::
    "rolling_observation \<Rightarrow> rolling_update_policy \<Rightarrow> rolling_error + unit" where
  "validate_observation ob p =
     and_then (validate_policy p (policy_replicas ob)) (\<lambda>_.
     let valid_previous = (\<lambda>i. i > 0 \<and> i \<le> previous_replicas ob);
         valid_candidate = (\<lambda>i. i > 0 \<and> i \<le> candidate_replicas ob) in
     and_then (fail_if (
         \<not> Set.Ball (previous_active ob) valid_previous \<or>
         \<not> Set.Ball (previous_ready ob) valid_previous \<or>
         \<not> Set.Ball (candidate_active ob) valid_candidate \<or>
         \<not> Set.Ball (candidate_ready ob) valid_candidate \<or>
         \<not> Set.Ball (candidate_available ob) valid_candidate \<or>
         \<not> Set.Ball (candidate_terminal ob) valid_candidate \<or>
         \<not> previous_ready ob \<subseteq> previous_active ob \<or>
         \<not> candidate_ready ob \<subseteq> candidate_active ob \<or>
         \<not> candidate_available ob \<subseteq> candidate_ready ob \<or>
         candidate_terminal ob \<inter> candidate_active ob \<noteq> {})
       ObservationInconsistent) (\<lambda>_.
     and_then (ok_or (checked_add 64 (card (previous_active ob)) (card (candidate_active ob)))
       ActiveCountOverflow) (\<lambda>active.
     and_then (ok_or (checked_add 64 (policy_replicas ob) (max_surge p)) SurgeCountOverflow) (\<lambda>limit.
     fail_if (active > limit) SurgeLimitExceeded))))"

section \<open>The scheduler\<close>

text \<open>The unchecked additions below are over counts of at most 65536 elements each.\<close>

definition start_action :: "rolling_observation \<Rightarrow> rolling_update_policy \<Rightarrow> rolling_action option" where
  "start_action ob p =
     (let desired = candidate_replicas ob;
          active = card (previous_active ob) + card (candidate_active ob);
          capacity = max (previous_replicas ob) (candidate_replicas ob) + max_surge p;
          count = min (desired - card (candidate_active ob)) (capacity - active)
      in if count = 0 then None
         else
           let ordinals = take count (filter (\<lambda>i. i \<notin> candidate_active ob \<and> i \<notin> candidate_terminal ob)
                 [1 ..< candidate_replicas ob + 1])
           in if ordinals \<noteq> [] then Some (StartCandidate ordinals) else None)"

definition drain_action :: "rolling_observation \<Rightarrow> rolling_update_policy \<Rightarrow> rolling_action option" where
  "drain_action ob p =
     (if previous_active ob = {} then None
      else
        let desired = candidate_replicas ob;
            minimum_available = desired - max_unavailable p;
            available = card (previous_ready ob) + card (candidate_available ob);
            ready_budget = available - minimum_available;
            ordinals = sorted_list_of_set (previous_active ob - previous_ready ob)
              @ take ready_budget (sorted_list_of_set (previous_ready ob))
        in if ordinals = [] then None
           else Some (DrainPrevious (sort ordinals) (drain_timeout_ms p)))"

definition or_else :: "'a option \<Rightarrow> 'a option \<Rightarrow> 'a option" where
  "or_else a b = (case a of None \<Rightarrow> b | Some x \<Rightarrow> Some x)"

definition next_rolling ::
    "rolling_observation \<Rightarrow> rolling_update_policy \<Rightarrow> rolling_error + rolling_action" where
  "next_rolling ob p =
     and_then (validate_observation ob p) (\<lambda>_.
     if candidate_terminal ob \<noteq> {} then Inr (Rollback CandidateFailed)
     else if previous_active ob = {} \<and> card (candidate_available ob) = candidate_replicas ob
     then Inr Complete
     else if elapsed_since_progress_ms ob \<ge> progress_deadline_ms p
     then Inr (Rollback ProgressDeadline)
     else
       (case (case order p of
                StartFirst \<Rightarrow> or_else (start_action ob p) (drain_action ob p)
              | StopFirst \<Rightarrow> or_else (drain_action ob p) (start_action ob p)) of
          Some action \<Rightarrow> Inr action
        | None \<Rightarrow>
            Inr (Wait (if card (candidate_ready ob) < card (candidate_active ob) then CandidateReadiness
                       else if card (candidate_available ob) < card (candidate_ready ob)
                       then MinimumReadyTime
                       else AvailabilityBudget))))"

section \<open>Accepted observations\<close>

lemma validate_policy_Inr:
  "validate_policy p n = Inr () \<Longrightarrow>
     0 < n \<and> n \<le> 32 \<and> max_surge p \<le> n \<and> max_unavailable p \<le> n \<and>
     (max_surge p > 0 \<or> max_unavailable p > 0)"
  by (auto simp: validate_policy_def rolling_consts)

lemma validate_observation_Inr:
  "validate_observation ob p = Inr () \<longleftrightarrow>
     validate_policy p (policy_replicas ob) = Inr () \<and>
     previous_active ob \<subseteq> {1 .. previous_replicas ob} \<and> previous_ready ob \<subseteq> previous_active ob \<and>
     candidate_active ob \<subseteq> {1 .. candidate_replicas ob} \<and> candidate_ready ob \<subseteq> candidate_active ob \<and>
     candidate_available ob \<subseteq> candidate_ready ob \<and>
     candidate_terminal ob \<subseteq> {1 .. candidate_replicas ob} \<and>
     candidate_terminal ob \<inter> candidate_active ob = {} \<and>
     card (previous_active ob) + card (candidate_active ob) \<le> policy_replicas ob + max_surge p"
  (is "?L \<longleftrightarrow> ?R")
proof
  assume ?L
  then show ?R
    by (auto simp: validate_observation_def Let_def result_simps Ball_def)
next
  assume R: ?R
  then have "policy_replicas ob + max_surge p \<le> 64"
    using validate_policy_Inr [of p "policy_replicas ob"] by auto
  then have "card (previous_active ob) + card (candidate_active ob) < 2 ^ 64"
    "policy_replicas ob + max_surge p < 2 ^ 64"
    using R by auto
  with R show ?L
    by (auto simp: validate_observation_def Let_def result_simps subset_iff)
qed

lemma accepted_finite:
  assumes "validate_observation ob p = Inr ()"
  shows "finite (previous_active ob)" "finite (previous_ready ob)" "finite (candidate_active ob)"
    "finite (candidate_ready ob)" "finite (candidate_available ob)"
    "card (candidate_active ob) \<le> candidate_replicas ob"
    "card (previous_active ob) \<le> previous_replicas ob"
proof -
  note v = assms [unfolded validate_observation_Inr]
  show 1: "finite (previous_active ob)" "finite (candidate_active ob)"
    using v finite_subset [OF _ finite_atLeastAtMost] by auto
  show 2: "finite (previous_ready ob)" "finite (candidate_ready ob)"
    using v 1 finite_subset by auto
  show "finite (candidate_available ob)" using v 2 finite_subset by auto
  show "card (candidate_active ob) \<le> candidate_replicas ob" "card (previous_active ob) \<le> previous_replicas ob"
    using v card_mono [OF finite_atLeastAtMost, of _ 1 "candidate_replicas ob"]
      card_mono [OF finite_atLeastAtMost, of _ 1 "previous_replicas ob"] by auto
qed

text \<open>The ordinals a start may choose from: none of them is active, and there are enough.\<close>

definition startable :: "rolling_observation \<Rightarrow> nat list" where
  "startable ob = filter (\<lambda>i. i \<notin> candidate_active ob \<and> i \<notin> candidate_terminal ob)
     [1 ..< candidate_replicas ob + 1]"

lemma startable_set: "set (startable ob) = {1 .. candidate_replicas ob} - candidate_active ob - candidate_terminal ob"
  by (auto simp: startable_def)

lemma startable_distinct [simp]: "distinct (startable ob)"
  by (simp add: startable_def)

lemma startable_length:
  assumes "validate_observation ob p = Inr ()" and "candidate_terminal ob = {}"
  shows "length (startable ob) = candidate_replicas ob - card (candidate_active ob)"
proof -
  have "length (startable ob) = card (set (startable ob))"
    by (simp add: distinct_card)
  also have "\<dots> = card ({1 .. candidate_replicas ob} - candidate_active ob)"
    using assms(2) by (simp add: startable_set)
  also have "\<dots> = candidate_replicas ob - card (candidate_active ob)"
    using assms(1) accepted_finite(3) [OF assms(1)]
    by (subst card_Diff_subset) (simp_all add: validate_observation_Inr)
  finally show ?thesis .
qed

lemma start_action_Some:
  assumes "start_action ob p = Some a"
  obtains os where "a = StartCandidate os" "os \<noteq> []" "distinct os"
    "set os \<subseteq> {1 .. candidate_replicas ob} - candidate_active ob - candidate_terminal ob"
    "length os \<le> candidate_replicas ob - card (candidate_active ob)"
    "card (previous_active ob) + card (candidate_active ob) + length os \<le> policy_replicas ob + max_surge p"
proof -
  let ?n = "min (candidate_replicas ob - card (candidate_active ob))
    (policy_replicas ob + max_surge p - (card (previous_active ob) + card (candidate_active ob)))"
  have n: "?n \<noteq> 0" "take ?n (startable ob) \<noteq> []" "a = StartCandidate (take ?n (startable ob))"
    using assms
    by (auto simp: start_action_def Let_def startable_def policy_replicas_def simp del: upt_Suc split: if_splits)
  have len: "length (take ?n (startable ob)) \<le> ?n"
    by (simp only: length_take min.cobounded2)
  show thesis
  proof (rule that [OF n(3,2)])
    show "distinct (take ?n (startable ob))" by simp
    show "set (take ?n (startable ob)) \<subseteq> {1 .. candidate_replicas ob} - candidate_active ob - candidate_terminal ob"
      using set_take_subset [of ?n "startable ob"] by (simp only: startable_set)
    show "length (take ?n (startable ob)) \<le> candidate_replicas ob - card (candidate_active ob)"
      using len by linarith
    show "card (previous_active ob) + card (candidate_active ob) + length (take ?n (startable ob))
        \<le> policy_replicas ob + max_surge p"
      using len n(1) by linarith
  qed
qed

lemma start_action_enabled:
  assumes "validate_observation ob p = Inr ()" and "candidate_terminal ob = {}"
    and "card (candidate_active ob) < candidate_replicas ob"
    and "card (previous_active ob) + card (candidate_active ob) < policy_replicas ob + max_surge p"
  shows "start_action ob p \<noteq> None"
  using assms startable_length [OF assms(1,2)]
  by (auto simp: start_action_def Let_def policy_replicas_def startable_def simp del: upt_Suc)

text \<open>A drain takes every replica that serves nobody, and of the ready ones only what the
  availability floor leaves over.\<close>

lemma drain_action_Some:
  assumes "validate_observation ob p = Inr ()" and "drain_action ob p = Some a"
  obtains os where "a = DrainPrevious os (drain_timeout_ms p)" "os \<noteq> []" "distinct os" "sorted os"
    "set os \<subseteq> previous_active ob" "previous_active ob - previous_ready ob \<subseteq> set os"
    "set os \<inter> previous_ready ob = {} \<or>
     candidate_replicas ob - max_unavailable p
       \<le> card (previous_ready ob - set os) + card (candidate_available ob)"
proof -
  let ?idle = "sorted_list_of_set (previous_active ob - previous_ready ob)"
  let ?b = "card (previous_ready ob) + card (candidate_available ob)
    - (candidate_replicas ob - max_unavailable p)"
  let ?taken = "take ?b (sorted_list_of_set (previous_ready ob))"
  note fin = accepted_finite [OF assms(1)]
  have sub: "previous_ready ob \<subseteq> previous_active ob"
    using assms(1) by (simp add: validate_observation_Inr)
  have a: "a = DrainPrevious (sort (?idle @ ?taken)) (drain_timeout_ms p)" "?idle @ ?taken \<noteq> []"
    using assms(2) by (auto simp: drain_action_def Let_def split: if_splits)
  have tk: "set ?taken \<subseteq> previous_ready ob"
    using set_take_subset [of ?b "sorted_list_of_set (previous_ready ob)"] fin(2) by simp
  have cnt: "card (set ?taken) = min ?b (card (previous_ready ob))"
    by (simp add: distinct_card)
  show thesis
  proof (rule that [OF a(1)])
    show "sort (?idle @ ?taken) \<noteq> []" using a(2) by (metis set_empty set_sort)
    show "distinct (sort (?idle @ ?taken))" using tk fin by auto
    show "sorted (sort (?idle @ ?taken))" by simp
    show "set (sort (?idle @ ?taken)) \<subseteq> previous_active ob" using tk fin sub by auto
    show "previous_active ob - previous_ready ob \<subseteq> set (sort (?idle @ ?taken))" using fin by auto
    have eq: "previous_ready ob - set (sort (?idle @ ?taken)) = previous_ready ob - set ?taken"
      "set (sort (?idle @ ?taken)) \<inter> previous_ready ob = set ?taken"
      using tk fin by auto
    have "card (previous_ready ob - set ?taken) = card (previous_ready ob) - card (set ?taken)"
      using tk by (intro card_Diff_subset) auto
    then show "set (sort (?idle @ ?taken)) \<inter> previous_ready ob = {} \<or>
        candidate_replicas ob - max_unavailable p
          \<le> card (previous_ready ob - set (sort (?idle @ ?taken))) + card (candidate_available ob)"
      unfolding eq cnt by (cases "?b = 0") auto
  qed
qed

lemma drain_action_enabled:
  assumes "validate_observation ob p = Inr ()" and "previous_active ob \<noteq> {}"
    and "previous_ready ob = previous_active ob"
    and "candidate_replicas ob - max_unavailable p < card (previous_ready ob) + card (candidate_available ob)"
  shows "drain_action ob p \<noteq> None"
proof -
  have "sorted_list_of_set (previous_ready ob) \<noteq> []"
    using assms(2,3) accepted_finite(2) [OF assms(1)] by simp
  with assms show ?thesis by (simp add: drain_action_def Let_def)
qed

section \<open>Safety of one decision\<close>

lemma next_rolling_Start:
  assumes "next_rolling ob p = Inr (StartCandidate os)"
  shows "validate_observation ob p = Inr ()" "start_action ob p = Some (StartCandidate os)"
    "candidate_terminal ob = {}"
proof -
  show v: "validate_observation ob p = Inr ()" "candidate_terminal ob = {}"
    using assms by (auto simp: next_rolling_def result_simps split: if_splits)
  have "drain_action ob p \<noteq> Some (StartCandidate os)"
    using drain_action_Some [OF v(1)] by blast
  then show "start_action ob p = Some (StartCandidate os)"
    using assms by (auto simp: next_rolling_def result_simps or_else_def
        split: if_splits option.splits rolling_order.splits)
qed

lemma next_rolling_Drain:
  assumes "next_rolling ob p = Inr (DrainPrevious os t)"
  shows "validate_observation ob p = Inr ()" "drain_action ob p = Some (DrainPrevious os t)"
proof -
  show "validate_observation ob p = Inr ()"
    using assms by (auto simp: next_rolling_def result_simps split: if_splits)
  have "start_action ob p \<noteq> Some (DrainPrevious os t)"
    using start_action_Some by blast
  then show "drain_action ob p = Some (DrainPrevious os t)"
    using assms by (auto simp: next_rolling_def result_simps or_else_def
        split: if_splits option.splits rolling_order.splits)
qed

text \<open>C11: the scheduler respects both budgets.  The replicas it starts are inactive candidate
  ordinals, each named once, and with them the number of active replicas stays within
  \<^verbatim>\<open>max(previous, candidate) + max_surge\<close>.  The replicas it drains are active previous
  replicas, each named once, and if a ready one is among them the ready capacity that remains is
  at least \<^verbatim>\<open>candidate_replicas - max_unavailable\<close>.\<close>

theorem rolling_budgets:
  "(next_rolling ob p = Inr (StartCandidate os) \<longrightarrow>
      os \<noteq> [] \<and> distinct os \<and> set os \<subseteq> {1 .. candidate_replicas ob} - candidate_active ob \<and>
      card (previous_active ob) + card (candidate_active ob \<union> set os)
        \<le> max (previous_replicas ob) (candidate_replicas ob) + max_surge p) \<and>
   (next_rolling ob p = Inr (DrainPrevious os t) \<longrightarrow>
      os \<noteq> [] \<and> distinct os \<and> set os \<subseteq> previous_active ob \<and> t = drain_timeout_ms p \<and>
      (set os \<inter> previous_ready ob \<noteq> {} \<longrightarrow>
        candidate_replicas ob - max_unavailable p
          \<le> card (previous_ready ob - set os) + card (candidate_available ob)))"
proof (intro conjI impI)
  assume st: "next_rolling ob p = Inr (StartCandidate os)"
  note v = next_rolling_Start [OF st]
  from v(2) obtain "os \<noteq> []" "distinct os"
    "set os \<subseteq> {1 .. candidate_replicas ob} - candidate_active ob - candidate_terminal ob"
    "card (previous_active ob) + card (candidate_active ob) + length os \<le> policy_replicas ob + max_surge p"
    by (rule start_action_Some) simp
  then show "os \<noteq> []" "distinct os" "set os \<subseteq> {1 .. candidate_replicas ob} - candidate_active ob"
    "card (previous_active ob) + card (candidate_active ob \<union> set os)
        \<le> max (previous_replicas ob) (candidate_replicas ob) + max_surge p"
    using card_Un_le [of "candidate_active ob" "set os"]
    by (auto simp: policy_replicas_def distinct_card)
next
  assume dr: "next_rolling ob p = Inr (DrainPrevious os t)"
  note v = next_rolling_Drain [OF dr]
  obtain d: "os \<noteq> []" "distinct os" "set os \<subseteq> previous_active ob" "t = drain_timeout_ms p"
    "set os \<inter> previous_ready ob = {} \<or> candidate_replicas ob - max_unavailable p
       \<le> card (previous_ready ob - set os) + card (candidate_available ob)"
    using drain_action_Some [OF v] by (metis rolling_action.inject(2))
  then show "os \<noteq> []" "distinct os" "set os \<subseteq> previous_active ob" "t = drain_timeout_ms p"
    by auto
  assume "set os \<inter> previous_ready ob \<noteq> {}"
  with d(5) show "candidate_replicas ob - max_unavailable p
      \<le> card (previous_ready ob - set os) + card (candidate_available ob)"
    by auto
qed

definition demo_policy :: rolling_update_policy where
  "demo_policy = default_policy\<lparr>max_surge := 1, max_unavailable := 0\<rparr>"

definition demo_ob :: rolling_observation where
  "demo_ob = \<lparr>previous_replicas = 2, candidate_replicas = 2, previous_active = {1, 2},
     previous_ready = {1, 2}, candidate_active = {1}, candidate_ready = {1},
     candidate_available = {1}, candidate_terminal = {}, elapsed_since_progress_ms = 0\<rparr>"

lemma demo_ob_next: "next_rolling demo_ob demo_policy = Inr (DrainPrevious [1] 30000)"
  by (simp add: demo_ob_def demo_policy_def default_policy_def next_rolling_def validate_observation_def
      validate_policy_def policy_replicas_def rolling_consts checked_add_def start_action_def
      drain_action_def or_else_def Let_def sorted_list_of_set_insert_remove)

theorem rolling_budgets_witness:
  "next_rolling demo_ob demo_policy = Inr (DrainPrevious [1] 30000) \<and>
   candidate_replicas demo_ob - max_unavailable demo_policy
     \<le> card (previous_ready demo_ob - set [1]) + card (candidate_available demo_ob)"
  using demo_ob_next rolling_budgets [of demo_ob demo_policy "[1]" 30000]
  by (simp add: demo_ob_def)

section \<open>Progress\<close>

text \<open>A settled observation: what was started has become available, what is still active of the
  previous generation is ready, and no candidate has failed.\<close>

definition settled :: "rolling_observation \<Rightarrow> bool" where
  "settled ob \<longleftrightarrow> candidate_available ob = candidate_active ob \<and>
     candidate_ready ob = candidate_active ob \<and> previous_ready ob = previous_active ob \<and>
     candidate_terminal ob = {}"

lemma settled_action:
  assumes v: "validate_observation ob p = Inr ()" and st: "settled ob"
    and open_: "\<not> (previous_active ob = {} \<and> card (candidate_available ob) = candidate_replicas ob)"
  shows "start_action ob p \<noteq> None \<or> drain_action ob p \<noteq> None"
proof -
  let ?c = "card (candidate_active ob)" and ?p = "card (previous_active ob)"
  have s: "candidate_available ob = candidate_active ob" "previous_ready ob = previous_active ob"
    "candidate_terminal ob = {}"
    using st by (simp_all add: settled_def)
  have pol: "max_surge p > 0 \<or> max_unavailable p > 0"
    using v validate_policy_Inr [of p "policy_replicas ob"] by (auto simp: validate_observation_Inr)
  have cap: "candidate_replicas ob \<le> policy_replicas ob" by (simp add: policy_replicas_def)
  have le: "?c \<le> candidate_replicas ob" using accepted_finite(6) [OF v] .
  show ?thesis
  proof (cases "?c < candidate_replicas ob \<and> ?p + ?c < policy_replicas ob + max_surge p")
    case True
    then show ?thesis using start_action_enabled [OF v s(3)] by simp
  next
    case False
    have ne: "previous_active ob \<noteq> {}"
    proof
      assume "previous_active ob = {}"
      then show False using False open_ le cap s(1) by simp
    qed
    then have "0 < ?p" using accepted_finite(1) [OF v] by (simp add: card_gt_0_iff)
    then have "candidate_replicas ob - max_unavailable p < card (previous_ready ob) + card (candidate_available ob)"
      using False pol cap le unfolding s by linarith
    then show ?thesis using drain_action_enabled [OF v ne s(2)] by simp
  qed
qed

lemma settled_next:
  assumes "validate_observation ob p = Inr ()" and "settled ob"
    and "elapsed_since_progress_ms ob < progress_deadline_ms p"
    and "\<not> (previous_active ob = {} \<and> card (candidate_available ob) = candidate_replicas ob)"
  shows "\<exists>os. next_rolling ob p = Inr (StartCandidate os) \<or>
    next_rolling ob p = Inr (DrainPrevious os (drain_timeout_ms p))"
proof -
  have "\<exists>os. start_action ob p = Some a \<longrightarrow> a = StartCandidate os" for a
    using start_action_Some by blast
  moreover have "\<exists>os. drain_action ob p = Some a \<longrightarrow> a = DrainPrevious os (drain_timeout_ms p)" for a
    using drain_action_Some [OF assms(1)] by blast
  moreover have "start_action ob p \<noteq> None \<or> drain_action ob p \<noteq> None"
    using settled_action [OF assms(1,2,4)] .
  ultimately show ?thesis
    using assms
    by (cases "start_action ob p"; cases "drain_action ob p")
      (auto simp: next_rolling_def or_else_def settled_def split: rolling_order.split)
qed

text \<open>The scheduler cannot stall.  Whatever the order and the budgets of an accepted policy,
  an accepted, settled observation that is within its progress deadline and not complete is
  answered by a start or by a drain, never by waiting.\<close>

theorem rolling_never_stalls:
  assumes "validate_observation ob p = Inr ()" and "settled ob"
    and "elapsed_since_progress_ms ob < progress_deadline_ms p"
    and "\<not> (previous_active ob = {} \<and> card (candidate_available ob) = candidate_replicas ob)"
  shows "\<exists>os. next_rolling ob p = Inr (StartCandidate os) \<or>
    next_rolling ob p = Inr (DrainPrevious os (drain_timeout_ms p))"
  using assms by (rule settled_next)

theorem rolling_never_stalls_witness:
  "\<exists>os. next_rolling demo_ob demo_policy = Inr (StartCandidate os) \<or>
    next_rolling demo_ob demo_policy = Inr (DrainPrevious os (drain_timeout_ms demo_policy))"
proof (rule rolling_never_stalls)
  show "validate_observation demo_ob demo_policy = Inr ()"
    using demo_ob_next by (simp add: next_rolling_Drain(1))
qed (simp_all add: demo_ob_def demo_policy_def default_policy_def settled_def)

section \<open>Completion\<close>

text \<open>The world that carries an action out: the started replicas become available and the
  drained ones leave before the next observation, which resets the progress clock.\<close>

fun perform :: "rolling_action \<Rightarrow> rolling_observation \<Rightarrow> rolling_observation" where
  "perform (StartCandidate os) ob =
     ob\<lparr>candidate_active := candidate_active ob \<union> set os, candidate_ready := candidate_ready ob \<union> set os,
        candidate_available := candidate_available ob \<union> set os, elapsed_since_progress_ms := 0\<rparr>"
| "perform (DrainPrevious os _) ob =
     ob\<lparr>previous_active := previous_active ob - set os, previous_ready := previous_ready ob - set os,
        elapsed_since_progress_ms := 0\<rparr>"
| "perform _ ob = ob"

primrec drive :: "rolling_update_policy \<Rightarrow> nat \<Rightarrow> rolling_observation \<Rightarrow> rolling_observation" where
  "drive p 0 ob = ob"
| "drive p (Suc n) ob =
     (case next_rolling ob p of Inl _ \<Rightarrow> ob | Inr a \<Rightarrow> drive p n (perform a ob))"

definition remaining :: "rolling_observation \<Rightarrow> nat" where
  "remaining ob = (candidate_replicas ob - card (candidate_active ob)) + card (previous_active ob)"

definition serving :: "rolling_observation \<Rightarrow> nat" where
  "serving ob = card (previous_ready ob) + card (candidate_available ob)"

lemma perform_replicas [simp]:
  "candidate_replicas (perform a ob) = candidate_replicas ob"
  "previous_replicas (perform a ob) = previous_replicas ob"
  by (cases a; simp)+

lemma perform_start:
  assumes v: "validate_observation ob p = Inr ()" and st: "settled ob"
    and a: "start_action ob p = Some (StartCandidate os)"
  defines "ob' \<equiv> perform (StartCandidate os) ob"
  shows "validate_observation ob' p = Inr ()" "settled ob'" "remaining ob' < remaining ob"
    "serving ob \<le> serving ob'"
proof -
  from a obtain o: "os \<noteq> []" "distinct os"
    "set os \<subseteq> {1 .. candidate_replicas ob} - candidate_active ob - candidate_terminal ob"
    "length os \<le> candidate_replicas ob - card (candidate_active ob)"
    "card (previous_active ob) + card (candidate_active ob) + length os \<le> policy_replicas ob + max_surge p"
    by (rule start_action_Some) simp
  have s: "candidate_available ob = candidate_active ob" "candidate_ready ob = candidate_active ob"
    "candidate_terminal ob = {}" "previous_ready ob = previous_active ob"
    using st by (simp_all add: settled_def)
  have cd: "card (candidate_active ob \<union> set os) = card (candidate_active ob) + length os"
    using accepted_finite(3) [OF v] o(2,3) by (subst card_Un_disjoint) (auto simp: distinct_card)
  have "0 < length os" using o(1) by simp
  then have "candidate_replicas ob - (card (candidate_active ob) + length os)
      < candidate_replicas ob - card (candidate_active ob)"
    using o(4) by linarith
  then show "settled ob'" "remaining ob' < remaining ob" "serving ob \<le> serving ob'"
    using s cd by (simp_all add: ob'_def settled_def remaining_def serving_def)
  show "validate_observation ob' p = Inr ()"
    using v o(3,5) s unfolding validate_observation_Inr
    by (auto simp: ob'_def policy_replicas_def cd)
qed

lemma perform_drain:
  assumes v: "validate_observation ob p = Inr ()" and st: "settled ob"
    and a: "drain_action ob p = Some (DrainPrevious os t)"
  defines "ob' \<equiv> perform (DrainPrevious os t) ob"
  shows "validate_observation ob' p = Inr ()" "settled ob'" "remaining ob' < remaining ob"
    "candidate_replicas ob - max_unavailable p \<le> serving ob'"
proof -
  obtain o: "os \<noteq> []" "set os \<subseteq> previous_active ob"
    "set os \<inter> previous_ready ob = {} \<or> candidate_replicas ob - max_unavailable p
       \<le> card (previous_ready ob - set os) + card (candidate_available ob)"
    using drain_action_Some [OF v a] by (metis rolling_action.inject(2))
  have s: "candidate_available ob = candidate_active ob" "candidate_ready ob = candidate_active ob"
    "candidate_terminal ob = {}" "previous_ready ob = previous_active ob"
    using st by (simp_all add: settled_def)
  have fin: "finite (previous_active ob)" using accepted_finite(1) [OF v] .
  have "previous_active ob - set os \<subset> previous_active ob"
    using o(1,2) by (cases os) auto
  then have less: "card (previous_active ob - set os) < card (previous_active ob)"
    using fin by (rule psubset_card_mono [rotated])
  show "settled ob'" "remaining ob' < remaining ob"
    using s less by (simp_all add: ob'_def settled_def remaining_def)
  have "set os \<inter> previous_ready ob \<noteq> {}" using o(1,2) s(4) by (cases os) auto
  then show "candidate_replicas ob - max_unavailable p \<le> serving ob'"
    using o(3) by (simp add: ob'_def serving_def)
  show "validate_observation ob' p = Inr ()"
    using v less unfolding validate_observation_Inr by (auto simp: ob'_def policy_replicas_def)
qed

text \<open>One round from a settled observation, and by induction the whole update.\<close>

lemma settled_round:
  assumes "validate_observation ob p = Inr ()" and "settled ob"
    and "elapsed_since_progress_ms ob < progress_deadline_ms p"
    and "next_rolling ob p \<noteq> Inr Complete"
  obtains a where "next_rolling ob p = Inr a" "validate_observation (perform a ob) p = Inr ()"
    "settled (perform a ob)" "elapsed_since_progress_ms (perform a ob) < progress_deadline_ms p"
    "remaining (perform a ob) < remaining ob"
    "min (candidate_replicas ob - max_unavailable p) (serving ob) \<le> serving (perform a ob)"
proof -
  have "\<not> (previous_active ob = {} \<and> card (candidate_available ob) = candidate_replicas ob)"
    using assms(1,2,4) by (auto simp: next_rolling_def settled_def)
  then obtain a where a: "next_rolling ob p = Inr a"
    and cases: "(\<exists>os. a = StartCandidate os) \<or> (\<exists>os t. a = DrainPrevious os t)"
    using settled_next [OF assms(1-3)] by blast
  have pos: "0 < progress_deadline_ms p"
    using assms(3) by simp
  from cases show thesis
  proof (elim disjE exE)
    fix os
    assume "a = StartCandidate os"
    with a next_rolling_Start(2) [of ob p os] perform_start [OF assms(1,2), of os] pos show thesis
      by (intro that [of a]) auto
  next
    fix os t
    assume "a = DrainPrevious os t"
    with a next_rolling_Drain(2) [of ob p os t] perform_drain [OF assms(1,2), of os t] pos show thesis
      by (intro that [of a]) auto
  qed
qed

lemma drive_completes:
  assumes "validate_observation ob p = Inr ()" and "settled ob"
    and "elapsed_since_progress_ms ob < progress_deadline_ms p"
  shows "\<exists>n \<le> remaining ob. next_rolling (drive p n ob) p = Inr Complete \<and>
    (\<forall>i \<le> n. validate_observation (drive p i ob) p = Inr () \<and>
      min (candidate_replicas ob - max_unavailable p) (serving ob) \<le> serving (drive p i ob))"
  using assms
proof (induction "remaining ob" arbitrary: ob rule: less_induct)
  case less
  show ?case
  proof (cases "next_rolling ob p = Inr Complete")
    case True
    with less.prems show ?thesis by (intro exI [of _ 0]) simp
  next
    case False
    obtain a where a: "next_rolling ob p = Inr a" "validate_observation (perform a ob) p = Inr ()"
      "settled (perform a ob)" "elapsed_since_progress_ms (perform a ob) < progress_deadline_ms p"
      "remaining (perform a ob) < remaining ob"
      "min (candidate_replicas ob - max_unavailable p) (serving ob) \<le> serving (perform a ob)"
      using settled_round [OF less.prems False] by blast
    obtain n where n: "n \<le> remaining (perform a ob)"
      "next_rolling (drive p n (perform a ob)) p = Inr Complete"
      "\<forall>i \<le> n. validate_observation (drive p i (perform a ob)) p = Inr () \<and>
        min (candidate_replicas ob - max_unavailable p) (serving (perform a ob))
          \<le> serving (drive p i (perform a ob))"
      using less.hyps [OF a(5) a(2-4)] by auto
    have "validate_observation (drive p i ob) p = Inr () \<and>
        min (candidate_replicas ob - max_unavailable p) (serving ob) \<le> serving (drive p i ob)"
      if "i \<le> Suc n" for i
    proof (cases i)
      case 0
      then show ?thesis using less.prems(1) by simp
    next
      case (Suc j)
      then have "validate_observation (drive p j (perform a ob)) p = Inr ()"
        "min (candidate_replicas ob - max_unavailable p) (serving (perform a ob))
          \<le> serving (drive p j (perform a ob))"
        using n(3) that by simp_all
      then show ?thesis using Suc a(1,6) by (auto simp: min_le_iff_disj)
    qed
    then show ?thesis
      using n(1,2) a(1,5) by (intro exI [of _ "Suc n"]) auto
  qed
qed

text \<open>C1: rolling updates complete.  Starting from an accepted, settled observation within its
  deadline and carrying out each answer of the scheduler, the update reaches \<^verbatim>\<open>Complete\<close> after
  at most \<^verbatim>\<open>previous_replicas + candidate_replicas\<close> actions; every observation on the way is
  accepted again (so the surge limit holds throughout) and the serving capacity never falls
  below the smaller of its initial value and \<^verbatim>\<open>candidate_replicas - max_unavailable\<close>.\<close>

theorem rolling_update_completes:
  assumes "validate_observation ob p = Inr ()" and "settled ob"
    and "elapsed_since_progress_ms ob < progress_deadline_ms p"
  shows "\<exists>n \<le> previous_replicas ob + candidate_replicas ob.
    next_rolling (drive p n ob) p = Inr Complete \<and>
    (\<forall>i \<le> n. validate_observation (drive p i ob) p = Inr () \<and>
      min (candidate_replicas ob - max_unavailable p) (serving ob) \<le> serving (drive p i ob))"
proof -
  have "remaining ob \<le> previous_replicas ob + candidate_replicas ob"
    using accepted_finite(7) [OF assms(1)] by (simp add: remaining_def)
  with drive_completes [OF assms] show ?thesis by (meson order_trans)
qed

theorem rolling_update_completes_witness:
  "\<exists>n \<le> 4. next_rolling (drive demo_policy n demo_ob) demo_policy = Inr Complete \<and>
    (\<forall>i \<le> n. 2 \<le> serving (drive demo_policy i demo_ob))"
proof -
  have "validate_observation demo_ob demo_policy = Inr ()"
    using demo_ob_next by (simp add: next_rolling_Drain(1))
  moreover have "settled demo_ob" "elapsed_since_progress_ms demo_ob < progress_deadline_ms demo_policy"
    by (simp_all add: demo_ob_def demo_policy_def default_policy_def settled_def)
  ultimately have "\<exists>n \<le> previous_replicas demo_ob + candidate_replicas demo_ob.
    next_rolling (drive demo_policy n demo_ob) demo_policy = Inr Complete \<and>
    (\<forall>i \<le> n. validate_observation (drive demo_policy i demo_ob) demo_policy = Inr () \<and>
      min (candidate_replicas demo_ob - max_unavailable demo_policy) (serving demo_ob)
        \<le> serving (drive demo_policy i demo_ob))"
    by (rule rolling_update_completes)
  moreover have "previous_replicas demo_ob + candidate_replicas demo_ob = 4"
    "min (candidate_replicas demo_ob - max_unavailable demo_policy) (serving demo_ob) = 2"
    by (simp_all add: demo_ob_def demo_policy_def default_policy_def serving_def)
  ultimately show ?thesis by auto
qed

end
