(* ===== verification/Sealed.thy ===== *)
theory Sealed
  imports Prelude
begin

text \<open>
  Documents that carry the digest of their own serialisation.  Every persisted document of the
  engine is sealed the same way: the digest field is cleared, the document is serialised by
  \<^verbatim>\<open>serde_json\<close> and hashed, and the result is stored in the field; reading a document checks the
  field.  The serialiser and the hash are third-party code, gathered in a \<open>codec\<close>.

  The interface \<open>sealed_document\<close> states what such a document type provides; its lemmas say that
  sealing yields a document that passes the check, that sealing a checked document changes
  nothing, and that two checked documents with one digest have the same serialisation hash.
\<close>

record 'd codec =
  to_vec :: "'d \<Rightarrow> bytes option"
  sha256hex :: "bytes \<Rightarrow> string"

text \<open>What the code relies on: a SHA-256 digest prints as 64 lowercase hexadecimal digits, and
  serialising these plain data types does not fail.\<close>

definition codec_ok :: "'d codec \<Rightarrow> bool" where
  "codec_ok c \<longleftrightarrow> (\<forall>b. is_digest (sha256hex c b)) \<and> (\<forall>d. to_vec c d \<noteq> None)"

locale sealed_document =
  fixes digest :: "'d \<Rightarrow> string"
    and with_digest :: "string \<Rightarrow> 'd \<Rightarrow> 'd"
    and compute :: "'d \<Rightarrow> 'e + string"
  assumes digest_with: "digest (with_digest s d) = s"
    and with_with: "with_digest s (with_digest t d) = with_digest s d"
    and with_same: "with_digest (digest d) d = d"
    and compute_with: "compute (with_digest s d) = compute d"
begin

lemma sealed_verifies: "compute d = Inr s \<Longrightarrow> compute (with_digest s d) = Inr (digest (with_digest s d))"
  by (simp add: compute_with digest_with)

lemma seal_idempotent: "compute d = Inr (digest d) \<Longrightarrow> compute d = Inr s \<Longrightarrow> with_digest s d = d"
  using with_same [of d] by simp

lemma seal_overwrites: "compute (with_digest t d) = Inr s \<Longrightarrow> with_digest s (with_digest t d) = with_digest s d"
  by (rule with_with)

lemma same_digest_same_hash:
  "compute d = Inr (digest d) \<Longrightarrow> compute e = Inr (digest e) \<Longrightarrow> digest d = digest e \<Longrightarrow> compute d = compute e"
  by simp

end

end
