(* ===== verification/Plan.thy ===== *)
theory Plan
  imports Composition Limits Rolling Sealed
begin

text \<open>
  Stack manifests and plans of \<^verbatim>\<open>crates/cartridge-engine/src/lib.rs\<close>: the data an operator writes,
  the plan that pins it to packages, and their checks.  Sets of capabilities and names are sets.
  Third-party code enters as arguments: \<open>version_ok\<close> and \<open>requirement_ok\<close> (\<^verbatim>\<open>semver\<close>) and a
  \<open>stack_plan codec\<close> (\<^verbatim>\<open>serde_json\<close>, \<^verbatim>\<open>sha2\<close>, \<^verbatim>\<open>hex\<close>).  What \<^verbatim>\<open>plan_instance\<close> reads from the
  package library before it decides (catalog record, archive manifest, composition lock) is an
  argument of \<open>plan_instance\<close>.

  Shown here: every instance of an accepted plan is allowed exactly what the profile of the plan
  and the request, grants and blocks of the instance determine; planning produces capability sets that pass the later check;
  the aggregate replica and surge limits hold; stopping a plan changes nothing but the desired
  states.
\<close>

section \<open>Data\<close>

definition STACK_FORMAT_VERSION :: nat where "STACK_FORMAT_VERSION = 1"
definition STACK_PLAN_FORMAT_VERSION :: nat where "STACK_PLAN_FORMAT_VERSION = 4"
definition LEGACY_STACK_PLAN_FORMAT_VERSION :: nat where "LEGACY_STACK_PLAN_FORMAT_VERSION = 2"
definition HEALTH_STACK_PLAN_FORMAT_VERSION :: nat where "HEALTH_STACK_PLAN_FORMAT_VERSION = 3"
definition MAX_STACK_INSTANCES :: nat where "MAX_STACK_INSTANCES = 64"
definition MAX_STACK_TOTAL_REPLICAS :: nat where "MAX_STACK_TOTAL_REPLICAS = 256"
definition MAX_STACK_TOTAL_SURGE_REPLICAS :: nat where "MAX_STACK_TOTAL_SURGE_REPLICAS = 64"
definition MAX_STACK_RESTARTS :: nat where "MAX_STACK_RESTARTS = 64"
definition MAX_STACK_RESOURCES :: nat where "MAX_STACK_RESOURCES = 128"
definition MAX_STACK_SECRETS :: nat where "MAX_STACK_SECRETS = 128"
definition MAX_STACK_ARGUMENTS :: nat where "MAX_STACK_ARGUMENTS = 256"
definition MAX_STACK_ARGUMENT_BYTES :: nat where "MAX_STACK_ARGUMENT_BYTES = 64 * 1024"
definition MAX_STACK_PLAN_BYTES :: nat where "MAX_STACK_PLAN_BYTES = 8 * 1024 * 1024"
definition MIN_PROBE_TIMEOUT_MS :: nat where "MIN_PROBE_TIMEOUT_MS = 100"
definition MAX_PROBE_TIMEOUT_MS :: nat where "MAX_PROBE_TIMEOUT_MS = 5 * 60 * 1000"
definition MAX_PROBE_FAILURE_THRESHOLD :: nat where "MAX_PROBE_FAILURE_THRESHOLD = 10"

lemmas plan_consts = STACK_FORMAT_VERSION_def STACK_PLAN_FORMAT_VERSION_def
  LEGACY_STACK_PLAN_FORMAT_VERSION_def HEALTH_STACK_PLAN_FORMAT_VERSION_def MAX_STACK_INSTANCES_def
  MAX_STACK_TOTAL_REPLICAS_def MAX_STACK_TOTAL_SURGE_REPLICAS_def MAX_STACK_RESTARTS_def
  MAX_STACK_RESOURCES_def MAX_STACK_SECRETS_def MAX_STACK_ARGUMENTS_def MAX_STACK_ARGUMENT_BYTES_def
  MAX_STACK_PLAN_BYTES_def MIN_PROBE_TIMEOUT_MS_def MAX_PROBE_TIMEOUT_MS_def MAX_PROBE_FAILURE_THRESHOLD_def

datatype security_profile = Strict | Balanced | Permissive
datatype sandbox_policy = Required | Preferred | Disabled
datatype desired_state = Running | Stopped
datatype restart_policy = Never | OnFailure | Always
datatype stack_capability = Clock | Random | Assets | StorageCap | Graphics | Audio | Midi | Http | Serve
datatype resource_kind = State | Blob
datatype retention_policy = Retain | DeleteData

datatype plan_error =
    HealthPolicyInvalid | LimitsInvalid limit_error | RollingPolicyInvalid rolling_error
  | CompositionInvalid lock_error | ArgumentSizeOverflow | InstanceInvalid
  | CollectionCountInvalid | ReplicaCountOverflow | SurgeCountOverflow | DuplicateInstance
  | AggregateLimit | ResourceInvalid | SecretInvalid | UndeclaredSecret
  | PlanIdentityInvalid | PlanInstanceInvalid | InstancesNotSorted | PackageMismatch
  | CapabilityPolicyInconsistent | PlanCollectionInvalid | PlanTooLarge | PlanNotSerializable
  | CapabilityNotRequested

record health_probe_spec =
  startup_timeout_ms :: nat
  readiness_timeout_ms :: nat
  liveness_timeout_ms :: nat
  failure_threshold :: nat

record instance_spec =
  is_name :: string
  is_cartridge :: string
  is_version :: string
  is_replicas :: nat
  is_desired :: desired_state
  is_restart :: restart_policy
  is_max_restarts :: nat
  is_allow :: "stack_capability set"
  is_deny :: "stack_capability set"
  is_args :: "string list"
  is_secrets :: "string set"
  is_limits :: instance_limits
  is_health :: "health_probe_spec option"
  is_update :: rolling_update_policy

record resource_spec =
  re_name :: string
  re_kind :: resource_kind
  re_owner :: string
  re_retention :: retention_policy
  re_quota_bytes :: "nat option"

record secret_spec =
  se_name :: string
  se_required :: bool

record stack_security =
  ss_profile :: security_profile
  ss_sandbox :: sandbox_policy

record stack_manifest =
  sm_format_version :: nat
  sm_name :: string
  sm_security :: stack_security
  sm_instances :: "instance_spec list"
  sm_resources :: "resource_spec list"
  sm_secrets :: "secret_spec list"

record planned_instance =
  pi_name :: string
  pi_cartridge_id :: string
  pi_version :: string
  pi_package_sha256 :: string
  pi_package_bytes :: nat
  pi_replicas :: nat
  pi_desired :: desired_state
  pi_restart :: restart_policy
  pi_max_restarts :: nat
  pi_requested :: "stack_capability set"
  pi_granted :: "stack_capability set"
  pi_blocked :: "stack_capability set"
  pi_allowed :: "stack_capability set"
  pi_denied :: "stack_capability set"
  pi_args :: "string list"
  pi_secrets :: "string set"
  pi_limits :: runtime_limits
  pi_health :: "health_probe_spec option"
  pi_update :: rolling_update_policy
  pi_composition :: composition_lock

record stack_plan =
  pl_format_version :: nat
  pl_stack :: string
  pl_security :: stack_security
  pl_instances :: "planned_instance list"
  pl_resources :: "resource_spec list"
  pl_secrets :: "secret_spec list"
  pl_warnings :: "string list"
  pl_plan_sha256 :: string

section \<open>Manifest checks\<close>

definition validate_health_probe :: "health_probe_spec \<Rightarrow> plan_error + unit" where
  "validate_health_probe h =
     fail_if (list_ex (\<lambda>t. \<not> (MIN_PROBE_TIMEOUT_MS \<le> t \<and> t \<le> MAX_PROBE_TIMEOUT_MS))
         [startup_timeout_ms h, readiness_timeout_ms h, liveness_timeout_ms h] \<or>
       readiness_timeout_ms h < startup_timeout_ms h \<or> failure_threshold h = 0 \<or>
       failure_threshold h > MAX_PROBE_FAILURE_THRESHOLD)
     HealthPolicyInvalid"

definition validate_health_option :: "health_probe_spec option \<Rightarrow> plan_error + unit" where
  "validate_health_option h = (case h of None \<Rightarrow> Inr () | Some s \<Rightarrow> validate_health_probe s)"

definition argument_bytes :: "string list \<Rightarrow> plan_error + nat" where
  "argument_bytes args = try_fold (\<lambda>n arg. ok_or (checked_add 64 n (length arg)) ArgumentSizeOverflow) 0 args"

definition validate_instance :: "(string \<Rightarrow> bool) \<Rightarrow> instance_spec \<Rightarrow> plan_error + unit" where
  "validate_instance requirement_ok i =
     and_then (map_err LimitsInvalid (limits_ceiling (is_limits i))) (\<lambda>_.
     and_then (validate_health_option (is_health i)) (\<lambda>_.
     and_then (map_err RollingPolicyInvalid (validate_policy (is_update i) (is_replicas i))) (\<lambda>_.
     and_then (argument_bytes (is_args i)) (\<lambda>arg_bytes.
     fail_if (\<not> valid_name (is_name i) \<or> \<not> valid_cartridge_id (is_cartridge i) \<or>
       length (is_version i) > 128 \<or> \<not> requirement_ok (is_version i) \<or> is_replicas i = 0 \<or>
       is_replicas i > MAX_STACK_REPLICAS \<or> is_max_restarts i > MAX_STACK_RESTARTS \<or>
       length (is_args i) > MAX_STACK_ARGUMENTS \<or> arg_bytes > MAX_STACK_ARGUMENT_BYTES \<or>
       list_ex (\<lambda>a. \<not> valid_text a 4096 True) (is_args i) \<or> is_allow i \<inter> is_deny i \<noteq> {} \<or>
       \<not> Set.Ball (is_secrets i) valid_name)
     InstanceInvalid))))"

text \<open>One iteration of the instance loop of \<^verbatim>\<open>StackManifest::validate\<close>: names seen, replica and
  surge totals (\<^verbatim>\<open>u16\<close>).\<close>

definition manifest_instance ::
    "(string \<Rightarrow> bool) \<Rightarrow> string set \<times> nat \<times> nat \<Rightarrow> instance_spec \<Rightarrow> plan_error + (string set \<times> nat \<times> nat)" where
  "manifest_instance requirement_ok acc i =
     (case acc of (names, replicas, surge) \<Rightarrow>
      and_then (validate_instance requirement_ok i) (\<lambda>_.
      and_then (ok_or (checked_add 16 replicas (is_replicas i)) ReplicaCountOverflow) (\<lambda>replicas'.
      and_then (ok_or (checked_add 16 surge (max_surge (is_update i))) SurgeCountOverflow) (\<lambda>surge'.
      and_then (fail_if (is_name i \<in> names) DuplicateInstance) (\<lambda>_.
      Inr (insert (is_name i) names, replicas', surge'))))))"

definition quota_invalid :: "nat option \<Rightarrow> bool" where
  "quota_invalid q \<longleftrightarrow> (case q of None \<Rightarrow> False | Some v \<Rightarrow> v = 0 \<or> v > 64 * 2 ^ 30)"

definition manifest_resource ::
    "string set \<Rightarrow> string set \<Rightarrow> resource_spec \<Rightarrow> plan_error + string set" where
  "manifest_resource instances names r =
     and_then (fail_if (\<not> valid_name (re_name r) \<or> re_owner r \<notin> instances \<or>
         quota_invalid (re_quota_bytes r) \<or> re_name r \<in> names) ResourceInvalid) (\<lambda>_.
     Inr (insert (re_name r) names))"

definition manifest_secret :: "string set \<Rightarrow> secret_spec \<Rightarrow> plan_error + string set" where
  "manifest_secret names s =
     and_then (fail_if (\<not> valid_name (se_name s) \<or> se_name s \<in> names) SecretInvalid) (\<lambda>_.
     Inr (insert (se_name s) names))"

definition validate_manifest :: "(string \<Rightarrow> bool) \<Rightarrow> stack_manifest \<Rightarrow> plan_error + unit" where
  "validate_manifest requirement_ok m =
     and_then (fail_if (sm_format_version m \<noteq> STACK_FORMAT_VERSION \<or> \<not> valid_name (sm_name m) \<or>
         sm_instances m = [] \<or> length (sm_instances m) > MAX_STACK_INSTANCES \<or>
         length (sm_resources m) > MAX_STACK_RESOURCES \<or> length (sm_secrets m) > MAX_STACK_SECRETS)
       CollectionCountInvalid) (\<lambda>_.
     and_then (try_fold (manifest_instance requirement_ok) ({}, 0, 0) (sm_instances m))
       (\<lambda>(instances, total_replicas, total_surge).
     and_then (fail_if (total_replicas > MAX_STACK_TOTAL_REPLICAS \<or>
         total_surge > MAX_STACK_TOTAL_SURGE_REPLICAS) AggregateLimit) (\<lambda>_.
     and_then (try_fold (manifest_resource instances) {} (sm_resources m)) (\<lambda>_.
     and_then (try_fold manifest_secret {} (sm_secrets m)) (\<lambda>secrets.
     fail_if (list_ex (\<lambda>i. \<not> is_secrets i \<subseteq> secrets) (sm_instances m)) UndeclaredSecret)))))"

section \<open>Plan checks\<close>

definition balanced_capabilities :: "stack_capability set" where
  "balanced_capabilities = {Clock, Assets, Graphics, Audio}"

text \<open>The allowed set before blocks are taken out, by security profile.\<close>

definition profile_allowed ::
    "security_profile \<Rightarrow> stack_capability set \<Rightarrow> stack_capability set \<Rightarrow> stack_capability set" where
  "profile_allowed profile requested granted =
     (case profile of
        Strict \<Rightarrow> granted
      | Balanced \<Rightarrow> (requested \<inter> balanced_capabilities) \<union> granted
      | Permissive \<Rightarrow> requested)"

definition validate_planned_capabilities :: "planned_instance \<Rightarrow> security_profile \<Rightarrow> plan_error + unit" where
  "validate_planned_capabilities i profile =
     (let expected_allowed = profile_allowed profile (pi_requested i) (pi_granted i) - pi_blocked i;
          expected_denied = pi_requested i - pi_allowed i
      in fail_if (expected_allowed \<noteq> pi_allowed i \<or> expected_denied \<noteq> pi_denied i)
           CapabilityPolicyInconsistent)"

definition validate_planned_instance ::
    "(string \<Rightarrow> bool) \<Rightarrow> planned_instance \<Rightarrow> security_profile \<Rightarrow> string set \<Rightarrow> plan_error + unit" where
  "validate_planned_instance version_ok i profile declared_secrets =
     and_then (map_err LimitsInvalid (validate_runtime_limits (pi_limits i))) (\<lambda>_.
     and_then (validate_health_option (pi_health i)) (\<lambda>_.
     and_then (map_err RollingPolicyInvalid (validate_policy (pi_update i) (pi_replicas i))) (\<lambda>_.
     and_then (argument_bytes (pi_args i)) (\<lambda>arg_bytes.
     and_then (fail_if (\<not> valid_name (pi_name i) \<or> \<not> valid_cartridge_id (pi_cartridge_id i) \<or>
         \<not> version_ok (pi_version i) \<or> \<not> is_digest (pi_package_sha256 i) \<or>
         pi_package_bytes i = 0 \<or> pi_package_bytes i > 160 * 1024 * 1024 \<or>
         pi_replicas i = 0 \<or> pi_replicas i > MAX_STACK_REPLICAS \<or>
         pi_max_restarts i > MAX_STACK_RESTARTS \<or>
         \<not> pi_allowed i \<subseteq> pi_requested i \<or> \<not> pi_denied i \<subseteq> pi_requested i \<or>
         \<not> pi_granted i \<subseteq> pi_requested i \<or> \<not> pi_blocked i \<subseteq> pi_requested i \<or>
         pi_granted i \<inter> pi_blocked i \<noteq> {} \<or> pi_allowed i \<inter> pi_denied i \<noteq> {} \<or>
         pi_allowed i \<union> pi_denied i \<noteq> pi_requested i \<or>
         length (pi_args i) > MAX_STACK_ARGUMENTS \<or> arg_bytes > MAX_STACK_ARGUMENT_BYTES \<or>
         list_ex (\<lambda>a. \<not> valid_text a 4096 True) (pi_args i) \<or>
         \<not> Set.Ball (pi_secrets i) (\<lambda>s. valid_name s \<and> s \<in> declared_secrets))
       PlanInstanceInvalid) (\<lambda>_.
     and_then (map_err CompositionInvalid (validate_lock version_ok (pi_composition i))) (\<lambda>_.
     let root = cl_root (pi_composition i) in
     and_then (fail_if (lp_cartridge_id root \<noteq> pi_cartridge_id i \<or> lp_version root \<noteq> pi_version i \<or>
         lp_package_sha256 root \<noteq> pi_package_sha256 i \<or> lp_package_bytes root \<noteq> pi_package_bytes i)
       PackageMismatch) (\<lambda>_.
     validate_planned_capabilities i profile)))))))"

definition planned_step ::
    "(string \<Rightarrow> bool) \<Rightarrow> security_profile \<Rightarrow> string set
      \<Rightarrow> string set \<times> string option \<times> nat \<times> nat \<Rightarrow> planned_instance
      \<Rightarrow> plan_error + (string set \<times> string option \<times> nat \<times> nat)" where
  "planned_step version_ok profile declared acc i =
     (case acc of (names, previous, replicas, surge) \<Rightarrow>
      and_then (validate_planned_instance version_ok i profile declared) (\<lambda>_.
      and_then (ok_or (checked_add 16 replicas (pi_replicas i)) ReplicaCountOverflow) (\<lambda>replicas'.
      and_then (ok_or (checked_add 16 surge (max_surge (pi_update i))) SurgeCountOverflow) (\<lambda>surge'.
      and_then (fail_if ((case previous of None \<Rightarrow> False | Some p \<Rightarrow> p \<ge> pi_name i) \<or> pi_name i \<in> names)
        InstancesNotSorted) (\<lambda>_.
      Inr (insert (pi_name i) names, Some (pi_name i), replicas', surge'))))))"

definition validate_planned_instances ::
    "(string \<Rightarrow> bool) \<Rightarrow> planned_instance list \<Rightarrow> security_profile \<Rightarrow> secret_spec list
      \<Rightarrow> plan_error + string set" where
  "validate_planned_instances version_ok is profile secrets =
     and_then (try_fold (planned_step version_ok profile (se_name ` set secrets)) ({}, None, 0, 0) is)
       (\<lambda>(names, _, total_replicas, total_surge).
     and_then (fail_if (total_replicas > MAX_STACK_TOTAL_REPLICAS \<or>
         total_surge > MAX_STACK_TOTAL_SURGE_REPLICAS) AggregateLimit) (\<lambda>_.
     Inr names))"

definition planned_resource ::
    "string set \<Rightarrow> string option \<Rightarrow> resource_spec \<Rightarrow> plan_error + string option" where
  "planned_resource instances previous r =
     and_then (fail_if (\<not> valid_name (re_name r) \<or> re_owner r \<notin> instances \<or>
         quota_invalid (re_quota_bytes r) \<or>
         (case previous of None \<Rightarrow> False | Some p \<Rightarrow> p \<ge> re_name r)) ResourceInvalid) (\<lambda>_.
     Inr (Some (re_name r)))"

definition planned_secret :: "string option \<Rightarrow> secret_spec \<Rightarrow> plan_error + string option" where
  "planned_secret previous s =
     and_then (fail_if (\<not> valid_name (se_name s) \<or>
         (case previous of None \<Rightarrow> False | Some p \<Rightarrow> p \<ge> se_name s)) SecretInvalid) (\<lambda>_.
     Inr (Some (se_name s)))"

definition plan_sha256 :: "stack_plan codec \<Rightarrow> stack_plan \<Rightarrow> plan_error + string" where
  "plan_sha256 c p =
     and_then (ok_or (to_vec c (p\<lparr>pl_plan_sha256 := []\<rparr>)) PlanNotSerializable) (\<lambda>b.
     and_then (fail_if (length b > MAX_STACK_PLAN_BYTES) PlanTooLarge) (\<lambda>_.
     Inr (sha256hex c b)))"

text \<open>The identity check stops at the first failing disjunct, so the digest is computed last.\<close>

definition validate_plan :: "stack_plan codec \<Rightarrow> (string \<Rightarrow> bool) \<Rightarrow> stack_plan \<Rightarrow> plan_error + unit" where
  "validate_plan c version_ok p =
     and_then (fail_if (pl_format_version p \<notin> {LEGACY_STACK_PLAN_FORMAT_VERSION,
           HEALTH_STACK_PLAN_FORMAT_VERSION, STACK_PLAN_FORMAT_VERSION} \<or>
         pl_format_version p = LEGACY_STACK_PLAN_FORMAT_VERSION \<and>
           list_ex (\<lambda>i. pi_health i \<noteq> None \<or> \<not> is_default_policy (pi_update i)) (pl_instances p) \<or>
         pl_format_version p = HEALTH_STACK_PLAN_FORMAT_VERSION \<and>
           list_ex (\<lambda>i. \<not> is_default_policy (pi_update i)) (pl_instances p) \<or>
         \<not> valid_name (pl_stack p) \<or> pl_instances p = [] \<or>
         length (pl_instances p) > MAX_STACK_INSTANCES \<or> \<not> is_digest (pl_plan_sha256 p))
       PlanIdentityInvalid) (\<lambda>_.
     and_then (plan_sha256 c p) (\<lambda>computed.
     and_then (fail_if (computed \<noteq> pl_plan_sha256 p) PlanIdentityInvalid) (\<lambda>_.
     and_then (validate_planned_instances version_ok (pl_instances p) (ss_profile (pl_security p)) (pl_secrets p))
       (\<lambda>names.
     and_then (fail_if (length (pl_resources p) > MAX_STACK_RESOURCES \<or>
         length (pl_secrets p) > MAX_STACK_SECRETS \<or>
         length (pl_warnings p) > MAX_STACK_INSTANCES + 1 \<or>
         list_ex (\<lambda>w. \<not> valid_text w 512 False) (pl_warnings p)) PlanCollectionInvalid) (\<lambda>_.
     and_then (try_fold (planned_resource names) None (pl_resources p)) (\<lambda>_.
     and_then (try_fold planned_secret None (pl_secrets p)) (\<lambda>_. Inr ())))))))"

definition stopped_plan :: "stack_plan codec \<Rightarrow> (string \<Rightarrow> bool) \<Rightarrow> stack_plan \<Rightarrow> plan_error + stack_plan" where
  "stopped_plan c version_ok p =
     (let v = p\<lparr>pl_instances := map (\<lambda>i. i\<lparr>pi_desired := Stopped\<rparr>) (pl_instances p), pl_plan_sha256 := []\<rparr> in
      and_then (plan_sha256 c v) (\<lambda>s.
      let v' = v\<lparr>pl_plan_sha256 := s\<rparr> in
      and_then (validate_plan c version_ok v') (\<lambda>_. Inr v')))"

section \<open>Planning one instance\<close>

text \<open>\<^verbatim>\<open>plan_instance\<close> after its library lookups: \<open>record_id\<close>, \<open>record_version\<close>, \<open>record_sha256\<close>,
  \<open>record_bytes\<close> are the chosen catalog record, \<open>runtime\<close> and \<open>requested\<close> come from the archive's
  manifest, \<open>composition\<close> is its lock.\<close>

definition plan_instance ::
    "instance_spec \<Rightarrow> security_profile \<Rightarrow> string \<Rightarrow> string \<Rightarrow> string \<Rightarrow> nat \<Rightarrow> runtime_limits
      \<Rightarrow> stack_capability set \<Rightarrow> composition_lock \<Rightarrow> plan_error + planned_instance" where
  "plan_instance spec profile record_id record_version record_sha256 record_bytes runtime requested composition =
     and_then (map_err LimitsInvalid (limits_apply (is_limits spec) runtime)) (\<lambda>limits.
     and_then (fail_if (\<not> is_allow spec \<subseteq> requested \<or> \<not> is_deny spec \<subseteq> requested)
       CapabilityNotRequested) (\<lambda>_.
     let allowed = profile_allowed profile requested (is_allow spec) - is_deny spec;
         denied = requested - allowed in
     Inr \<lparr>pi_name = is_name spec, pi_cartridge_id = record_id, pi_version = record_version,
          pi_package_sha256 = record_sha256, pi_package_bytes = record_bytes,
          pi_replicas = is_replicas spec, pi_desired = is_desired spec, pi_restart = is_restart spec,
          pi_max_restarts = is_max_restarts spec, pi_requested = requested,
          pi_granted = is_allow spec, pi_blocked = is_deny spec, pi_allowed = allowed,
          pi_denied = denied, pi_args = is_args spec, pi_secrets = is_secrets spec,
          pi_limits = limits, pi_health = is_health spec, pi_update = is_update spec,
          pi_composition = composition\<rparr>))"

section \<open>Sealed plans\<close>

interpretation plan_seal: sealed_document pl_plan_sha256 "\<lambda>s p. p\<lparr>pl_plan_sha256 := s\<rparr>" "plan_sha256 c" for c
  by unfold_locales (simp_all add: plan_sha256_def)

section \<open>Accepted instances\<close>

lemma validate_planned_instance_Inr:
  assumes "validate_planned_instance v i profile declared = Inr ()"
  shows "validate_planned_capabilities i profile = Inr ()"
    and "pi_granted i \<inter> pi_blocked i = {}" "pi_granted i \<subseteq> pi_requested i" "pi_allowed i \<subseteq> pi_requested i"
    and "0 < pi_replicas i" "pi_replicas i \<le> MAX_STACK_REPLICAS" "pi_max_restarts i \<le> MAX_STACK_RESTARTS"
    and "validate_health_option (pi_health i) = Inr ()" "valid_name (pi_name i)"
    and "validate_policy (pi_update i) (pi_replicas i) = Inr ()"
  using assms by (auto simp: validate_planned_instance_def result_simps Let_def)

section \<open>Planning and checking agree\<close>

lemma planning_checked:
  assumes "validate_instance requirement_ok spec = Inr ()"
    and "plan_instance spec profile rid rversion rsha rbytes runtime requested lock = Inr i"
    and "validate_runtime_limits runtime = Inr ()"
    and "valid_cartridge_id rid" and "version_ok rversion" and "is_digest rsha"
    and "0 < rbytes" and "rbytes \<le> 160 * 1024 * 1024"
    and "validate_lock version_ok lock = Inr ()"
    and "lp_cartridge_id (cl_root lock) = rid" and "lp_version (cl_root lock) = rversion"
    and "lp_package_sha256 (cl_root lock) = rsha" and "lp_package_bytes (cl_root lock) = rbytes"
    and "is_secrets spec \<subseteq> declared"
  shows "validate_planned_instance version_ok i profile declared = Inr ()"
proof -
  obtain limits ceiling where l: "limits_ceiling (is_limits spec) = Inr ceiling" "limits = constrained_by runtime ceiling"
    and sub: "is_allow spec \<subseteq> requested" "is_deny spec \<subseteq> requested"
    and i: "pi_name i = is_name spec" "pi_cartridge_id i = rid" "pi_version i = rversion"
      "pi_package_sha256 i = rsha" "pi_package_bytes i = rbytes" "pi_replicas i = is_replicas spec"
      "pi_max_restarts i = is_max_restarts spec" "pi_requested i = requested" "pi_granted i = is_allow spec"
      "pi_blocked i = is_deny spec" "pi_args i = is_args spec" "pi_secrets i = is_secrets spec"
      "pi_limits i = limits" "pi_health i = is_health spec" "pi_update i = is_update spec" "pi_composition i = lock"
      "pi_allowed i = profile_allowed profile requested (is_allow spec) - is_deny spec"
      "pi_denied i = requested - pi_allowed i"
    using assms(2) by (auto simp: plan_instance_def result_simps Let_def limits_apply_def)
  have lim: "validate_runtime_limits (pi_limits i) = Inr ()"
    using constrained_by_valid [OF assms(3) limits_ceiling_valid [OF l(1)]] l(2) i(13) by simp
  have caps: "profile_allowed profile requested (is_allow spec) \<subseteq> requested"
    using sub by (cases profile) (auto simp: profile_allowed_def)
  obtain ab where spec: "validate_health_option (is_health spec) = Inr ()"
    "validate_policy (is_update spec) (is_replicas spec) = Inr ()" "argument_bytes (is_args spec) = Inr ab"
    "valid_name (is_name spec)" "0 < is_replicas spec" "is_replicas spec \<le> MAX_STACK_REPLICAS"
    "is_max_restarts spec \<le> MAX_STACK_RESTARTS" "length (is_args spec) \<le> MAX_STACK_ARGUMENTS"
    "ab \<le> MAX_STACK_ARGUMENT_BYTES" "\<not> list_ex (\<lambda>a. \<not> valid_text a 4096 True) (is_args spec)"
    "is_allow spec \<inter> is_deny spec = {}" "Set.Ball (is_secrets spec) valid_name"
    using assms(1) by (auto simp: validate_instance_def result_simps)
  have cap: "validate_planned_capabilities i profile = Inr ()"
    by (simp add: validate_planned_capabilities_def Let_def i)
  have sets: "pi_allowed i \<subseteq> pi_requested i" "pi_denied i \<subseteq> pi_requested i" "pi_allowed i \<inter> pi_denied i = {}"
    "pi_allowed i \<union> pi_denied i = pi_requested i"
    using caps by (auto simp: i)
  have sec: "Set.Ball (pi_secrets i) (\<lambda>s. valid_name s \<and> s \<in> declared)"
    using spec(12) assms(14) by (auto simp: i)
  show ?thesis
    using lim spec(1-11) sets sec cap assms(4-13) sub
    by (simp add: validate_planned_instance_def i(1-16) Let_def)
qed

text \<open>What planning produces, plan checking accepts.  For an accepted instance specification and an
  accepted package (limits, identity and composition lock with that package as its root), whose
  secrets are declared, the planned instance passes every check of \<^verbatim>\<open>validate_planned_instance\<close>.\<close>

theorem plan_instance_accepted:
  assumes "validate_instance requirement_ok spec = Inr ()"
    and "plan_instance spec profile rid rversion rsha rbytes runtime requested lock = Inr i"
    and "validate_runtime_limits runtime = Inr ()"
    and "valid_cartridge_id rid" and "version_ok rversion" and "is_digest rsha"
    and "0 < rbytes" and "rbytes \<le> 160 * 1024 * 1024"
    and "validate_lock version_ok lock = Inr ()"
    and "lp_cartridge_id (cl_root lock) = rid" and "lp_version (cl_root lock) = rversion"
    and "lp_package_sha256 (cl_root lock) = rsha" and "lp_package_bytes (cl_root lock) = rbytes"
    and "is_secrets spec \<subseteq> declared"
  shows "validate_planned_instance version_ok i profile declared = Inr ()"
  using assms by (rule planning_checked)

definition demo_health :: health_probe_spec where
  "demo_health = \<lparr>startup_timeout_ms = 10000, readiness_timeout_ms = 30000, liveness_timeout_ms = 15000,
     failure_threshold = 3\<rparr>"

definition demo_spec :: instance_spec where
  "demo_spec = \<lparr>is_name = ''web'', is_cartridge = ''a.b.c'', is_version = ''1'', is_replicas = 2,
     is_desired = Running, is_restart = OnFailure, is_max_restarts = 3, is_allow = {Http},
     is_deny = {Audio}, is_args = [''-v''], is_secrets = {''key''}, is_limits = demo_caps,
     is_health = Some demo_health, is_update = default_policy\<rparr>"

definition demo_planned :: planned_instance where
  "demo_planned = \<lparr>pi_name = ''web'', pi_cartridge_id = ''a.b.c'', pi_version = ''1'',
     pi_package_sha256 = demo_digest, pi_package_bytes = 1, pi_replicas = 2, pi_desired = Running,
     pi_restart = OnFailure, pi_max_restarts = 3, pi_requested = {Clock, Audio, Http, Midi},
     pi_granted = {Http}, pi_blocked = {Audio}, pi_allowed = {Clock, Http}, pi_denied = {Audio, Midi},
     pi_args = [''-v''], pi_secrets = {''key''},
     pi_limits = default_limits\<lparr>fuel := 1000, storage_bytes := 4096, storage_value_bytes := 4096\<rparr>,
     pi_health = Some demo_health, pi_update = default_policy, pi_composition = demo_lock\<rparr>"

lemma demo_spec_ok: "validate_instance (\<lambda>_. True) demo_spec = Inr ()"
proof -
  have "\<exists>c. limits_ceiling demo_caps = Inr c"
    using demo_caps_apply by (auto simp: limits_apply_def result_simps)
  then obtain c where "limits_ceiling demo_caps = Inr c" ..
  then show ?thesis
    by (simp add: validate_instance_def demo_spec_def validate_health_option_def validate_health_probe_def
        demo_health_def validate_policy_def default_policy_def rolling_consts plan_consts argument_bytes_def
        checked_add_def identifier_defs text_defs)
qed

lemma demo_plan_instance:
  "plan_instance demo_spec Balanced ''a.b.c'' ''1'' demo_digest 1 default_limits {Clock, Audio, Http, Midi} demo_lock
     = Inr demo_planned"
  by (auto simp: plan_instance_def demo_spec_def demo_caps_apply profile_allowed_def
      balanced_capabilities_def demo_planned_def Let_def)

lemma demo_planned_ok: "validate_planned_instance (\<lambda>_. True) demo_planned Balanced {''key''} = Inr ()"
  by (rule planning_checked [OF demo_spec_ok demo_plan_instance default_limits_valid])
    (use demo_lock_ok in \<open>simp_all add: demo_lock_def demo_package_def demo_spec_def identifier_defs text_defs\<close>)

theorem plan_instance_accepted_witness:
  "validate_planned_instance (\<lambda>_. True) demo_planned Balanced {''key''} = Inr ()"
  by (rule plan_instance_accepted [OF demo_spec_ok demo_plan_instance default_limits_valid])
    (use demo_lock_ok in \<open>simp_all add: demo_lock_def demo_package_def demo_spec_def identifier_defs text_defs\<close>)

section \<open>Accepted plans\<close>

lemma planned_step_Inr:
  "planned_step v profile declared (N, prev, r, s) i = Inr acc \<longleftrightarrow>
     validate_planned_instance v i profile declared = Inr () \<and> r + pi_replicas i < 2 ^ 16 \<and>
     s + max_surge (pi_update i) < 2 ^ 16 \<and> (\<forall>p. prev = Some p \<longrightarrow> p < pi_name i) \<and> pi_name i \<notin> N \<and>
     acc = (insert (pi_name i) N, Some (pi_name i), r + pi_replicas i, s + max_surge (pi_update i))"
  by (cases prev) (auto simp: planned_step_def result_simps not_le)

lemma planned_fold_Inr:
  "try_fold (planned_step v profile declared) (N, prev, r, s) is = Inr (N', prev', r', s') \<Longrightarrow>
     N' = N \<union> pi_name ` set is \<and> r' = r + sum_list (map pi_replicas is) \<and>
     s' = s + sum_list (map (\<lambda>i. max_surge (pi_update i)) is) \<and>
     (\<forall>i \<in> set is. validate_planned_instance v i profile declared = Inr ()) \<and>
     sorted_wrt (<) (map pi_name is) \<and> (\<forall>p. prev = Some p \<longrightarrow> (\<forall>i \<in> set is. p < pi_name i))"
proof (induction "is" arbitrary: N prev r s)
  case (Cons i js)
  have now: "validate_planned_instance v i profile declared = Inr ()" "\<forall>p. prev = Some p \<longrightarrow> p < pi_name i"
    and rest: "try_fold (planned_step v profile declared) (insert (pi_name i) N, Some (pi_name i),
      r + pi_replicas i, s + max_surge (pi_update i)) js = Inr (N', prev', r', s')"
    using Cons.prems by (auto simp: result_simps planned_step_Inr)
  note ih = Cons.IH [OF rest]
  then have "\<forall>j \<in> set js. pi_name i < pi_name j" by blast
  with ih now show ?case by (auto intro: less_trans)
qed simp

lemma validate_plan_instances:
  assumes "validate_plan c v p = Inr ()"
  shows "sorted_wrt (<) (map pi_name (pl_instances p))"
    "\<forall>i \<in> set (pl_instances p). validate_planned_instance v i (ss_profile (pl_security p))
       (se_name ` set (pl_secrets p)) = Inr ()"
    "sum_list (map pi_replicas (pl_instances p)) \<le> MAX_STACK_TOTAL_REPLICAS"
    "sum_list (map (\<lambda>i. max_surge (pi_update i)) (pl_instances p)) \<le> MAX_STACK_TOTAL_SURGE_REPLICAS"
    "pl_instances p \<noteq> []" "length (pl_instances p) \<le> MAX_STACK_INSTANCES"
    "valid_name (pl_stack p)" "is_digest (pl_plan_sha256 p)" "plan_sha256 c p = Inr (pl_plan_sha256 p)"
proof -
  obtain names where n: "validate_planned_instances v (pl_instances p) (ss_profile (pl_security p)) (pl_secrets p) = Inr names"
    and id: "pl_instances p \<noteq> []" "length (pl_instances p) \<le> MAX_STACK_INSTANCES" "valid_name (pl_stack p)"
      "is_digest (pl_plan_sha256 p)" "plan_sha256 c p = Inr (pl_plan_sha256 p)"
    using assms by (auto simp: validate_plan_def result_simps)
  from n obtain prev r s where "try_fold (planned_step v (ss_profile (pl_security p)) (se_name ` set (pl_secrets p)))
      ({}, None, 0, 0) (pl_instances p) = Inr (names, prev, r, s)"
    "r \<le> MAX_STACK_TOTAL_REPLICAS" "s \<le> MAX_STACK_TOTAL_SURGE_REPLICAS"
    by (auto simp: validate_planned_instances_def result_simps)
  with planned_fold_Inr [OF this(1)] id
  show "sorted_wrt (<) (map pi_name (pl_instances p))"
    "\<forall>i \<in> set (pl_instances p). validate_planned_instance v i (ss_profile (pl_security p))
       (se_name ` set (pl_secrets p)) = Inr ()"
    "sum_list (map pi_replicas (pl_instances p)) \<le> MAX_STACK_TOTAL_REPLICAS"
    "sum_list (map (\<lambda>i. max_surge (pi_update i)) (pl_instances p)) \<le> MAX_STACK_TOTAL_SURGE_REPLICAS"
    "pl_instances p \<noteq> []" "length (pl_instances p) \<le> MAX_STACK_INSTANCES" "valid_name (pl_stack p)"
    "is_digest (pl_plan_sha256 p)" "plan_sha256 c p = Inr (pl_plan_sha256 p)"
    by auto
qed

definition demo_codec :: "'d codec" where
  "demo_codec = \<lparr>to_vec = (\<lambda>_. Some []), sha256hex = (\<lambda>_. demo_digest)\<rparr>"

lemma demo_codec_ok [simp]: "codec_ok demo_codec"
  by (simp add: codec_ok_def demo_codec_def)

definition demo_plan :: stack_plan where
  "demo_plan = \<lparr>pl_format_version = 4, pl_stack = ''shop'',
     pl_security = \<lparr>ss_profile = Balanced, ss_sandbox = Required\<rparr>, pl_instances = [demo_planned],
     pl_resources = [], pl_secrets = [\<lparr>se_name = ''key'', se_required = True\<rparr>], pl_warnings = [],
     pl_plan_sha256 = demo_digest\<rparr>"

lemma demo_plan_ok: "validate_plan demo_codec (\<lambda>_. True) demo_plan = Inr ()"
proof -
  have "planned_step (\<lambda>_. True) Balanced {''key''} ({}, None, 0, 0) demo_planned
      = Inr ({''web''}, Some ''web'', 2, 1)"
    using demo_planned_ok by (simp add: planned_step_Inr demo_planned_def default_policy_def)
  then show ?thesis
    by (simp add: validate_plan_def demo_plan_def validate_planned_instances_def plan_sha256_def
        demo_codec_def plan_consts planned_secret_def identifier_defs text_defs)
qed

text \<open>C28: an accepted plan allows exactly what its own policy says.  In every instance of a plan
  that \<^verbatim>\<open>StackPlan::validate\<close> accepts, a capability is allowed if and only if the package requests it,
  the operator has not blocked it, and the operator granted it, or the profile of the plan is the
  permissive one, or it is the balanced one and the capability is clock, assets, graphics or audio.
  So every grant takes effect, and what is requested and not allowed is what is denied.\<close>

theorem planned_capability_policy:
  assumes "validate_plan c version_ok p = Inr ()" and "i \<in> set (pl_instances p)"
  shows "(\<forall>cap. cap \<in> pi_allowed i \<longleftrightarrow> cap \<in> pi_requested i \<and> cap \<notin> pi_blocked i \<and>
      (cap \<in> pi_granted i \<or> ss_profile (pl_security p) = Permissive \<or>
       ss_profile (pl_security p) = Balanced \<and> cap \<in> {Clock, Assets, Graphics, Audio})) \<and>
    pi_granted i \<subseteq> pi_allowed i \<and> pi_denied i = pi_requested i - pi_allowed i"
proof -
  have "validate_planned_instance version_ok i (ss_profile (pl_security p)) (se_name ` set (pl_secrets p)) = Inr ()"
    using validate_plan_instances(2) [OF assms(1)] assms(2) by blast
  note v = validate_planned_instance_Inr [OF this]
  have "profile_allowed (ss_profile (pl_security p)) (pi_requested i) (pi_granted i) - pi_blocked i = pi_allowed i"
    "pi_denied i = pi_requested i - pi_allowed i"
    using v(1) by (simp_all add: validate_planned_capabilities_def Let_def)
  then show ?thesis
    using v(2-4) by (cases "ss_profile (pl_security p)") (auto simp: profile_allowed_def balanced_capabilities_def)
qed

theorem planned_capability_policy_witness:
  "ss_profile (pl_security demo_plan) = Balanced \<and> Clock \<in> pi_allowed demo_planned \<and> Http \<in> pi_allowed demo_planned \<and>
   Midi \<in> pi_denied demo_planned \<and> Audio \<in> pi_denied demo_planned"
proof -
  have i: "demo_planned \<in> set (pl_instances demo_plan)" and b: "ss_profile (pl_security demo_plan) = Balanced"
    by (simp_all add: demo_plan_def)
  have c: "pi_requested demo_planned = {Clock, Audio, Http, Midi}" "pi_granted demo_planned = {Http}"
    "pi_blocked demo_planned = {Audio}" by (simp_all add: demo_planned_def)
  from planned_capability_policy [OF demo_plan_ok i] b show ?thesis unfolding c by simp
qed

text \<open>C29: accepted plans are bounded and unambiguous.  The instance names are strictly sorted, every
  instance has between 1 and 32 replicas, all instances together have at most 256 replicas and
  at most 64 surge replicas, and the recorded digest is the digest of the plan.\<close>

theorem validated_plan_bounds:
  assumes "validate_plan c version_ok p = Inr ()"
  shows "sorted_wrt (<) (map pi_name (pl_instances p)) \<and>
    (\<forall>i \<in> set (pl_instances p). 1 \<le> pi_replicas i \<and> pi_replicas i \<le> 32) \<and>
    sum_list (map pi_replicas (pl_instances p)) \<le> 256 \<and>
    sum_list (map (\<lambda>i. max_surge (pi_update i)) (pl_instances p)) \<le> 64 \<and>
    plan_sha256 c p = Inr (pl_plan_sha256 p)"
proof -
  note v = validate_plan_instances [OF assms]
  have "1 \<le> pi_replicas i \<and> pi_replicas i \<le> 32" if "i \<in> set (pl_instances p)" for i
    using v(2) that validate_planned_instance_Inr(5,6) [of version_ok i] by (fastforce simp: rolling_consts)
  with v show ?thesis by (simp add: plan_consts)
qed

theorem validated_plan_bounds_witness:
  "sum_list (map pi_replicas (pl_instances demo_plan)) \<le> 256"
  using validated_plan_bounds [OF demo_plan_ok] by blast

section \<open>Stopping a plan\<close>

definition stop_instance :: "planned_instance \<Rightarrow> planned_instance" where
  "stop_instance i = i\<lparr>pi_desired := Stopped\<rparr>"

lemma stop_fields:
  "pi_name (stop_instance i) = pi_name i" "pi_cartridge_id (stop_instance i) = pi_cartridge_id i"
  "pi_version (stop_instance i) = pi_version i" "pi_package_sha256 (stop_instance i) = pi_package_sha256 i"
  "pi_package_bytes (stop_instance i) = pi_package_bytes i" "pi_replicas (stop_instance i) = pi_replicas i"
  "pi_max_restarts (stop_instance i) = pi_max_restarts i" "pi_limits (stop_instance i) = pi_limits i"
  "pi_health (stop_instance i) = pi_health i" "pi_update (stop_instance i) = pi_update i"
  "pi_args (stop_instance i) = pi_args i" "pi_secrets (stop_instance i) = pi_secrets i"
  "pi_requested (stop_instance i) = pi_requested i" "pi_granted (stop_instance i) = pi_granted i"
  "pi_blocked (stop_instance i) = pi_blocked i" "pi_allowed (stop_instance i) = pi_allowed i"
  "pi_denied (stop_instance i) = pi_denied i" "pi_composition (stop_instance i) = pi_composition i"
  by (simp_all add: stop_instance_def)

lemma planned_step_stop: "planned_step v profile declared acc (stop_instance i) = planned_step v profile declared acc i"
  by (simp only: planned_step_def validate_planned_instance_def validate_planned_capabilities_def stop_fields)

lemma validate_instances_stop:
  "validate_planned_instances v (map stop_instance is) profile secrets = validate_planned_instances v is profile secrets"
  by (simp add: validate_planned_instances_def try_fold_map planned_step_stop)

text \<open>Stopping a plan only stops it.  If the stopped plan still fits the size limit, stopping an
  accepted plan succeeds, and the result is an accepted plan that differs from the original in
  nothing but the desired states, which are all \<^verbatim>\<open>Stopped\<close>, and the digest.\<close>

theorem stopped_plan_only_stops:
  assumes "codec_ok c" and "validate_plan c version_ok p = Inr ()"
    and "\<And>b. to_vec c (p\<lparr>pl_instances := map (\<lambda>i. i\<lparr>pi_desired := Stopped\<rparr>) (pl_instances p),
        pl_plan_sha256 := []\<rparr>) = Some b \<Longrightarrow> length b \<le> MAX_STACK_PLAN_BYTES"
  shows "\<exists>s. stopped_plan c version_ok p = Inr (p\<lparr>pl_instances :=
        map (\<lambda>i. i\<lparr>pi_desired := Stopped\<rparr>) (pl_instances p), pl_plan_sha256 := s\<rparr>) \<and>
    validate_plan c version_ok (p\<lparr>pl_instances := map (\<lambda>i. i\<lparr>pi_desired := Stopped\<rparr>) (pl_instances p),
        pl_plan_sha256 := s\<rparr>) = Inr ()"
proof -
  let ?q = "p\<lparr>pl_instances := map stop_instance (pl_instances p), pl_plan_sha256 := []\<rparr>"
  have st: "(\<lambda>i. i\<lparr>pi_desired := Stopped\<rparr>) = stop_instance" by (simp add: fun_eq_iff stop_instance_def)
  obtain b where b: "to_vec c ?q = Some b" using assms(1) by (auto simp: codec_ok_def)
  have len: "length b \<le> MAX_STACK_PLAN_BYTES" using assms(3) b by (simp add: st)
  let ?s = "sha256hex c b"
  have sha: "plan_sha256 c (?q\<lparr>pl_plan_sha256 := t\<rparr>) = Inr ?s" for t
    using b len by (simp add: plan_sha256_def)
  have dig: "is_digest ?s" using assms(1) by (simp add: codec_ok_def)
  have ex: "list_ex P (map stop_instance is) = list_ex (\<lambda>i. P (stop_instance i)) is" for P "is"
    by (simp add: list_ex_iff)
  have val: "validate_plan c version_ok (?q\<lparr>pl_plan_sha256 := ?s\<rparr>) = Inr ()"
    using assms(2) dig sha [of ?s]
    by (auto simp: validate_plan_def result_simps validate_instances_stop ex stop_fields)
  then show ?thesis
    using sha [of "[]"] by (intro exI [of _ ?s]) (simp add: stopped_plan_def st Let_def)
qed

theorem stopped_plan_only_stops_witness:
  "\<exists>s. stopped_plan demo_codec (\<lambda>_. True) demo_plan = Inr (demo_plan\<lparr>pl_instances :=
     map (\<lambda>i. i\<lparr>pi_desired := Stopped\<rparr>) (pl_instances demo_plan), pl_plan_sha256 := s\<rparr>)"
  using stopped_plan_only_stops [OF demo_codec_ok demo_plan_ok] by (auto simp: demo_codec_def)

end
