(* ===== verification/Journal.thy ===== *)
theory Journal
  imports Plan
begin

text \<open>
  The event journal of a stack (\<^verbatim>\<open>EngineEvent\<close>, \<^verbatim>\<open>next_event\<close>, \<^verbatim>\<open>read_events_with_size\<close> and
  \<^verbatim>\<open>EngineStore::append\<close> of \<^verbatim>\<open>crates/cartridge-engine/src/lib.rs\<close>).  An event directory is the list of
  its event files in name order; the zero-padded name \<^verbatim>\<open>{:020}.json\<close> is its number.  A file holds the
  serialised event: its length is the length of \<open>to_vec\<close>.  The clock is an argument.

  Shown here: appending keeps a directory readable, a readable directory is a hash chain with
  revisions 1, 2, ..., and the digest of the last event determines the whole history.
\<close>

section \<open>Data\<close>

definition ENGINE_EVENT_FORMAT_VERSION :: nat where "ENGINE_EVENT_FORMAT_VERSION = 1"
definition MAX_ENGINE_EVENTS_PER_STACK :: nat where "MAX_ENGINE_EVENTS_PER_STACK = 4096"
definition MAX_ENGINE_EVENT_BYTES :: nat where "MAX_ENGINE_EVENT_BYTES = 16 * 1024 * 1024"
definition MAX_ENGINE_EVENT_HISTORY_BYTES :: nat where "MAX_ENGINE_EVENT_HISTORY_BYTES = 64 * 1024 * 1024"

lemmas journal_consts = ENGINE_EVENT_FORMAT_VERSION_def MAX_ENGINE_EVENTS_PER_STACK_def
  MAX_ENGINE_EVENT_BYTES_def MAX_ENGINE_EVENT_HISTORY_BYTES_def

datatype event_kind = ApplyEvent | StopEvent | RemoveEvent
datatype stack_state = Applied | StoppedStack | Removed

record engine_event =
  ev_format_version :: nat
  ev_revision :: nat
  ev_stack :: string
  ev_kind :: event_kind
  ev_previous_sha256 :: string
  ev_created_at :: nat
  ev_plan :: "stack_plan option"
  ev_sha256 :: string

record stack_status =
  st_stack :: string
  st_revision :: nat
  st_state :: stack_state
  st_plan_sha256 :: "string option"
  st_instance_count :: nat
  st_desired_replicas :: nat
  st_event_sha256 :: string

datatype journal_error =
    EventPlanInvalid plan_error | EventNotSerializable | EventIdentityInvalid | EventPlanMissing
  | EventPlanForeign | StopPlanInvalid | RemovePlanRetained | EventStackMissing | HistoryLimitExceeded
  | HistoryBytesExceeded | EventUnbounded | HistoryByteOverflow | NotCanonicalChain
  | HistoryLimitReached | NotContinuing | EventTooLarge | HistoryByteLimitReached

text \<open>The third-party code the engine relies on: a serialiser with its hash for plans and for events,
  and the parser of semantic versions.\<close>

record journal_env =
  plan_codec :: "stack_plan codec"
  event_codec :: "engine_event codec"
  version_valid :: "string \<Rightarrow> bool"

section \<open>Events\<close>

definition event_sha256 :: "journal_env \<Rightarrow> engine_event \<Rightarrow> journal_error + string" where
  "event_sha256 env e =
     and_then (ok_or (to_vec (event_codec env) (e\<lparr>ev_sha256 := []\<rparr>)) EventNotSerializable) (\<lambda>b.
     Inr (sha256hex (event_codec env) b))"

definition event_plan_ok :: "journal_env \<Rightarrow> engine_event \<Rightarrow> journal_error + unit" where
  "event_plan_ok env e =
     (case ev_kind e of
        ApplyEvent \<Rightarrow>
          and_then (ok_or (ev_plan e) EventPlanMissing) (\<lambda>p.
          and_then (map_err EventPlanInvalid (validate_plan (plan_codec env) (version_valid env) p)) (\<lambda>_.
          fail_if (pl_stack p \<noteq> ev_stack e) EventPlanForeign))
      | StopEvent \<Rightarrow>
          and_then (ok_or (ev_plan e) EventPlanMissing) (\<lambda>p.
          and_then (map_err EventPlanInvalid (validate_plan (plan_codec env) (version_valid env) p)) (\<lambda>_.
          fail_if (pl_stack p \<noteq> ev_stack e \<or> list_ex (\<lambda>i. pi_desired i \<noteq> Stopped) (pl_instances p))
            StopPlanInvalid))
      | RemoveEvent \<Rightarrow> fail_if (ev_plan e \<noteq> None) RemovePlanRetained)"

definition validate_event :: "journal_env \<Rightarrow> engine_event \<Rightarrow> journal_error + unit" where
  "validate_event env e =
     and_then (fail_if (ev_format_version e \<noteq> ENGINE_EVENT_FORMAT_VERSION \<or> ev_revision e = 0 \<or>
         ev_created_at e = 0 \<or> \<not> valid_name (ev_stack e) \<or>
         ev_revision e = 1 \<and> ev_previous_sha256 e \<noteq> [] \<or>
         ev_revision e > 1 \<and> \<not> is_digest (ev_previous_sha256 e) \<or>
         \<not> is_digest (ev_sha256 e)) EventIdentityInvalid) (\<lambda>_.
     and_then (event_sha256 env e) (\<lambda>computed.
     and_then (fail_if (computed \<noteq> ev_sha256 e) EventIdentityInvalid) (\<lambda>_.
     event_plan_ok env e)))"

definition new_event ::
    "journal_env \<Rightarrow> nat \<Rightarrow> nat \<Rightarrow> string \<Rightarrow> event_kind \<Rightarrow> string \<Rightarrow> stack_plan option \<Rightarrow> journal_error + engine_event" where
  "new_event env clock_ms revision stack kind previous plan =
     (let v = \<lparr>ev_format_version = ENGINE_EVENT_FORMAT_VERSION, ev_revision = revision, ev_stack = stack,
               ev_kind = kind, ev_previous_sha256 = previous, ev_created_at = clock_ms, ev_plan = plan,
               ev_sha256 = []\<rparr>
      in and_then (event_sha256 env v) (\<lambda>d.
         let v' = v\<lparr>ev_sha256 := d\<rparr> in
         and_then (validate_event env v') (\<lambda>_. Inr v')))"

definition state_of_kind :: "event_kind \<Rightarrow> stack_state" where
  "state_of_kind k = (case k of ApplyEvent \<Rightarrow> Applied | StopEvent \<Rightarrow> StoppedStack | RemoveEvent \<Rightarrow> Removed)"

definition event_status :: "engine_event \<Rightarrow> stack_status" where
  "event_status e =
     \<lparr>st_stack = ev_stack e, st_revision = ev_revision e, st_state = state_of_kind (ev_kind e),
      st_plan_sha256 = map_option pl_plan_sha256 (ev_plan e),
      st_instance_count = (case ev_plan e of None \<Rightarrow> 0 | Some p \<Rightarrow> length (pl_instances p)),
      st_desired_replicas = (case ev_plan e of None \<Rightarrow> 0 | Some p \<Rightarrow>
        sum_list (map pi_replicas (filter (\<lambda>i. pi_desired i = Running) (pl_instances p)))),
      st_event_sha256 = ev_sha256 e\<rparr>"

definition next_event ::
    "journal_env \<Rightarrow> nat \<Rightarrow> engine_event option \<Rightarrow> event_kind \<Rightarrow> stack_plan option \<Rightarrow> journal_error + engine_event" where
  "next_event env clock_ms previous kind plan =
     and_then (ok_or (case plan of Some p \<Rightarrow> Some (pl_stack p) | None \<Rightarrow> map_option ev_stack previous)
       EventStackMissing) (\<lambda>stack.
     new_event env clock_ms (case previous of None \<Rightarrow> 1 | Some v \<Rightarrow> wrapping_add 64 (ev_revision v) 1)
       stack kind (case previous of None \<Rightarrow> [] | Some v \<Rightarrow> ev_sha256 v) plan)"

section \<open>Event directories\<close>

type_synonym event_file = "nat \<times> engine_event"

definition last_event :: "engine_event list \<Rightarrow> engine_event option" where
  "last_event es = (if es = [] then None else Some (last es))"

definition expected_revision :: "engine_event list \<Rightarrow> nat" where
  "expected_revision es = (case last_event es of None \<Rightarrow> 1 | Some v \<Rightarrow> wrapping_add 64 (ev_revision v) 1)"

definition expected_previous :: "engine_event list \<Rightarrow> string" where
  "expected_previous es = (case last_event es of None \<Rightarrow> [] | Some v \<Rightarrow> ev_sha256 v)"

definition file_bytes :: "journal_env \<Rightarrow> engine_event \<Rightarrow> journal_error + bytes" where
  "file_bytes env e = ok_or (to_vec (event_codec env) e) EventNotSerializable"

definition read_event ::
    "journal_env \<Rightarrow> string \<Rightarrow> engine_event list \<times> nat \<Rightarrow> event_file \<Rightarrow> journal_error + engine_event list \<times> nat" where
  "read_event env stack acc f =
     (case acc of (events, total_bytes) \<Rightarrow> case f of (number, e) \<Rightarrow>
      and_then (ok_or (checked_sub MAX_ENGINE_EVENT_HISTORY_BYTES total_bytes) HistoryBytesExceeded) (\<lambda>remaining.
      and_then (file_bytes env e) (\<lambda>b.
      and_then (fail_if (length b > min MAX_ENGINE_EVENT_BYTES remaining) EventUnbounded) (\<lambda>_.
      and_then (ok_or (checked_add 64 total_bytes (length b)) HistoryByteOverflow) (\<lambda>total'.
      and_then (validate_event env e) (\<lambda>_.
      and_then (fail_if (ev_stack e \<noteq> stack \<or> ev_revision e \<noteq> expected_revision events \<or>
          ev_previous_sha256 e \<noteq> expected_previous events \<or> number \<noteq> ev_revision e) NotCanonicalChain) (\<lambda>_.
      Inr (events @ [e], total'))))))))"

definition read_events_with_size ::
    "journal_env \<Rightarrow> event_file list \<Rightarrow> string \<Rightarrow> journal_error + engine_event list \<times> nat" where
  "read_events_with_size env files stack =
     and_then (fail_if (length files > MAX_ENGINE_EVENTS_PER_STACK) HistoryLimitExceeded) (\<lambda>_.
     try_fold (read_event env stack) ([], 0) files)"

definition read_events :: "journal_env \<Rightarrow> event_file list \<Rightarrow> string \<Rightarrow> journal_error + engine_event list" where
  "read_events env files stack = and_then (read_events_with_size env files stack) (\<lambda>(es, _). Inr es)"

text \<open>\<^verbatim>\<open>append\<close>: the new file gets the largest number, so it comes last in name order.\<close>

definition append_event ::
    "journal_env \<Rightarrow> engine_event \<Rightarrow> event_file list \<Rightarrow> journal_error + event_file list" where
  "append_event env e files =
     and_then (validate_event env e) (\<lambda>_.
     and_then (read_events_with_size env files (ev_stack e)) (\<lambda>(current, current_bytes).
     and_then (fail_if (length current \<ge> MAX_ENGINE_EVENTS_PER_STACK) HistoryLimitReached) (\<lambda>_.
     and_then (fail_if (ev_revision e \<noteq> expected_revision current \<or>
         ev_previous_sha256 e \<noteq> expected_previous current) NotContinuing) (\<lambda>_.
     and_then (file_bytes env e) (\<lambda>b.
     and_then (fail_if (length b > MAX_ENGINE_EVENT_BYTES) EventTooLarge) (\<lambda>_.
     and_then (fail_if (case checked_add 64 current_bytes (length b) of None \<Rightarrow> True
         | Some n \<Rightarrow> n > MAX_ENGINE_EVENT_HISTORY_BYTES) HistoryByteLimitReached) (\<lambda>_.
     Inr (files @ [(ev_revision e, e)]))))))))"

section \<open>Chains\<close>

interpretation event_seal: sealed_document ev_sha256 "\<lambda>d e. e\<lparr>ev_sha256 := d\<rparr>" "event_sha256 env" for env
  by unfold_locales (simp_all add: event_sha256_def)

definition chained :: "engine_event list \<Rightarrow> bool" where
  "chained es \<longleftrightarrow> (\<forall>i < length es. ev_revision (es ! i) = i + 1 \<and>
     ev_previous_sha256 (es ! i) = (if i = 0 then [] else ev_sha256 (es ! (i - 1))))"

lemma validate_event_Inr:
  assumes "validate_event env e = Inr ()"
  shows "valid_name (ev_stack e)" "ev_revision e \<noteq> 0" "ev_created_at e \<noteq> 0" "is_digest (ev_sha256 e)"
    "event_sha256 env e = Inr (ev_sha256 e)" "event_plan_ok env e = Inr ()" "ev_format_version e = ENGINE_EVENT_FORMAT_VERSION"
  using assms by (auto simp: validate_event_def result_simps)

lemma read_event_Inr:
  "read_event env stack (es, n) (k, e) = Inr a \<longleftrightarrow>
     (\<exists>b. n \<le> MAX_ENGINE_EVENT_HISTORY_BYTES \<and> to_vec (event_codec env) e = Some b \<and>
       length b \<le> MAX_ENGINE_EVENT_BYTES \<and> n + length b \<le> MAX_ENGINE_EVENT_HISTORY_BYTES \<and>
       validate_event env e = Inr () \<and> ev_stack e = stack \<and> ev_revision e = expected_revision es \<and>
       ev_previous_sha256 e = expected_previous es \<and> k = ev_revision e \<and> a = (es @ [e], n + length b))"
proof -
  have "n + l < 2 ^ 64" if "n + l \<le> MAX_ENGINE_EVENT_HISTORY_BYTES" for l
    using that by (simp add: journal_consts)
  then show ?thesis
    by (auto simp: read_event_def and_then_Inr file_bytes_def not_less)
qed

lemma chained_snoc:
  assumes "chained es" and "ev_revision e = expected_revision es" and "ev_previous_sha256 e = expected_previous es"
    and "length es < 2 ^ 64 - 1"
  shows "chained (es @ [e])"
proof (cases "es = []")
  case True
  with assms show ?thesis by (simp add: chained_def expected_revision_def expected_previous_def last_event_def)
next
  case False
  then have "ev_revision (last es) = length es" using assms(1) by (simp add: chained_def last_conv_nth)
  with False assms have "ev_revision e = length es + 1" "ev_previous_sha256 e = ev_sha256 (es ! (length es - 1))"
    by (simp_all add: expected_revision_def expected_previous_def last_event_def last_conv_nth)
  with assms(1) False show ?thesis by (auto simp: chained_def nth_append less_Suc_eq)
qed

lemma chained_expected:
  assumes "chained es" and "length es < 2 ^ 64 - 1"
  shows "expected_revision es = length es + 1"
    "expected_previous es = (if es = [] then [] else ev_sha256 (last es))"
  using assms by (auto simp: chained_def expected_revision_def expected_previous_def last_event_def last_conv_nth)

lemma read_fold:
  assumes "try_fold (read_event env stack) (es0, n0) files = Inr (es, n)" and "chained es0"
    and "length es0 + length files < 2 ^ 64 - 1"
  shows "es = es0 @ map snd files \<and> chained es \<and> map fst files = map ev_revision (map snd files) \<and>
    (\<forall>e \<in> set (map snd files). validate_event env e = Inr () \<and> ev_stack e = stack) \<and>
    (n0 \<le> MAX_ENGINE_EVENT_HISTORY_BYTES \<longrightarrow> n \<le> MAX_ENGINE_EVENT_HISTORY_BYTES)"
  using assms
proof (induction files arbitrary: es0 n0)
  case (Cons f files)
  obtain k e where f: "f = (k, e)" by fastforce
  obtain a where a: "read_event env stack (es0, n0) (k, e) = Inr a" "try_fold (read_event env stack) a files = Inr (es, n)"
    using Cons.prems(1) by (auto simp: f and_then_Inr)
  obtain b :: bytes where b: "a = (es0 @ [e], n0 + length b)" "n0 + length b \<le> MAX_ENGINE_EVENT_HISTORY_BYTES"
    "validate_event env e = Inr ()" "ev_stack e = stack" "ev_revision e = expected_revision es0"
    "ev_previous_sha256 e = expected_previous es0" "k = ev_revision e"
    using a(1) unfolding read_event_Inr by blast
  have "chained (es0 @ [e])" by (rule chained_snoc) (use Cons.prems b in auto)
  from Cons.IH [OF a(2) [unfolded b(1)] this] Cons.prems(3) b f show ?case by auto
qed simp

lemma read_events_Inr:
  assumes "read_events_with_size env files stack = Inr (es, n)"
  shows "es = map snd files" "chained es" "map fst files = map ev_revision es"
    "\<forall>e \<in> set es. validate_event env e = Inr () \<and> ev_stack e = stack" "n \<le> MAX_ENGINE_EVENT_HISTORY_BYTES"
    "length es \<le> MAX_ENGINE_EVENTS_PER_STACK"
proof -
  have f: "try_fold (read_event env stack) ([], 0) files = Inr (es, n)" and l: "length files \<le> MAX_ENGINE_EVENTS_PER_STACK"
    using assms by (auto simp: read_events_with_size_def and_then_Inr not_less)
  have "es = [] @ map snd files \<and> chained es \<and> map fst files = map ev_revision (map snd files) \<and>
    (\<forall>e \<in> set (map snd files). validate_event env e = Inr () \<and> ev_stack e = stack) \<and>
    (0 \<le> MAX_ENGINE_EVENT_HISTORY_BYTES \<longrightarrow> n \<le> MAX_ENGINE_EVENT_HISTORY_BYTES)"
    by (rule read_fold [OF f]) (use l in \<open>simp_all add: chained_def journal_consts\<close>)
  then show "es = map snd files" "chained es" "map fst files = map ev_revision es"
    "\<forall>e \<in> set es. validate_event env e = Inr () \<and> ev_stack e = stack" "n \<le> MAX_ENGINE_EVENT_HISTORY_BYTES"
    "length es \<le> MAX_ENGINE_EVENTS_PER_STACK"
    using l by auto
qed

text \<open>Appending to a readable directory leaves a readable directory with the event at its end.\<close>

lemma append_event_Inr:
  assumes "append_event env e files = Inr files'" and "read_events_with_size env files (ev_stack e) = Inr (es, n)"
  shows "files' = files @ [(ev_revision e, e)]" "\<exists>n'. read_events_with_size env files' (ev_stack e) = Inr (es @ [e], n')"
    "validate_event env e = Inr ()" "ev_revision e = length es + 1"
proof -
  note r = read_events_Inr [OF assms(2)]
  obtain b where b: "files' = files @ [(ev_revision e, e)]" "validate_event env e = Inr ()"
    "length es < MAX_ENGINE_EVENTS_PER_STACK" "ev_revision e = expected_revision es"
    "ev_previous_sha256 e = expected_previous es" "to_vec (event_codec env) e = Some b"
    "length b \<le> MAX_ENGINE_EVENT_BYTES" "n + length b \<le> MAX_ENGINE_EVENT_HISTORY_BYTES"
    using assms(1) assms(2) by (auto simp: append_event_def and_then_Inr file_bytes_def not_le not_less split: option.splits)
  have "read_event env (ev_stack e) (es, n) (ev_revision e, e) = Inr (es @ [e], n + length b)"
    using b r(5) by (auto simp: read_event_Inr)
  moreover have "try_fold (read_event env (ev_stack e)) ([], 0) files = Inr (es, n)"
    using assms(2) by (auto simp: read_events_with_size_def and_then_Inr)
  ultimately have "try_fold (read_event env (ev_stack e)) ([], 0) files' = Inr (es @ [e], n + length b)"
    by (simp add: b(1) try_fold_append)
  then show "\<exists>n'. read_events_with_size env files' (ev_stack e) = Inr (es @ [e], n')"
    using b(3) r(1) by (auto simp: read_events_with_size_def b(1) and_then_Inr not_less)
  show "files' = files @ [(ev_revision e, e)]" "validate_event env e = Inr ()" by (fact b)+
  show "ev_revision e = length es + 1"
    using b(3,4) chained_expected(1) [OF r(2)] by (simp add: journal_consts)
qed

lemma chain_determined:
  assumes "chained es" and "chained fs" and "es \<noteq> []" and "fs \<noteq> []" and "ev_sha256 (last es) = ev_sha256 (last fs)"
    and "\<forall>e \<in> set es \<union> set fs. event_sha256 env e = Inr (ev_sha256 e)"
    and "\<forall>e \<in> set es. \<forall>f \<in> set fs. event_sha256 env e = event_sha256 env f \<longrightarrow>
      e\<lparr>ev_sha256 := []\<rparr> = f\<lparr>ev_sha256 := []\<rparr>"
  shows "es = fs"
  using assms
proof (induction es arbitrary: fs rule: rev_induct)
  case (snoc e es)
  obtain fs' f where fs: "fs = fs' @ [f]" using snoc.prems(4) by (metis append_butlast_last_id)
  have sha: "ev_sha256 e = ev_sha256 f" using snoc.prems(5) by (simp add: fs)
  have "e\<lparr>ev_sha256 := []\<rparr> = f\<lparr>ev_sha256 := []\<rparr>"
    using snoc.prems(6,7) sha by (simp add: fs)
  then have "e\<lparr>ev_sha256 := []\<rparr>\<lparr>ev_sha256 := ev_sha256 e\<rparr> = f\<lparr>ev_sha256 := []\<rparr>\<lparr>ev_sha256 := ev_sha256 f\<rparr>"
    using sha by simp
  then have ef: "e = f" by simp
  have ch: "chained es" "chained fs'"
    using snoc.prems(1,2) by (auto simp: chained_def fs nth_append less_Suc_eq split: if_splits)
  have rev: "ev_revision e = length es + 1" "ev_revision f = length fs' + 1"
    using snoc.prems(1,2) by (auto simp: chained_def fs nth_append)
  then have len: "length es = length fs'" using ef by simp
  have "es = fs'"
  proof (cases "es = []")
    case True
    with len show ?thesis by simp
  next
    case False
    then have ne: "fs' \<noteq> []" using len by auto
    have "ev_previous_sha256 e = ev_sha256 (last es)" "ev_previous_sha256 f = ev_sha256 (last fs')"
      using snoc.prems(1,2) False ne by (auto simp: chained_def fs nth_append last_conv_nth)
    then have "ev_sha256 (last es) = ev_sha256 (last fs')" using ef by simp
    then show ?thesis
      using snoc.IH [OF ch False ne] snoc.prems(6,7) by (simp add: fs)
  qed
  then show ?case by (simp add: fs ef)
qed simp

section \<open>Properties\<close>

text \<open>C32: the journal is tamper evident.  If two event directories of any stacks are accepted and
  their last events have the same digest, and no two of the events involved collide under the
  hash, then the directories are equal: the digest of the last event, which fences the supervisor
  and the rollouts, determines the whole history.\<close>

theorem journal_tamper_evident:
  assumes "read_events env files stack = Inr es" and "read_events env files' stack' = Inr es'"
    and "es \<noteq> []" and "es' \<noteq> []" and "ev_sha256 (last es) = ev_sha256 (last es')"
    and "\<forall>e \<in> set es. \<forall>f \<in> set es'. event_sha256 env e = event_sha256 env f \<longrightarrow>
      e\<lparr>ev_sha256 := []\<rparr> = f\<lparr>ev_sha256 := []\<rparr>"
  shows "files = files' \<and> stack = stack'"
proof -
  obtain n n' where r: "read_events_with_size env files stack = Inr (es, n)"
    and r': "read_events_with_size env files' stack' = Inr (es', n')"
    using assms(1,2) by (auto simp: read_events_def and_then_Inr)
  note f = read_events_Inr [OF r] and f' = read_events_Inr [OF r']
  have "\<forall>e \<in> set es \<union> set es'. event_sha256 env e = Inr (ev_sha256 e)"
    using f(4) f'(4) validate_event_Inr(5) by blast
  then have eq: "es = es'" using chain_determined [OF f(2) f'(2) assms(3-5)] assms(6) by blast
  have "files = zip (map fst files) (map snd files)" "files' = zip (map fst files') (map snd files')"
    by (simp_all add: zip_map_fst_snd)
  then have "files = files'" using f(1,3) f'(1,3) eq by metis
  moreover have "stack = stack'" using f(4) f'(4) eq assms(3) by (metis last_in_set)
  ultimately show ?thesis by blast
qed

text \<open>Appending keeps the journal readable.  If a directory reads as a list of events, a
  successful append makes it read as that list with the new event at its end, whose revision is
  its position.\<close>

theorem append_keeps_readable:
  assumes "read_events env files (ev_stack e) = Inr es" and "append_event env e files = Inr files'"
  shows "read_events env files' (ev_stack e) = Inr (es @ [e]) \<and> ev_revision e = length es + 1"
proof -
  obtain n where "read_events_with_size env files (ev_stack e) = Inr (es, n)"
    using assms(1) by (auto simp: read_events_def and_then_Inr)
  from append_event_Inr [OF assms(2) this] show ?thesis by (auto simp: read_events_def)
qed

section \<open>Examples\<close>

definition demo_event_codec :: "engine_event codec" where
  "demo_event_codec = \<lparr>to_vec = (\<lambda>e. Some (replicate (ev_revision e) 0)),
     sha256hex = (\<lambda>b. if length b = 1 then demo_digest else replicate 64 CHR ''b'')\<rparr>"

definition demo_env :: journal_env where
  "demo_env = \<lparr>plan_codec = demo_codec, event_codec = demo_event_codec, version_valid = (\<lambda>_. True)\<rparr>"

definition demo_applied :: engine_event where
  "demo_applied = \<lparr>ev_format_version = 1, ev_revision = 1, ev_stack = ''shop'', ev_kind = ApplyEvent,
     ev_previous_sha256 = [], ev_created_at = 5, ev_plan = Some demo_plan, ev_sha256 = demo_digest\<rparr>"

definition demo_removed :: engine_event where
  "demo_removed = \<lparr>ev_format_version = 1, ev_revision = 2, ev_stack = ''shop'', ev_kind = RemoveEvent,
     ev_previous_sha256 = demo_digest, ev_created_at = 6, ev_plan = None, ev_sha256 = replicate 64 CHR ''b''\<rparr>"

lemma demo_other_digest: "is_digest (replicate 64 CHR ''b'')"
  by (simp add: is_digest_def list_all_iff is_ascii_digit_def)

lemma demo_shop: "valid_name ''shop''"
  by (simp add: valid_name_def name_byte_def text_defs)

lemma demo_event_codec_ok: "codec_ok (event_codec demo_env)"
  by (simp add: codec_ok_def demo_env_def demo_event_codec_def demo_other_digest)

lemma demo_events_ok:
  "validate_event demo_env demo_applied = Inr ()" "validate_event demo_env demo_removed = Inr ()"
  using demo_plan_ok demo_shop demo_other_digest
  by (simp_all add: validate_event_def event_sha256_def event_plan_ok_def demo_env_def demo_event_codec_def
      demo_applied_def demo_removed_def journal_consts demo_plan_def)

lemma demo_journal:
  "read_events demo_env [(1, demo_applied)] ''shop'' = Inr [demo_applied]"
  "append_event demo_env demo_removed [(1, demo_applied)] = Inr [(1, demo_applied), (2, demo_removed)]"
  "read_events demo_env [(1, demo_applied), (2, demo_removed)] ''shop'' = Inr [demo_applied, demo_removed]"
proof -
  have one: "read_event demo_env ''shop'' ([], 0) (1, demo_applied) = Inr ([demo_applied], 1)"
    using demo_events_ok(1) by (simp add: read_event_Inr demo_env_def demo_event_codec_def demo_applied_def
        journal_consts expected_revision_def expected_previous_def last_event_def)
  have two: "read_event demo_env ''shop'' ([demo_applied], 1) (2, demo_removed) = Inr ([demo_applied, demo_removed], 3)"
    using demo_events_ok(2) by (simp add: read_event_Inr demo_env_def demo_event_codec_def demo_applied_def demo_removed_def
        journal_consts expected_revision_def expected_previous_def last_event_def)
  show "read_events demo_env [(1, demo_applied)] ''shop'' = Inr [demo_applied]"
    using one by (simp add: read_events_def read_events_with_size_def journal_consts)
  show "read_events demo_env [(1, demo_applied), (2, demo_removed)] ''shop'' = Inr [demo_applied, demo_removed]"
    using one two by (simp add: read_events_def read_events_with_size_def journal_consts)
  have "read_events_with_size demo_env [(1, demo_applied)] ''shop'' = Inr ([demo_applied], 1)"
    using one by (simp add: read_events_with_size_def journal_consts)
  then show "append_event demo_env demo_removed [(1, demo_applied)] = Inr [(1, demo_applied), (2, demo_removed)]"
    using demo_events_ok(2) by (simp add: append_event_def demo_removed_def file_bytes_def demo_env_def demo_event_codec_def
        demo_applied_def journal_consts expected_revision_def expected_previous_def last_event_def checked_add_def)
qed

theorem journal_tamper_evident_witness:
  "read_events demo_env [(1, demo_applied), (2, demo_removed)] ''shop'' = Inr [demo_applied, demo_removed] \<and>
   [(1 :: nat, demo_applied), (2, demo_removed)] = [(1, demo_applied), (2, demo_removed)] \<and> ''shop'' = ''shop''"
  by (rule conjI [OF demo_journal(3)], rule journal_tamper_evident [OF demo_journal(3) demo_journal(3)])
    (auto simp: event_sha256_def demo_env_def demo_event_codec_def demo_applied_def demo_removed_def demo_digest_def
      dest: arg_cong [of _ _ hd])

theorem append_keeps_readable_witness:
  "read_events demo_env [(1, demo_applied), (2, demo_removed)] ''shop'' = Inr ([demo_applied] @ [demo_removed]) \<and>
    ev_revision demo_removed = length [demo_applied] + 1"
  using append_keeps_readable [of demo_env "[(1, demo_applied)]" demo_removed] demo_journal
  by (simp add: demo_removed_def)

end
