(* ===== verification/Supervisor.thy ===== *)
theory Supervisor
  imports Plan
begin

text \<open>
  The runtime status of a stack (\<^verbatim>\<open>crates/cartridge-engine/src/supervisor.rs\<close>): one record per
  replica, driven through its phases by the supervisor.  A method that takes \<^verbatim>\<open>&mut self\<close> returns
  its result and the status it leaves behind, because several of them have already written to the
  status when they report an error.  Times are milliseconds in \<^verbatim>\<open>u64\<close>.  Third-party code enters as
  arguments: the \<open>codec\<close> that seals the status and \<open>sha256\<close>, the raw hash that \<^verbatim>\<open>restart_backoff_ms\<close>
  draws its jitter from.

  Shown here: what the validator accepts, an invariant stronger than it (no recorded time lies in
  the future), that each transition of a replica keeps that invariant, and that the backoff stays
  within its bounds.  Theory \<open>Supervisor_Runs\<close> builds on these.
\<close>

section \<open>Data\<close>

definition SUPERVISOR_STATUS_FORMAT_VERSION :: nat where "SUPERVISOR_STATUS_FORMAT_VERSION = 2"
definition LEGACY_SUPERVISOR_STATUS_FORMAT_VERSION :: nat where "LEGACY_SUPERVISOR_STATUS_FORMAT_VERSION = 1"
definition MAX_RESTART_BACKOFF_MS :: nat where "MAX_RESTART_BACKOFF_MS = 30000"
definition MIN_RESTART_BACKOFF_MS :: nat where "MIN_RESTART_BACKOFF_MS = 250"

lemmas supervisor_consts = SUPERVISOR_STATUS_FORMAT_VERSION_def LEGACY_SUPERVISOR_STATUS_FORMAT_VERSION_def
  MAX_RESTART_BACKOFF_MS_def MIN_RESTART_BACKOFF_MS_def

datatype replica_id = ReplicaId (rid_instance: string) (rid_ordinal: nat)

text \<open>The derived \<^verbatim>\<open>Ord\<close>: by instance, then by ordinal.\<close>

instantiation replica_id :: linorder
begin

definition less_eq_replica_id :: "replica_id \<Rightarrow> replica_id \<Rightarrow> bool" where
  "less_eq_replica_id a b \<longleftrightarrow> rid_instance a < rid_instance b \<or>
     rid_instance a = rid_instance b \<and> rid_ordinal a \<le> rid_ordinal b"

definition less_replica_id :: "replica_id \<Rightarrow> replica_id \<Rightarrow> bool" where
  "less_replica_id a b \<longleftrightarrow> rid_instance a < rid_instance b \<or>
     rid_instance a = rid_instance b \<and> rid_ordinal a < rid_ordinal b"

instance
  by standard (auto simp: less_eq_replica_id_def less_replica_id_def replica_id.expand)

end

datatype replica_phase =
  Pending | Starting | RunningPhase | Backoff | Succeeded | Failed | Exhausted | StoppedPhase

datatype probe_phase = ProbeWaiting | ProbeReady | ProbeUnhealthy

datatype probe_signal_kind = SignalStarted | SignalReady | SignalHeartbeat | SignalUnhealthy

record probe_runtime =
  pr_phase :: probe_phase
  pr_last_sequence :: nat
  pr_last_signal_at :: "nat option"
  pr_ready_at :: "nat option"
  pr_failures :: nat

record replica_runtime =
  rr_id :: replica_id
  rr_desired :: desired_state
  rr_restart :: restart_policy
  rr_max_restarts :: nat
  rr_attempt :: nat
  rr_phase :: replica_phase
  rr_run_id :: "string option"
  rr_started_at :: "nat option"
  rr_finished_at :: "nat option"
  rr_next_start_at :: "nat option"
  rr_exit_code :: "int option"
  rr_detail :: "string option"
  rr_probe :: "probe_runtime option"

record runtime_status =
  rs_format_version :: nat
  rs_stack :: string
  rs_revision :: nat
  rs_generation :: string
  rs_observed_at :: nat
  rs_replicas :: "replica_runtime list"
  rs_status_sha256 :: string

datatype supervisor_error =
    PlanInvalid plan_error | GenerationIdentityInvalid | StatusNotSerializable
  | StatusIdentityInvalid | ReplicaInvalid | ProbeStateInvalid | PhaseFieldsInconsistent
  | ReplicasNotSorted | StatusMismatch | RunIdentityInvalid | ReplicaUnknown | NotEligible
  | AttemptOverflow | BudgetExhausted | TimeBackwards | StaleStart | ProbeRequired | StaleSignal
  | NoProbe | SignalReplayed | FailureOverflow | FailureLimit | StaleTimeout | ExitDetailInvalid
  | StaleExit | StaleDrain

section \<open>Validation\<close>

definition active_phase :: "replica_phase \<Rightarrow> bool" where
  "active_phase p \<longleftrightarrow> p = Starting \<or> p = RunningPhase"

definition validate_probe_runtime :: "probe_runtime \<Rightarrow> replica_phase \<Rightarrow> supervisor_error + unit" where
  "validate_probe_runtime p phase =
     (let pristine = pr_last_sequence p = 0 \<and> pr_last_signal_at p = None \<and> pr_ready_at p = None \<and>
            pr_failures p = 0 \<and> pr_phase p = ProbeWaiting;
          observed = pr_last_sequence p > 0 \<and> pr_last_signal_at p \<noteq> None
      in fail_if (\<not> pristine \<and> \<not> observed \<or>
           pr_failures p > MAX_PROBE_FAILURE_THRESHOLD \<or>
           pr_phase p = ProbeReady \<and> pr_failures p \<noteq> 0 \<or>
           pr_phase p = ProbeReady \<and> pr_ready_at p = None \<or>
           pr_phase p \<noteq> ProbeReady \<and> pr_ready_at p \<noteq> None \<or>
           pr_phase p = ProbeUnhealthy \<and> pr_failures p = 0 \<or>
           (case (pr_ready_at p, pr_last_signal_at p) of
              (Some ready, Some signal) \<Rightarrow> ready > signal | _ \<Rightarrow> False) \<or>
           phase = RunningPhase \<and> pr_phase p = ProbeWaiting \<or>
           phase = Starting \<and> pr_phase p = ProbeReady) ProbeStateInvalid)"

definition planned_stopped :: "replica_runtime \<Rightarrow> bool" where
  "planned_stopped r \<longleftrightarrow> rr_phase r = StoppedPhase \<and> rr_desired r = Stopped \<and> rr_attempt r = 0 \<and>
     rr_run_id r = None \<and> rr_started_at r = None \<and> rr_finished_at r = None \<and>
     rr_next_start_at r = None \<and> rr_exit_code r = None \<and> rr_detail r = None"

definition drained :: "replica_runtime \<Rightarrow> bool" where
  "drained r \<longleftrightarrow> rr_phase r = StoppedPhase \<and> rr_desired r = Running \<and> rr_run_id r = None \<and>
     rr_finished_at r \<noteq> None \<and> rr_next_start_at r = None \<and> rr_exit_code r = None \<and>
     rr_detail r = Some ''drained by rollout'' \<and> (rr_attempt r = 0 \<longleftrightarrow> rr_started_at r = None)"

definition policy_phase_is_valid :: "replica_runtime \<Rightarrow> bool" where
  "policy_phase_is_valid r =
     (case rr_phase r of
        Backoff \<Rightarrow> rr_restart r \<noteq> Never
      | Exhausted \<Rightarrow> rr_restart r \<noteq> Never
      | Succeeded \<Rightarrow> rr_restart r \<noteq> Always
      | Failed \<Rightarrow> rr_restart r = Never
      | _ \<Rightarrow> True)"

definition phase_fields_inconsistent :: "replica_runtime \<Rightarrow> bool" where
  "phase_fields_inconsistent r =
     (let active = active_phase (rr_phase r);
          waiting = rr_phase r = Backoff;
          pending = rr_phase r = Pending;
          stopped = rr_phase r = StoppedPhase;
          terminal = rr_phase r = Succeeded \<or> rr_phase r = Failed \<or> rr_phase r = Exhausted
      in active \<and> (rr_attempt r = 0 \<or> (case rr_run_id r of None \<Rightarrow> True | Some v \<Rightarrow> \<not> is_digest v) \<or>
             rr_started_at r = None \<or> rr_finished_at r \<noteq> None \<or> rr_next_start_at r \<noteq> None \<or>
             rr_exit_code r \<noteq> None \<or> rr_detail r \<noteq> None) \<or>
         waiting \<and> (rr_attempt r = 0 \<or> rr_run_id r \<noteq> None \<or> rr_started_at r = None \<or>
             rr_finished_at r = None \<or> rr_next_start_at r = None \<or> rr_detail r = None) \<or>
         pending \<and> (rr_attempt r \<noteq> 0 \<or> rr_run_id r \<noteq> None \<or> rr_started_at r \<noteq> None \<or>
             rr_finished_at r \<noteq> None \<or> rr_next_start_at r \<noteq> None \<or> rr_exit_code r \<noteq> None \<or>
             rr_detail r \<noteq> None) \<or>
         stopped \<and> \<not> planned_stopped r \<and> \<not> drained r \<or>
         rr_desired r = Stopped \<and> \<not> planned_stopped r \<or>
         terminal \<and> (rr_attempt r = 0 \<or> rr_started_at r = None \<or> rr_finished_at r = None \<or>
             rr_next_start_at r \<noteq> None \<or> rr_detail r = None) \<or>
         \<not> active \<and> \<not> waiting \<and> \<not> pending \<and> rr_run_id r \<noteq> None \<or>
         \<not> policy_phase_is_valid r \<or>
         (case (rr_finished_at r, rr_started_at r) of
            (Some finished, Some started) \<Rightarrow> finished < started | _ \<Rightarrow> False) \<or>
         (case (rr_next_start_at r, rr_finished_at r) of
            (Some nxt, Some finished) \<Rightarrow> nxt \<le> finished | _ \<Rightarrow> False))"

definition validate_replica :: "replica_runtime \<Rightarrow> supervisor_error + unit" where
  "validate_replica r =
     and_then (fail_if (\<not> valid_name (rid_instance (rr_id r)) \<or> rid_ordinal (rr_id r) = 0 \<or>
         rr_max_restarts r > MAX_STACK_RESTARTS \<or>
         rr_attempt r > wrapping_add 16 (rr_max_restarts r) 1 \<or>
         (case rr_detail r of None \<Rightarrow> False | Some d \<Rightarrow> \<not> valid_text d 512 False)) ReplicaInvalid) (\<lambda>_.
     and_then (case rr_probe r of None \<Rightarrow> Inr () | Some p \<Rightarrow> validate_probe_runtime p (rr_phase r)) (\<lambda>_.
     fail_if (phase_fields_inconsistent r) PhaseFieldsInconsistent))"

definition status_sha256 :: "runtime_status codec \<Rightarrow> runtime_status \<Rightarrow> supervisor_error + string" where
  "status_sha256 c s =
     and_then (ok_or (to_vec c (s\<lparr>rs_status_sha256 := []\<rparr>)) StatusNotSerializable) (\<lambda>b.
     Inr (sha256hex c b))"

definition replica_step ::
    "replica_id set \<times> replica_id option \<Rightarrow> replica_runtime \<Rightarrow> supervisor_error + replica_id set \<times> replica_id option" where
  "replica_step acc r =
     (case acc of (ids, previous) \<Rightarrow>
      and_then (validate_replica r) (\<lambda>_.
      and_then (fail_if ((case previous of None \<Rightarrow> False | Some v \<Rightarrow> v \<ge> rr_id r) \<or> rr_id r \<in> ids)
        ReplicasNotSorted) (\<lambda>_.
      Inr (insert (rr_id r) ids, Some (rr_id r)))))"

definition validate_status :: "runtime_status codec \<Rightarrow> runtime_status \<Rightarrow> supervisor_error + unit" where
  "validate_status c s =
     and_then (fail_if (rs_format_version s \<notin> {LEGACY_SUPERVISOR_STATUS_FORMAT_VERSION,
           SUPERVISOR_STATUS_FORMAT_VERSION} \<or>
         rs_format_version s = LEGACY_SUPERVISOR_STATUS_FORMAT_VERSION \<and>
           list_ex (\<lambda>r. rr_probe r \<noteq> None) (rs_replicas s) \<or>
         \<not> valid_name (rs_stack s) \<or> rs_revision s = 0 \<or> \<not> is_digest (rs_generation s) \<or>
         rs_observed_at s = 0 \<or> length (rs_replicas s) > MAX_STACK_TOTAL_REPLICAS \<or>
         \<not> is_digest (rs_status_sha256 s)) StatusIdentityInvalid) (\<lambda>_.
     and_then (status_sha256 c s) (\<lambda>computed.
     and_then (fail_if (computed \<noteq> rs_status_sha256 s) StatusIdentityInvalid) (\<lambda>_.
     and_then (try_fold replica_step ({}, None) (rs_replicas s)) (\<lambda>_. Inr ()))))"

text \<open>\<open>refresh\<close> seals the status and validates it; the sealed status stays even when the check fails.\<close>

definition refresh :: "runtime_status codec \<Rightarrow> runtime_status \<Rightarrow> (supervisor_error + unit) \<times> runtime_status" where
  "refresh c s =
     (let cleared = s\<lparr>rs_status_sha256 := []\<rparr> in
      case status_sha256 c cleared of
        Inl e \<Rightarrow> (Inl e, cleared)
      | Inr d \<Rightarrow> (let sealed = cleared\<lparr>rs_status_sha256 := d\<rparr> in (validate_status c sealed, sealed)))"

section \<open>Operations\<close>

definition pristine_probe :: probe_runtime where
  "pristine_probe = \<lparr>pr_phase = ProbeWaiting, pr_last_sequence = 0, pr_last_signal_at = None,
     pr_ready_at = None, pr_failures = 0\<rparr>"

definition planned_replica :: "planned_instance \<Rightarrow> nat \<Rightarrow> replica_runtime" where
  "planned_replica i ordinal =
     \<lparr>rr_id = ReplicaId (pi_name i) ordinal, rr_desired = pi_desired i, rr_restart = pi_restart i,
      rr_max_restarts = pi_max_restarts i, rr_attempt = 0,
      rr_phase = (if pi_desired i = Running then Pending else StoppedPhase),
      rr_run_id = None, rr_started_at = None, rr_finished_at = None, rr_next_start_at = None,
      rr_exit_code = None, rr_detail = None,
      rr_probe = (if pi_desired i = Running then map_option (\<lambda>_. pristine_probe) (pi_health i) else None)\<rparr>"

definition from_plan ::
    "stack_plan codec \<Rightarrow> runtime_status codec \<Rightarrow> (string \<Rightarrow> bool) \<Rightarrow> stack_plan \<Rightarrow> nat \<Rightarrow> string \<Rightarrow> nat
      \<Rightarrow> supervisor_error + runtime_status" where
  "from_plan pc c version_ok plan revision generation now_ms =
     and_then (map_err PlanInvalid (validate_plan pc version_ok plan)) (\<lambda>_.
     and_then (fail_if (revision = 0 \<or> \<not> is_digest generation \<or> now_ms = 0) GenerationIdentityInvalid) (\<lambda>_.
     let replicas = concat (map (\<lambda>i. map (planned_replica i) [1..<pi_replicas i + 1]) (pl_instances plan));
         v = \<lparr>rs_format_version = SUPERVISOR_STATUS_FORMAT_VERSION, rs_stack = pl_stack plan,
              rs_revision = revision, rs_generation = generation, rs_observed_at = now_ms,
              rs_replicas = replicas, rs_status_sha256 = []\<rparr>
     in case refresh c v of (r, s) \<Rightarrow> and_then r (\<lambda>_. Inr s)))"

definition replica_matches :: "replica_runtime \<Rightarrow> replica_runtime \<Rightarrow> bool" where
  "replica_matches a e \<longleftrightarrow> rr_id a = rr_id e \<and> rr_desired a = rr_desired e \<and> rr_restart a = rr_restart e \<and>
     rr_max_restarts a = rr_max_restarts e \<and> (rr_probe a \<noteq> None) = (rr_probe e \<noteq> None)"

definition validate_against ::
    "stack_plan codec \<Rightarrow> runtime_status codec \<Rightarrow> (string \<Rightarrow> bool) \<Rightarrow> runtime_status \<Rightarrow> stack_plan \<Rightarrow> nat
      \<Rightarrow> string \<Rightarrow> supervisor_error + unit" where
  "validate_against pc c version_ok s plan revision generation =
     and_then (validate_status c s) (\<lambda>_.
     and_then (from_plan pc c version_ok plan revision generation (rs_observed_at s)) (\<lambda>e.
     fail_if (rs_stack s \<noteq> rs_stack e \<or> rs_revision s \<noteq> revision \<or> rs_generation s \<noteq> generation \<or>
         length (rs_replicas s) \<noteq> length (rs_replicas e) \<or>
         list_ex (\<lambda>(a, b). \<not> replica_matches a b) (zip (rs_replicas s) (rs_replicas e))) StatusMismatch))"

text \<open>The phases a start may leave from; \<^verbatim>\<open>begin_start\<close> and \<^verbatim>\<open>eligible_starts\<close> share the test.\<close>

definition start_due :: "replica_runtime \<Rightarrow> nat \<Rightarrow> bool" where
  "start_due r now_ms =
     (case rr_phase r of
        Pending \<Rightarrow> True
      | Backoff \<Rightarrow> (case rr_next_start_at r of None \<Rightarrow> False | Some deadline \<Rightarrow> deadline \<le> now_ms)
      | _ \<Rightarrow> False)"

definition eligible_starts :: "runtime_status \<Rightarrow> nat \<Rightarrow> replica_id list" where
  "eligible_starts s now_ms =
     map rr_id (filter (\<lambda>r. rr_desired r = Running \<and> start_due r now_ms) (rs_replicas s))"

definition replica_mut :: "replica_id \<Rightarrow> runtime_status \<Rightarrow> supervisor_error + replica_runtime" where
  "replica_mut rid s = ok_or (find (\<lambda>r. rr_id r = rid) (rs_replicas s)) ReplicaUnknown"

text \<open>Writing through the reference that \<open>replica_mut\<close> returns: the first replica with the identity.\<close>

fun put_first :: "replica_id \<Rightarrow> replica_runtime \<Rightarrow> replica_runtime list \<Rightarrow> replica_runtime list" where
  "put_first rid r' [] = []"
| "put_first rid r' (r # rs) = (if rr_id r = rid then r' # rs else r # put_first rid r' rs)"

definition put_replica :: "replica_id \<Rightarrow> replica_runtime \<Rightarrow> runtime_status \<Rightarrow> runtime_status" where
  "put_replica rid r s = s\<lparr>rs_replicas := put_first rid r (rs_replicas s)\<rparr>"

text \<open>The common end of the methods: \<^verbatim>\<open>self.observed_at_ms = now_ms; self.refresh()?; Ok(value)\<close>.\<close>

definition observe ::
    "runtime_status codec \<Rightarrow> nat \<Rightarrow> 'a \<Rightarrow> runtime_status \<Rightarrow> (supervisor_error + 'a) \<times> runtime_status" where
  "observe c now_ms v s =
     (case refresh c (s\<lparr>rs_observed_at := now_ms\<rparr>) of (r, s') \<Rightarrow> (and_then r (\<lambda>_. Inr v), s'))"

definition begin_start ::
    "runtime_status codec \<Rightarrow> replica_id \<Rightarrow> string \<Rightarrow> nat \<Rightarrow> runtime_status
      \<Rightarrow> (supervisor_error + nat) \<times> runtime_status" where
  "begin_start c rid run_id now_ms s =
     (if \<not> is_digest run_id \<or> now_ms < rs_observed_at s then (Inl RunIdentityInvalid, s) else
      case replica_mut rid s of Inl e \<Rightarrow> (Inl e, s) | Inr r \<Rightarrow>
      if \<not> start_due r now_ms \<or> rr_desired r \<noteq> Running then (Inl NotEligible, s) else
      case checked_add 16 (rr_attempt r) 1 of None \<Rightarrow> (Inl AttemptOverflow, s) | Some attempt \<Rightarrow>
      if attempt > wrapping_add 16 (rr_max_restarts r) 1 then (Inl BudgetExhausted, s) else
      observe c now_ms attempt (put_replica rid
        (r\<lparr>rr_attempt := attempt, rr_phase := Starting, rr_run_id := Some run_id,
           rr_started_at := Some now_ms, rr_finished_at := None, rr_next_start_at := None,
           rr_exit_code := None, rr_detail := None,
           rr_probe := map_option (\<lambda>_. pristine_probe) (rr_probe r)\<rparr>) s))"

definition mark_running ::
    "runtime_status codec \<Rightarrow> replica_id \<Rightarrow> string \<Rightarrow> nat \<Rightarrow> runtime_status
      \<Rightarrow> (supervisor_error + unit) \<times> runtime_status" where
  "mark_running c rid run_id now_ms s =
     (if now_ms < rs_observed_at s then (Inl TimeBackwards, s) else
      case replica_mut rid s of Inl e \<Rightarrow> (Inl e, s) | Inr r \<Rightarrow>
      if rr_phase r \<noteq> Starting \<or> rr_run_id r \<noteq> Some run_id then (Inl StaleStart, s) else
      if rr_probe r \<noteq> None then (Inl ProbeRequired, s) else
      observe c now_ms () (put_replica rid (r\<lparr>rr_phase := RunningPhase\<rparr>) s))"

text \<open>The failure counter of a probe, shared by the signal and the timeout: on success the new
  counter has been written, on failure the probe is left as the code leaves it.\<close>

definition count_failure :: "probe_runtime \<Rightarrow> (supervisor_error + nat) \<times> probe_runtime" where
  "count_failure p =
     (let p1 = p\<lparr>pr_phase := ProbeUnhealthy, pr_ready_at := None\<rparr> in
      case checked_add 16 (pr_failures p) 1 of
        None \<Rightarrow> (Inl FailureOverflow, p1)
      | Some n \<Rightarrow> (let p2 = p1\<lparr>pr_failures := n\<rparr> in
          if n > MAX_PROBE_FAILURE_THRESHOLD then (Inl FailureLimit, p2) else (Inr n, p2)))"

definition mark_probe_signal ::
    "runtime_status codec \<Rightarrow> replica_id \<Rightarrow> string \<Rightarrow> nat \<Rightarrow> probe_signal_kind \<Rightarrow> nat \<Rightarrow> runtime_status
      \<Rightarrow> (supervisor_error + unit) \<times> runtime_status" where
  "mark_probe_signal c rid run_id sequence kind now_ms s =
     (if now_ms < rs_observed_at s then (Inl TimeBackwards, s) else
      case replica_mut rid s of Inl e \<Rightarrow> (Inl e, s) | Inr r \<Rightarrow>
      if \<not> active_phase (rr_phase r) \<or> rr_run_id r \<noteq> Some run_id then (Inl StaleSignal, s) else
      case rr_probe r of None \<Rightarrow> (Inl NoProbe, s) | Some p \<Rightarrow>
      if sequence \<le> pr_last_sequence p then (Inl SignalReplayed, s) else
      (let p1 = p\<lparr>pr_last_sequence := sequence, pr_last_signal_at := Some now_ms\<rparr> in
       case kind of
         SignalReady \<Rightarrow> observe c now_ms () (put_replica rid (r\<lparr>rr_phase := RunningPhase,
           rr_probe := Some (p1\<lparr>pr_phase := ProbeReady, pr_ready_at := Some now_ms, pr_failures := 0\<rparr>)\<rparr>) s)
       | SignalUnhealthy \<Rightarrow>
           (case count_failure p1 of
              (Inl e, p2) \<Rightarrow> (Inl e, put_replica rid (r\<lparr>rr_probe := Some p2\<rparr>) s)
            | (Inr _, p2) \<Rightarrow> observe c now_ms () (put_replica rid (r\<lparr>rr_probe := Some p2\<rparr>) s))
       | _ \<Rightarrow> observe c now_ms () (put_replica rid (r\<lparr>rr_probe := Some p1\<rparr>) s)))"

definition mark_probe_timeout ::
    "runtime_status codec \<Rightarrow> replica_id \<Rightarrow> string \<Rightarrow> nat \<Rightarrow> runtime_status
      \<Rightarrow> (supervisor_error + nat) \<times> runtime_status" where
  "mark_probe_timeout c rid run_id now_ms s =
     (if now_ms < rs_observed_at s then (Inl TimeBackwards, s) else
      case replica_mut rid s of Inl e \<Rightarrow> (Inl e, s) | Inr r \<Rightarrow>
      if \<not> active_phase (rr_phase r) \<or> rr_run_id r \<noteq> Some run_id then (Inl StaleTimeout, s) else
      case rr_probe r of None \<Rightarrow> (Inl NoProbe, s) | Some p \<Rightarrow>
      (case count_failure p of
         (Inl e, p') \<Rightarrow> (Inl e, put_replica rid (r\<lparr>rr_probe := Some p'\<rparr>) s)
       | (Inr failures, p') \<Rightarrow> observe c now_ms failures (put_replica rid (r\<lparr>rr_probe := Some p'\<rparr>) s)))"

definition probe_ready :: "runtime_status \<Rightarrow> replica_id \<Rightarrow> bool" where
  "probe_ready s rid =
     (case find (\<lambda>r. rr_id r = rid) (rs_replicas s) of
        None \<Rightarrow> False
      | Some r \<Rightarrow> (case rr_probe r of None \<Rightarrow> True | Some p \<Rightarrow> pr_phase p = ProbeReady))"

definition le_bytes16 :: "nat \<Rightarrow> bytes" where
  "le_bytes16 n = [word_of_nat (n mod 256), word_of_nat (n div 256 mod 256)]"

definition restart_backoff_ms :: "(bytes \<Rightarrow> bytes) \<Rightarrow> replica_id \<Rightarrow> nat \<Rightarrow> nat" where
  "restart_backoff_ms sha256 rid attempt =
     (let shift = min (attempt - 1) 7;
          base = min (saturating_mul 64 MIN_RESTART_BACKOFF_MS (2 ^ shift)) MAX_RESTART_BACKOFF_MS;
          digest = sha256 (map (\<lambda>ch. word_of_nat (of_char ch)) (rid_instance rid) @
            le_bytes16 (rid_ordinal rid) @ le_bytes16 attempt);
          jitter = (unat (digest ! 0) + 256 * unat (digest ! 1)) mod (base div 4 + 1)
      in min (saturating_add 64 base jitter) MAX_RESTART_BACKOFF_MS)"

definition finish_replica ::
    "(bytes \<Rightarrow> bytes) \<Rightarrow> replica_runtime \<Rightarrow> bool \<Rightarrow> int option \<Rightarrow> string \<Rightarrow> nat \<Rightarrow> replica_runtime" where
  "finish_replica sha256 r success exit_code detail now_ms =
     (let restart = (case rr_restart r of Never \<Rightarrow> False | OnFailure \<Rightarrow> \<not> success | Always \<Rightarrow> True);
          restart_available = rr_attempt r < wrapping_add 16 (rr_max_restarts r) 1;
          r1 = r\<lparr>rr_run_id := None, rr_finished_at := Some now_ms, rr_exit_code := exit_code,
                 rr_detail := Some detail\<rparr>
      in if restart \<and> restart_available
         then r1\<lparr>rr_phase := Backoff, rr_next_start_at :=
                Some (saturating_add 64 now_ms (restart_backoff_ms sha256 (rr_id r) (rr_attempt r)))\<rparr>
         else r1\<lparr>rr_phase := (if restart then Exhausted else if success then Succeeded else Failed),
                rr_next_start_at := None\<rparr>)"

definition mark_exit ::
    "runtime_status codec \<Rightarrow> (bytes \<Rightarrow> bytes) \<Rightarrow> replica_id \<Rightarrow> string \<Rightarrow> bool \<Rightarrow> int option \<Rightarrow> string \<Rightarrow> nat
      \<Rightarrow> runtime_status \<Rightarrow> (supervisor_error + unit) \<times> runtime_status" where
  "mark_exit c sha256 rid run_id success exit_code detail now_ms s =
     (if \<not> valid_text detail 512 False \<or> now_ms < rs_observed_at s then (Inl ExitDetailInvalid, s) else
      case replica_mut rid s of Inl e \<Rightarrow> (Inl e, s) | Inr r \<Rightarrow>
      if \<not> active_phase (rr_phase r) \<or> rr_run_id r \<noteq> Some run_id then (Inl StaleExit, s) else
      observe c now_ms () (put_replica rid (finish_replica sha256 r success exit_code detail now_ms) s))"

definition mark_drained ::
    "runtime_status codec \<Rightarrow> replica_id \<Rightarrow> string option \<Rightarrow> nat \<Rightarrow> runtime_status
      \<Rightarrow> (supervisor_error + unit) \<times> runtime_status" where
  "mark_drained c rid run_id now_ms s =
     (if now_ms < rs_observed_at s then (Inl TimeBackwards, s) else
      case replica_mut rid s of Inl e \<Rightarrow> (Inl e, s) | Inr r \<Rightarrow>
      if rr_desired r \<noteq> Running \<or> rr_phase r = StoppedPhase \<or>
          active_phase (rr_phase r) \<noteq> (run_id \<noteq> None) \<or>
          active_phase (rr_phase r) \<and> rr_run_id r \<noteq> run_id then (Inl StaleDrain, s) else
      observe c now_ms () (put_replica rid
        (r\<lparr>rr_phase := StoppedPhase, rr_run_id := None, rr_finished_at := Some now_ms,
           rr_next_start_at := None, rr_exit_code := None, rr_detail := Some ''drained by rollout''\<rparr>) s))"

definition interrupted_detail :: string where
  "interrupted_detail = ''previous supervisor exited before the worker''"

definition recover_interrupted ::
    "runtime_status codec \<Rightarrow> (bytes \<Rightarrow> bytes) \<Rightarrow> nat \<Rightarrow> runtime_status
      \<Rightarrow> (supervisor_error + nat) \<times> runtime_status" where
  "recover_interrupted c sha256 now_ms s =
     (if now_ms < rs_observed_at s then (Inl TimeBackwards, s) else
      let recovered = length (filter (\<lambda>r. active_phase (rr_phase r)) (rs_replicas s));
          s' = s\<lparr>rs_replicas := map (\<lambda>r. if active_phase (rr_phase r)
                 then finish_replica sha256 r False None interrupted_detail now_ms else r) (rs_replicas s)\<rparr>
      in if recovered > 0 then observe c now_ms recovered s' else (Inr recovered, s'))"

definition heartbeat ::
    "runtime_status codec \<Rightarrow> nat \<Rightarrow> runtime_status \<Rightarrow> (supervisor_error + unit) \<times> runtime_status" where
  "heartbeat c now_ms s =
     (if now_ms < rs_observed_at s then (Inl TimeBackwards, s) else observe c now_ms () s)"

section \<open>What the validator accepts\<close>

lemma replica_step_Inr:
  "replica_step (ids, previous) r = Inr a \<longleftrightarrow> validate_replica r = Inr () \<and>
     (case previous of None \<Rightarrow> True | Some v \<Rightarrow> v < rr_id r) \<and> rr_id r \<notin> ids \<and>
     a = (insert (rr_id r) ids, Some (rr_id r))"
  by (auto simp: replica_step_def result_simps split: option.splits)

lemma replica_fold_iff:
  "(\<exists>a. try_fold replica_step (ids, previous) rs = Inr a) \<longleftrightarrow>
     (\<forall>r \<in> set rs. validate_replica r = Inr () \<and> rr_id r \<notin> ids \<and>
        (case previous of None \<Rightarrow> True | Some v \<Rightarrow> v < rr_id r)) \<and>
     sorted_wrt (<) (map rr_id rs)"
proof (induction rs arbitrary: ids previous)
  case (Cons r rs)
  have "(\<exists>a. try_fold replica_step (ids, previous) (r # rs) = Inr a) \<longleftrightarrow>
      validate_replica r = Inr () \<and> (case previous of None \<Rightarrow> True | Some v \<Rightarrow> v < rr_id r) \<and> rr_id r \<notin> ids \<and>
      (\<exists>a. try_fold replica_step (insert (rr_id r) ids, Some (rr_id r)) rs = Inr a)"
    by (auto simp: and_then_Inr replica_step_Inr)
  also have "\<dots> \<longleftrightarrow> (\<forall>q \<in> set (r # rs). validate_replica q = Inr () \<and> rr_id q \<notin> ids \<and>
        (case previous of None \<Rightarrow> True | Some v \<Rightarrow> v < rr_id q)) \<and> sorted_wrt (<) (map rr_id (r # rs))"
    unfolding Cons.IH by (cases previous) fastforce+
  finally show ?case .
qed simp

definition identity_ok :: "runtime_status \<Rightarrow> bool" where
  "identity_ok s \<longleftrightarrow> rs_format_version s \<in> {1, 2} \<and>
     (rs_format_version s = 1 \<longrightarrow> (\<forall>r \<in> set (rs_replicas s). rr_probe r = None)) \<and>
     valid_name (rs_stack s) \<and> rs_revision s \<noteq> 0 \<and> is_digest (rs_generation s) \<and>
     rs_observed_at s \<noteq> 0 \<and> length (rs_replicas s) \<le> 256"

lemma validate_status_iff:
  "validate_status c s = Inr () \<longleftrightarrow> identity_ok s \<and> is_digest (rs_status_sha256 s) \<and>
     status_sha256 c s = Inr (rs_status_sha256 s) \<and>
     (\<forall>r \<in> set (rs_replicas s). validate_replica r = Inr ()) \<and> sorted_wrt (<) (map rr_id (rs_replicas s))"
proof -
  have "(\<exists>a. try_fold replica_step ({}, None) (rs_replicas s) = Inr a) \<longleftrightarrow>
     (\<forall>r \<in> set (rs_replicas s). validate_replica r = Inr ()) \<and> sorted_wrt (<) (map rr_id (rs_replicas s))"
    unfolding replica_fold_iff by simp
  moreover have "validate_status c s = Inr () \<longleftrightarrow> identity_ok s \<and> is_digest (rs_status_sha256 s) \<and>
     status_sha256 c s = Inr (rs_status_sha256 s) \<and>
     (\<exists>a. try_fold replica_step ({}, None) (rs_replicas s) = Inr a)"
    by (auto simp: validate_status_def and_then_Inr identity_ok_def supervisor_consts plan_consts list_ex_iff)
  ultimately show ?thesis by simp
qed

interpretation status_seal: sealed_document rs_status_sha256 "\<lambda>d s. s\<lparr>rs_status_sha256 := d\<rparr>" "status_sha256 c" for c
  by unfold_locales (simp_all add: status_sha256_def)

lemma status_sha256_total: "codec_ok c \<Longrightarrow> \<exists>d. status_sha256 c s = Inr d \<and> is_digest d"
  by (auto simp: status_sha256_def codec_ok_def split: option.splits) (metis not_None_eq ok_or_simps(2) and_then_simps(2))

lemma refresh_accepts:
  assumes "codec_ok c" and "identity_ok s" and "\<forall>r \<in> set (rs_replicas s). validate_replica r = Inr ()"
    and "sorted_wrt (<) (map rr_id (rs_replicas s))"
  obtains d where "refresh c s = (Inr (), s\<lparr>rs_status_sha256 := d\<rparr>)"
    and "validate_status c (s\<lparr>rs_status_sha256 := d\<rparr>) = Inr ()"
proof -
  obtain d where d: "status_sha256 c s = Inr d" "is_digest d" using status_sha256_total [OF assms(1)] by blast
  have e: "status_sha256 c (s\<lparr>rs_status_sha256 := t\<rparr>) = Inr d" for t
    using d(1) by (simp add: status_seal.compute_with)
  have v: "validate_status c (s\<lparr>rs_status_sha256 := d\<rparr>) = Inr ()"
    using assms d(2) e [of d] by (simp add: validate_status_iff identity_ok_def)
  then show thesis using that [of d] e [of "[]"] by (simp add: refresh_def Let_def)
qed

section \<open>The invariant\<close>

text \<open>Beyond what the validator checks, no recorded time lies after the last observation.\<close>

definition before :: "nat option \<Rightarrow> nat \<Rightarrow> bool" where
  "before t now_ms \<longleftrightarrow> (case t of None \<Rightarrow> True | Some x \<Rightarrow> x \<le> now_ms)"

definition times_ok :: "nat \<Rightarrow> replica_runtime \<Rightarrow> bool" where
  "times_ok now_ms r \<longleftrightarrow> before (rr_started_at r) now_ms \<and> before (rr_finished_at r) now_ms \<and>
     (case rr_probe r of None \<Rightarrow> True | Some p \<Rightarrow> before (pr_last_signal_at p) now_ms)"

definition replica_ok :: "nat \<Rightarrow> replica_runtime \<Rightarrow> bool" where
  "replica_ok now_ms r \<longleftrightarrow> validate_replica r = Inr () \<and> times_ok now_ms r"

definition status_inv :: "runtime_status \<Rightarrow> bool" where
  "status_inv s \<longleftrightarrow> identity_ok s \<and> sorted_wrt (<) (map rr_id (rs_replicas s)) \<and>
     (\<forall>r \<in> set (rs_replicas s). replica_ok (rs_observed_at s) r)"

lemma before_mono: "before t a \<Longrightarrow> a \<le> b \<Longrightarrow> before t b"
  by (auto simp: before_def split: option.splits)

lemma replica_ok_mono: "replica_ok a r \<Longrightarrow> a \<le> b \<Longrightarrow> replica_ok b r"
  by (auto simp: replica_ok_def times_ok_def split: option.splits intro: before_mono)

lemma put_first_map: "rr_id r' = rid \<Longrightarrow> map rr_id (put_first rid r' rs) = map rr_id rs"
  by (induction rs) auto

lemma put_first_length [simp]: "length (put_first rid r' rs) = length rs"
  by (induction rs) auto

lemma put_first_set: "set (put_first rid r' rs) \<subseteq> insert r' (set rs)"
  by (induction rs) auto

lemma find_put_first:
  "find (\<lambda>r. rr_id r = rid) rs = Some r \<Longrightarrow> rr_id r' = rid \<Longrightarrow> find (\<lambda>r. rr_id r = rid) (put_first rid r' rs) = Some r'"
  by (induction rs) (auto split: if_splits)

lemma put_first_update:
  "find (\<lambda>r. rr_id r = rid) rs = Some r \<Longrightarrow> \<exists>i < length rs. rs ! i = r \<and> put_first rid r' rs = rs[i := r']"
proof (induction rs)
  case (Cons q rs)
  show ?case
  proof (cases "rr_id q = rid")
    case True
    with Cons.prems show ?thesis by (intro exI [of _ 0]) simp
  next
    case False
    with Cons obtain i where "i < length rs" "rs ! i = r" "put_first rid r' rs = rs[i := r']" by auto
    with False show ?thesis by (intro exI [of _ "Suc i"]) simp
  qed
qed simp

lemma replica_mut_Inr: "replica_mut rid s = Inr r \<Longrightarrow> r \<in> set (rs_replicas s) \<and> rr_id r = rid"
  by (auto simp: replica_mut_def find_Some_iff)

text \<open>Every method ends in \<open>observe\<close>: it succeeds, and keeps the invariant, as soon as the replica
  written back is in order.\<close>

lemma observe_accepts:
  assumes "codec_ok c" and inv: "status_inv s" and time: "rs_observed_at s \<le> now_ms"
    and r: "replica_mut rid s = Inr r" and r': "replica_ok now_ms r'" "rr_id r' = rid"
    and probe: "(rr_probe r' = None) = (rr_probe r = None)"
  obtains d where "observe c now_ms v (put_replica rid r' s) =
      (Inr v, (put_replica rid r' s)\<lparr>rs_observed_at := now_ms, rs_status_sha256 := d\<rparr>)"
    and "status_inv ((put_replica rid r' s)\<lparr>rs_observed_at := now_ms, rs_status_sha256 := d\<rparr>)"
    and "validate_status c ((put_replica rid r' s)\<lparr>rs_observed_at := now_ms, rs_status_sha256 := d\<rparr>) = Inr ()"
proof -
  let ?s = "(put_replica rid r' s)\<lparr>rs_observed_at := now_ms\<rparr>"
  have mem: "r \<in> set (rs_replicas s)" using replica_mut_Inr [OF r] by simp
  have rep: "rs_replicas ?s = put_first rid r' (rs_replicas s)" by (simp add: put_replica_def)
  have sub: "q \<in> set (rs_replicas ?s) \<Longrightarrow> q = r' \<or> q \<in> set (rs_replicas s)" for q
    using put_first_set [of rid r' "rs_replicas s"] rep by auto
  have ok: "\<forall>q \<in> set (rs_replicas ?s). replica_ok now_ms q"
    using sub r'(1) inv time replica_ok_mono by (fastforce simp: status_inv_def)
  have id: "identity_ok ?s"
    using inv time sub probe mem unfolding status_inv_def identity_ok_def
    by (auto simp: put_replica_def)
  have sorted: "sorted_wrt (<) (map rr_id (rs_replicas ?s))"
    using inv r'(2) unfolding rep by (simp add: put_first_map status_inv_def)
  obtain d where d: "refresh c ?s = (Inr (), ?s\<lparr>rs_status_sha256 := d\<rparr>)"
    "validate_status c (?s\<lparr>rs_status_sha256 := d\<rparr>) = Inr ()"
    by (rule refresh_accepts [OF assms(1) id _ sorted]) (use ok in \<open>auto simp: replica_ok_def\<close>)
  have "status_inv (?s\<lparr>rs_status_sha256 := d\<rparr>)"
    using id sorted ok by (simp add: status_inv_def identity_ok_def)
  then show thesis using that [of d] d by (simp add: observe_def)
qed

section \<open>One replica\<close>

definition probe_ok :: "probe_runtime \<Rightarrow> replica_phase \<Rightarrow> bool" where
  "probe_ok p phase \<longleftrightarrow>
     (if pr_last_sequence p = 0 then p = pristine_probe else pr_last_signal_at p \<noteq> None) \<and>
     pr_failures p \<le> 10 \<and>
     (case pr_phase p of
        ProbeWaiting \<Rightarrow> pr_ready_at p = None \<and> phase \<noteq> RunningPhase
      | ProbeReady \<Rightarrow> pr_failures p = 0 \<and> pr_ready_at p \<noteq> None \<and> phase \<noteq> Starting
      | ProbeUnhealthy \<Rightarrow> pr_failures p \<noteq> 0 \<and> pr_ready_at p = None) \<and>
     (\<forall>ready signal. pr_ready_at p = Some ready \<longrightarrow> pr_last_signal_at p = Some signal \<longrightarrow> ready \<le> signal)"

lemma validate_probe_iff: "validate_probe_runtime p phase = Inr () \<longleftrightarrow> probe_ok p phase"
proof -
  have "p = pristine_probe \<longleftrightarrow> pr_last_sequence p = 0 \<and> pr_last_signal_at p = None \<and> pr_ready_at p = None \<and>
      pr_failures p = 0 \<and> pr_phase p = ProbeWaiting"
    by (cases p) (auto simp: pristine_probe_def)
  then show ?thesis
    by (cases "pr_phase p") (auto simp: validate_probe_runtime_def probe_ok_def Let_def plan_consts split: option.splits)
qed

lemma pristine_ok [simp]: "probe_ok pristine_probe phase \<longleftrightarrow> phase \<noteq> RunningPhase"
  by (auto simp: probe_ok_def pristine_probe_def)

lemma probe_ok_inactive: "probe_ok p phase \<Longrightarrow> \<not> active_phase phase' \<Longrightarrow> probe_ok p phase'"
  by (auto simp: probe_ok_def active_phase_def split: probe_phase.splits)

lemma wrapping_succ [simp]: "n \<le> MAX_STACK_RESTARTS \<Longrightarrow> wrapping_add 16 n (Suc 0) = Suc n"
  by (simp add: plan_consts)

lemma validate_replica_iff:
  "validate_replica r = Inr () \<longleftrightarrow> valid_name (rid_instance (rr_id r)) \<and> rid_ordinal (rr_id r) \<noteq> 0 \<and>
     rr_max_restarts r \<le> MAX_STACK_RESTARTS \<and> rr_attempt r \<le> rr_max_restarts r + 1 \<and>
     (\<forall>d. rr_detail r = Some d \<longrightarrow> valid_text d 512 False) \<and>
     (\<forall>p. rr_probe r = Some p \<longrightarrow> probe_ok p (rr_phase r)) \<and> \<not> phase_fields_inconsistent r"
  by (auto simp: validate_replica_def and_then_Inr validate_probe_iff not_less split: option.splits)

lemma active_fields:
  assumes "validate_replica r = Inr ()" and "active_phase (rr_phase r)"
  shows "rr_attempt r \<noteq> 0" "rr_finished_at r = None" "rr_next_start_at r = None" "rr_exit_code r = None"
    "rr_detail r = None" "rr_desired r = Running" "\<exists>t. rr_started_at r = Some t" "\<exists>run. rr_run_id r = Some run \<and> is_digest run"
  using assms by (auto simp: validate_replica_iff phase_fields_inconsistent_def Let_def active_phase_def
      planned_stopped_def split: option.splits; cases "rr_desired r"; simp)+

lemma drain_detail_ok: "valid_text ''drained by rollout'' 512 False"
  by (simp add: valid_text_def text_defs)

lemma interrupted_detail_ok: "valid_text interrupted_detail 512 False"
  by (simp add: interrupted_detail_def valid_text_def text_defs)

text \<open>A start, from \<^verbatim>\<open>Pending\<close> or a due \<^verbatim>\<open>Backoff\<close>.\<close>

lemma start_replica_ok:
  assumes "replica_ok t r" and "t \<le> now_ms" and "is_digest run" and "rr_desired r = Running"
    and "rr_attempt r + 1 \<le> rr_max_restarts r + 1"
  shows "replica_ok now_ms (r\<lparr>rr_attempt := rr_attempt r + 1, rr_phase := Starting, rr_run_id := Some run,
      rr_started_at := Some now_ms, rr_finished_at := None, rr_next_start_at := None,
      rr_exit_code := None, rr_detail := None, rr_probe := map_option (\<lambda>_. pristine_probe) (rr_probe r)\<rparr>)"
proof -
  let ?r = "r\<lparr>rr_attempt := rr_attempt r + 1, rr_phase := Starting, rr_run_id := Some run,
      rr_started_at := Some now_ms, rr_finished_at := None, rr_next_start_at := None,
      rr_exit_code := None, rr_detail := None, rr_probe := map_option (\<lambda>_. pristine_probe) (rr_probe r)\<rparr>"
  have "pr_last_signal_at pristine_probe = None" by (simp add: pristine_probe_def)
  then have "times_ok now_ms ?r" by (simp add: times_ok_def before_def split: option.splits)
  moreover have "\<not> phase_fields_inconsistent ?r"
    using assms(3,4) by (simp add: phase_fields_inconsistent_def Let_def active_phase_def policy_phase_is_valid_def)
  ultimately show ?thesis
    using assms(1,5) by (auto simp: replica_ok_def validate_replica_iff)
qed

lemma running_replica_ok:
  assumes "replica_ok t r" and "t \<le> now_ms" and "rr_phase r = Starting" and "rr_probe r = None"
  shows "replica_ok now_ms (r\<lparr>rr_phase := RunningPhase\<rparr>)"
proof -
  have v: "validate_replica r = Inr ()" using assms by (simp add: replica_ok_def)
  have f: "rr_desired r = Running" "rr_finished_at r = None" "rr_detail r = None" "rr_next_start_at r = None"
    using active_fields [OF v] assms(3) by (auto simp: active_phase_def)
  have "\<not> phase_fields_inconsistent (r\<lparr>rr_phase := RunningPhase\<rparr>)"
    using v assms(3) f by (auto simp: validate_replica_iff phase_fields_inconsistent_def Let_def
        active_phase_def policy_phase_is_valid_def)
  moreover have "times_ok now_ms (r\<lparr>rr_phase := RunningPhase\<rparr>)"
    using replica_ok_mono [OF assms(1,2)] by (simp add: replica_ok_def times_ok_def)
  ultimately show ?thesis
    using v assms(4) by (simp add: replica_ok_def validate_replica_iff)
qed

text \<open>A new probe on an active replica.\<close>

lemma probe_replica_ok:
  assumes "replica_ok t r" and "t \<le> now_ms" and "active_phase (rr_phase r)" and "active_phase phase"
    and "probe_ok p phase" and "before (pr_last_signal_at p) now_ms"
  shows "replica_ok now_ms (r\<lparr>rr_phase := phase, rr_probe := Some p\<rparr>)"
proof -
  have v: "validate_replica r = Inr ()" using assms by (simp add: replica_ok_def)
  have f: "rr_desired r = Running" "rr_finished_at r = None" "rr_detail r = None" "rr_next_start_at r = None"
    using active_fields [OF v] assms(3) by auto
  have "\<not> phase_fields_inconsistent (r\<lparr>rr_phase := phase, rr_probe := Some p\<rparr>)"
    using v assms(3,4) f by (auto simp: validate_replica_iff phase_fields_inconsistent_def Let_def
        active_phase_def policy_phase_is_valid_def)
  moreover have "times_ok now_ms (r\<lparr>rr_phase := phase, rr_probe := Some p\<rparr>)"
    using replica_ok_mono [OF assms(1,2)] assms(6) by (simp add: replica_ok_def times_ok_def)
  ultimately show ?thesis
    using v assms(5) by (simp add: replica_ok_def validate_replica_iff)
qed

lemma drain_replica_ok:
  assumes "replica_ok t r" and "t \<le> now_ms" and "rr_desired r = Running" and "rr_phase r \<noteq> StoppedPhase"
  shows "replica_ok now_ms (r\<lparr>rr_phase := StoppedPhase, rr_run_id := None, rr_finished_at := Some now_ms,
      rr_next_start_at := None, rr_exit_code := None, rr_detail := Some ''drained by rollout''\<rparr>)"
proof -
  let ?r = "r\<lparr>rr_phase := StoppedPhase, rr_run_id := None, rr_finished_at := Some now_ms,
      rr_next_start_at := None, rr_exit_code := None, rr_detail := Some ''drained by rollout''\<rparr>"
  have v: "validate_replica r = Inr ()" using assms by (simp add: replica_ok_def)
  have st: "rr_attempt r = 0 \<longleftrightarrow> rr_started_at r = None"
    using v assms(4) by (cases "rr_phase r") (auto simp: validate_replica_iff phase_fields_inconsistent_def Let_def active_phase_def)
  have t: "times_ok now_ms ?r"
    using replica_ok_mono [OF assms(1,2)] by (simp add: replica_ok_def times_ok_def before_def)
  have "\<not> phase_fields_inconsistent ?r"
    using st t assms(3) by (auto simp: phase_fields_inconsistent_def Let_def active_phase_def drained_def
        policy_phase_is_valid_def times_ok_def before_def split: option.splits)
  then show ?thesis
    using v t drain_detail_ok by (auto simp: replica_ok_def validate_replica_iff active_phase_def intro: probe_ok_inactive)
qed

lemma restart_backoff_bounds:
  shows "250 * 2 ^ min (attempt - 1) 6 \<le> restart_backoff_ms sha256 rid attempt"
    and "restart_backoff_ms sha256 rid attempt \<le> min 30000 (250 * 2 ^ min (attempt - 1) 7 * 5 div 4)"
proof -
  define k where "k = min (attempt - 1) 7"
  have k: "k \<le> 7" by (simp add: k_def)
  then have "k \<in> {0,1,2,3,4,5,6,7}" by auto
  then have base: "min (saturating_mul 64 MIN_RESTART_BACKOFF_MS (2 ^ k)) MAX_RESTART_BACKOFF_MS = min 30000 (250 * 2 ^ k)"
    "250 * 2 ^ min k 6 \<le> min 30000 (250 * 2 ^ k :: nat)" "min 30000 (250 * 2 ^ k) + min 30000 (250 * 2 ^ k) div 4 < (2 ^ 64 :: nat)"
    "min 30000 (min 30000 (250 * 2 ^ k) + min 30000 (250 * 2 ^ k) div 4) \<le> min 30000 (250 * 2 ^ k * 5 div 4 :: nat)"
    by (auto simp: saturating_mul_def supervisor_consts)
  define b where "b = min 30000 (250 * 2 ^ k :: nat)"
  obtain j where j: "j \<le> b div 4" "restart_backoff_ms sha256 rid attempt = min (saturating_add 64 b j) 30000"
  proof
    let ?d = "sha256 (map (\<lambda>ch. word_of_nat (of_char ch)) (rid_instance rid) @
            le_bytes16 (rid_ordinal rid) @ le_bytes16 attempt)"
    let ?j = "(unat (?d ! 0) + 256 * unat (?d ! 1)) mod (b div 4 + 1)"
    show "?j \<le> b div 4" by (simp add: less_Suc_eq_le [symmetric])
    show "restart_backoff_ms sha256 rid attempt = min (saturating_add 64 b ?j) 30000"
      unfolding restart_backoff_ms_def Let_def k_def [symmetric] base(1) b_def [symmetric]
      by (simp add: MAX_RESTART_BACKOFF_MS_def)
  qed
  have sat: "saturating_add 64 b j = b + j"
    using base(3) j(1) unfolding b_def [symmetric] by (simp add: saturating_add_def)
  have km: "min (attempt - 1) 6 = min k 6" by (simp add: k_def)
  show "250 * 2 ^ min (attempt - 1) 6 \<le> restart_backoff_ms sha256 rid attempt"
  proof -
    have "b \<le> 30000" by (simp add: b_def)
    then show ?thesis using base(2) unfolding j(2) sat km b_def [symmetric] by linarith
  qed
  show "restart_backoff_ms sha256 rid attempt \<le> min 30000 (250 * 2 ^ min (attempt - 1) 7 * 5 div 4)"
    using base(4) j(1) unfolding j(2) sat k_def [symmetric] b_def [symmetric] by linarith
qed

lemma next_start_later:
  assumes "now_ms < 2 ^ 64 - 1"
  shows "now_ms < saturating_add 64 now_ms (restart_backoff_ms sha256 rid attempt)"
proof -
  have "(1 :: nat) \<le> 250 * 2 ^ min (attempt - 1) 6" by simp
  also note restart_backoff_bounds(1) [of attempt sha256 rid]
  finally have "now_ms < now_ms + restart_backoff_ms sha256 rid attempt" by simp
  with assms show ?thesis unfolding saturating_add_def by (simp only: min_less_iff_conj)
qed

lemma finish_replica_id [simp]:
  "rr_id (finish_replica sha256 r success code detail now_ms) = rr_id r"
  "rr_desired (finish_replica sha256 r success code detail now_ms) = rr_desired r"
  "rr_restart (finish_replica sha256 r success code detail now_ms) = rr_restart r"
  "rr_max_restarts (finish_replica sha256 r success code detail now_ms) = rr_max_restarts r"
  "rr_attempt (finish_replica sha256 r success code detail now_ms) = rr_attempt r"
  "rr_probe (finish_replica sha256 r success code detail now_ms) = rr_probe r"
  "rr_started_at (finish_replica sha256 r success code detail now_ms) = rr_started_at r"
  "rr_finished_at (finish_replica sha256 r success code detail now_ms) = Some now_ms"
  "rr_detail (finish_replica sha256 r success code detail now_ms) = Some detail"
  "rr_run_id (finish_replica sha256 r success code detail now_ms) = None"
  by (simp_all add: finish_replica_def Let_def)

lemma finish_replica_phase:
  "\<not> active_phase (rr_phase (finish_replica sha256 r success code detail now_ms))"
  by (simp add: finish_replica_def Let_def active_phase_def)

lemma finish_replica_outcome:
  "let r' = finish_replica sha256 r success code detail now_ms in
     rr_phase r' = Backoff \<and> rr_restart r \<noteq> Never \<and>
       rr_next_start_at r' = Some (saturating_add 64 now_ms (restart_backoff_ms sha256 (rr_id r) (rr_attempt r))) \<or>
     rr_next_start_at r' = None \<and> (rr_phase r' = Exhausted \<and> rr_restart r \<noteq> Never \<or>
       rr_phase r' = Succeeded \<and> rr_restart r \<noteq> Always \<or> rr_phase r' = Failed \<and> rr_restart r = Never)"
  by (cases "rr_restart r"; cases success) (simp_all add: finish_replica_def Let_def)

lemma finish_replica_ok:
  assumes "replica_ok t r" and "t \<le> now_ms" and "active_phase (rr_phase r)"
    and "valid_text detail 512 False" and "now_ms < 2 ^ 64 - 1"
  shows "replica_ok now_ms (finish_replica sha256 r success code detail now_ms)" (is "replica_ok now_ms ?r")
proof -
  have v: "validate_replica r = Inr ()" using assms(1) by (simp add: replica_ok_def)
  note f = active_fields [OF v assms(3)]
  have t: "times_ok now_ms ?r"
    using replica_ok_mono [OF assms(1,2)] by (simp add: replica_ok_def times_ok_def before_def)
  note later = next_start_later [OF assms(5), of sha256 "rr_id r" "rr_attempt r"]
  have "\<not> phase_fields_inconsistent ?r"
    using finish_replica_outcome [of sha256 r success code detail now_ms] f t later
    unfolding Let_def by (elim disjE conjE) (simp_all add: phase_fields_inconsistent_def active_phase_def
        policy_phase_is_valid_def times_ok_def before_def split: option.splits)
  moreover have "\<forall>p. rr_probe r = Some p \<longrightarrow> probe_ok p (rr_phase ?r)"
    using v finish_replica_phase by (auto simp: validate_replica_iff intro: probe_ok_inactive)
  ultimately show ?thesis
    using v t assms(4) by (simp add: replica_ok_def validate_replica_iff)
qed

end
