(* ===== verification/Supervisor_Runs.thy ===== *)
theory Supervisor_Runs
  imports Supervisor
begin

text \<open>
  Runs of the supervisor: the methods of \<^verbatim>\<open>StackRuntimeStatus\<close> called one after the other.  Each
  successful call makes one move of one replica (relation \<open>replica_move\<close>), or finishes all active
  replicas, or only advances the clock.  The theorems say that in a run from \<^verbatim>\<open>from_plan\<close> no method
  fails its own final validation, that the status stays one of the plan it was made for, that a
  stale run identity changes nothing, and that a replica is started at most \<^verbatim>\<open>max_restarts + 1\<close> times.
\<close>

section \<open>Runs of the supervisor\<close>

text \<open>The supervisor calls the methods one after the other and gives up at the first error, so a run
  is a sequence of successful calls.  Unix time in milliseconds never reaches the last \<^verbatim>\<open>u64\<close>.\<close>

datatype supervisor_call =
    CallStart replica_id string nat
  | CallRunning replica_id string nat
  | CallSignal replica_id string nat probe_signal_kind nat
  | CallTimeout replica_id string nat
  | CallExit replica_id string bool "int option" string nat
  | CallDrain replica_id "string option" nat
  | CallRecover nat
  | CallHeartbeat nat

fun perform ::
    "runtime_status codec \<Rightarrow> (bytes \<Rightarrow> bytes) \<Rightarrow> supervisor_call \<Rightarrow> runtime_status
      \<Rightarrow> (supervisor_error + unit) \<times> runtime_status" where
  "perform c sha256 (CallStart rid run t) s =
     (case begin_start c rid run t s of (r, s') \<Rightarrow> (and_then r (\<lambda>_. Inr ()), s'))"
| "perform c sha256 (CallRunning rid run t) s = mark_running c rid run t s"
| "perform c sha256 (CallSignal rid run sequence kind t) s = mark_probe_signal c rid run sequence kind t s"
| "perform c sha256 (CallTimeout rid run t) s =
     (case mark_probe_timeout c rid run t s of (r, s') \<Rightarrow> (and_then r (\<lambda>_. Inr ()), s'))"
| "perform c sha256 (CallExit rid run success code detail t) s = mark_exit c sha256 rid run success code detail t s"
| "perform c sha256 (CallDrain rid run t) s = mark_drained c rid run t s"
| "perform c sha256 (CallRecover t) s =
     (case recover_interrupted c sha256 t s of (r, s') \<Rightarrow> (and_then r (\<lambda>_. Inr ()), s'))"
| "perform c sha256 (CallHeartbeat t) s = heartbeat c t s"

fun call_time :: "supervisor_call \<Rightarrow> nat" where
  "call_time (CallStart _ _ t) = t"
| "call_time (CallRunning _ _ t) = t"
| "call_time (CallSignal _ _ _ _ t) = t"
| "call_time (CallTimeout _ _ t) = t"
| "call_time (CallExit _ _ _ _ _ t) = t"
| "call_time (CallDrain _ _ t) = t"
| "call_time (CallRecover t) = t"
| "call_time (CallHeartbeat t) = t"

text \<open>The effect of a successful call: on one replica, on all of them, and on the clock.\<close>

inductive replica_move :: "(bytes \<Rightarrow> bytes) \<Rightarrow> supervisor_call \<Rightarrow> replica_runtime \<Rightarrow> replica_runtime \<Rightarrow> bool"
  for sha256 where
  move_start: "is_digest run \<Longrightarrow> start_due r t \<Longrightarrow> rr_desired r = Running \<Longrightarrow> rr_attempt r \<le> rr_max_restarts r \<Longrightarrow> rr_id r = rid \<Longrightarrow>
    replica_move sha256 (CallStart rid run t) r
      (r\<lparr>rr_attempt := rr_attempt r + 1, rr_phase := Starting, rr_run_id := Some run,
         rr_started_at := Some t, rr_finished_at := None, rr_next_start_at := None,
         rr_exit_code := None, rr_detail := None, rr_probe := map_option (\<lambda>_. pristine_probe) (rr_probe r)\<rparr>)"
| move_running: "rr_phase r = Starting \<Longrightarrow> rr_run_id r = Some run \<Longrightarrow> rr_probe r = None \<Longrightarrow> rr_id r = rid \<Longrightarrow>
    replica_move sha256 (CallRunning rid run t) r (r\<lparr>rr_phase := RunningPhase\<rparr>)"
| move_signal: "active_phase (rr_phase r) \<Longrightarrow> rr_run_id r = Some run \<Longrightarrow> rr_probe r = Some p \<Longrightarrow>
    pr_last_sequence p < sequence \<Longrightarrow> kind = SignalStarted \<or> kind = SignalHeartbeat \<Longrightarrow> rr_id r = rid \<Longrightarrow>
    replica_move sha256 (CallSignal rid run sequence kind t) r
      (r\<lparr>rr_probe := Some (p\<lparr>pr_last_sequence := sequence, pr_last_signal_at := Some t\<rparr>)\<rparr>)"
| move_ready: "active_phase (rr_phase r) \<Longrightarrow> rr_run_id r = Some run \<Longrightarrow> rr_probe r = Some p \<Longrightarrow>
    pr_last_sequence p < sequence \<Longrightarrow> rr_id r = rid \<Longrightarrow>
    replica_move sha256 (CallSignal rid run sequence SignalReady t) r
      (r\<lparr>rr_phase := RunningPhase, rr_probe := Some (p\<lparr>pr_last_sequence := sequence, pr_last_signal_at := Some t,
         pr_phase := ProbeReady, pr_ready_at := Some t, pr_failures := 0\<rparr>)\<rparr>)"
| move_unhealthy: "active_phase (rr_phase r) \<Longrightarrow> rr_run_id r = Some run \<Longrightarrow> rr_probe r = Some p \<Longrightarrow>
    pr_last_sequence p < sequence \<Longrightarrow> pr_failures p < 10 \<Longrightarrow> rr_id r = rid \<Longrightarrow>
    replica_move sha256 (CallSignal rid run sequence SignalUnhealthy t) r
      (r\<lparr>rr_probe := Some (p\<lparr>pr_last_sequence := sequence, pr_last_signal_at := Some t,
         pr_phase := ProbeUnhealthy, pr_ready_at := None, pr_failures := pr_failures p + 1\<rparr>)\<rparr>)"
| move_timeout: "active_phase (rr_phase r) \<Longrightarrow> rr_run_id r = Some run \<Longrightarrow> rr_probe r = Some p \<Longrightarrow>
    pr_last_sequence p \<noteq> 0 \<Longrightarrow> pr_failures p < 10 \<Longrightarrow> rr_id r = rid \<Longrightarrow>
    replica_move sha256 (CallTimeout rid run t) r
      (r\<lparr>rr_probe := Some (p\<lparr>pr_phase := ProbeUnhealthy, pr_ready_at := None, pr_failures := pr_failures p + 1\<rparr>)\<rparr>)"
| move_exit: "active_phase (rr_phase r) \<Longrightarrow> rr_run_id r = Some run \<Longrightarrow> valid_text detail 512 False \<Longrightarrow> rr_id r = rid \<Longrightarrow>
    replica_move sha256 (CallExit rid run success code detail t) r
      (finish_replica sha256 r success code detail t)"
| move_drain: "rr_desired r = Running \<Longrightarrow> rr_phase r \<noteq> StoppedPhase \<Longrightarrow>
    active_phase (rr_phase r) = (run \<noteq> None) \<Longrightarrow> active_phase (rr_phase r) \<longrightarrow> rr_run_id r = run \<Longrightarrow> rr_id r = rid \<Longrightarrow>
    replica_move sha256 (CallDrain rid run t) r
      (r\<lparr>rr_phase := StoppedPhase, rr_run_id := None, rr_finished_at := Some t,
         rr_next_start_at := None, rr_exit_code := None, rr_detail := Some ''drained by rollout''\<rparr>)"

inductive_cases start_moveE: "replica_move sha256 (CallStart rid run t) r r'"

lemma replica_move_same: "replica_move sha256 call r r' \<Longrightarrow> replica_matches r' r"
  by (induction rule: replica_move.induct) (auto simp: replica_matches_def)

lemma probe_observed:
  assumes "probe_ok p phase" and "pr_last_sequence p < sequence"
  shows "probe_ok (p\<lparr>pr_last_sequence := sequence, pr_last_signal_at := Some t, pr_phase := ProbeUnhealthy,
      pr_ready_at := None, pr_failures := pr_failures p + 1\<rparr>) phase \<longleftrightarrow> pr_failures p < 10"
    and "phase' \<noteq> Starting \<Longrightarrow> probe_ok (p\<lparr>pr_last_sequence := sequence, pr_last_signal_at := Some t,
      pr_phase := ProbeReady, pr_ready_at := Some t, pr_failures := 0\<rparr>) phase'"
  using assms by (auto simp: probe_ok_def)

lemma probe_heartbeat:
  assumes "probe_ok p phase" and "pr_last_sequence p < sequence" and "before (pr_last_signal_at p) t"
  shows "probe_ok (p\<lparr>pr_last_sequence := sequence, pr_last_signal_at := Some t\<rparr>) phase"
  using assms by (cases "pr_phase p") (auto simp: probe_ok_def before_def pristine_probe_def split: option.splits if_splits)

lemma probe_timeout:
  assumes "probe_ok p phase" and "pr_last_sequence p \<noteq> 0" and "pr_failures p < 10"
  shows "probe_ok (p\<lparr>pr_phase := ProbeUnhealthy, pr_ready_at := None, pr_failures := pr_failures p + 1\<rparr>) phase"
  using assms by (auto simp: probe_ok_def)

lemma replica_ok_probe:
  "replica_ok t r \<Longrightarrow> rr_probe r = Some p \<Longrightarrow> probe_ok p (rr_phase r) \<and> before (pr_last_signal_at p) t"
  by (simp add: replica_ok_def validate_replica_iff times_ok_def)

lemma replica_move_ok:
  assumes "replica_move sha256 call r r'" and "replica_ok t0 r" and "t0 \<le> call_time call"
    and "call_time call < 2 ^ 64 - 1"
  shows "replica_ok (call_time call) r'"
  using assms
proof (induction rule: replica_move.induct)
  case (move_start run r t rid)
  then show ?case using start_replica_ok [of t0 r t run] by simp
next
  case (move_running r run rid t)
  then show ?case using running_replica_ok [of t0 r t] by simp
next
  case (move_signal r run p sequence kind rid t)
  note p = replica_ok_probe [OF move_signal.prems(1) move_signal.hyps(3)]
  have "probe_ok (p\<lparr>pr_last_sequence := sequence, pr_last_signal_at := Some t\<rparr>) (rr_phase r)"
    using p move_signal.hyps(4) move_signal.prems(2) by (intro probe_heartbeat) (auto intro: before_mono)
  then show ?case
    using probe_replica_ok [OF move_signal.prems(1,2) move_signal.hyps(1) move_signal.hyps(1)]
    by (simp add: before_def)
next
  case (move_ready r run p sequence rid t)
  note p = replica_ok_probe [OF move_ready.prems(1) move_ready.hyps(3)]
  have "active_phase RunningPhase" by (simp add: active_phase_def)
  from probe_replica_ok [OF move_ready.prems(1,2) move_ready.hyps(1) this] show ?case
    using probe_observed(2) [of p "rr_phase r" sequence RunningPhase t] p move_ready.hyps(4) by (simp add: before_def)
next
  case (move_unhealthy r run p sequence rid t)
  note p = replica_ok_probe [OF move_unhealthy.prems(1) move_unhealthy.hyps(3)]
  show ?case
    using probe_replica_ok [OF move_unhealthy.prems(1,2) move_unhealthy.hyps(1) move_unhealthy.hyps(1)]
      probe_observed(1) [of p "rr_phase r" sequence t] p move_unhealthy.hyps(4,5) by (simp add: before_def)
next
  case (move_timeout r run p rid t)
  note p = replica_ok_probe [OF move_timeout.prems(1) move_timeout.hyps(3)]
  show ?case
    using probe_replica_ok [OF move_timeout.prems(1,2) move_timeout.hyps(1) move_timeout.hyps(1)]
      probe_timeout [of p "rr_phase r"] before_mono [of "pr_last_signal_at p" t0 t] p
      move_timeout.hyps(4,5) move_timeout.prems(2)
    by simp
next
  case (move_exit r run detail rid success code t)
  then show ?case using finish_replica_ok [of t0 r t detail] by simp
next
  case (move_drain r run rid t)
  then show ?case using drain_replica_ok [of t0 r t] by simp
qed

text \<open>The errors of the guards, as opposed to those of the final validation.\<close>

definition guard_error :: "supervisor_error \<Rightarrow> bool" where
  "guard_error e \<longleftrightarrow> e \<notin> {StatusNotSerializable, StatusIdentityInvalid, ReplicaInvalid, ProbeStateInvalid,
     PhaseFieldsInconsistent, ReplicasNotSorted}"

definition written :: "replica_id \<Rightarrow> replica_runtime \<Rightarrow> nat \<Rightarrow> string \<Rightarrow> runtime_status \<Rightarrow> runtime_status" where
  "written rid r' t d s = (put_replica rid r' s)\<lparr>rs_observed_at := t, rs_status_sha256 := d\<rparr>"

lemma move_commits:
  assumes "codec_ok c" and "status_inv s" and "rs_observed_at s \<le> call_time call" and "call_time call < 2 ^ 64 - 1"
    and "replica_mut rid s = Inr r" and "replica_move sha256 call r r'" and "t = call_time call"
  shows "\<exists>d. observe c t v (put_replica rid r' s) = (Inr v, written rid r' t d s) \<and>
    status_inv (written rid r' t d s) \<and> validate_status c (written rid r' t d s) = Inr ()"
proof -
  note r = replica_mut_Inr [OF assms(5)]
  have "replica_ok (rs_observed_at s) r" using r assms(2) by (simp add: status_inv_def)
  then have ok: "replica_ok t r'" using replica_move_ok [OF assms(6)] assms(3,4,7) by simp
  have same: "rr_id r' = rid" "(rr_probe r' = None) = (rr_probe r = None)"
    using replica_move_same [OF assms(6)] r by (auto simp: replica_matches_def)
  obtain d where "observe c t v (put_replica rid r' s) =
      (Inr v, (put_replica rid r' s)\<lparr>rs_observed_at := t, rs_status_sha256 := d\<rparr>)"
    "status_inv ((put_replica rid r' s)\<lparr>rs_observed_at := t, rs_status_sha256 := d\<rparr>)"
    "validate_status c ((put_replica rid r' s)\<lparr>rs_observed_at := t, rs_status_sha256 := d\<rparr>) = Inr ()"
    using observe_accepts [OF assms(1,2) _ assms(5) ok same, of v] assms(3,7) by blast
  then show ?thesis unfolding written_def by blast
qed

definition moved ::
    "runtime_status codec \<Rightarrow> (bytes \<Rightarrow> bytes) \<Rightarrow> supervisor_call \<Rightarrow> replica_id \<Rightarrow> runtime_status \<Rightarrow> runtime_status \<Rightarrow> bool" where
  "moved c sha256 call rid s s' \<longleftrightarrow> rs_observed_at s \<le> call_time call \<and> (\<exists>r r' d. replica_mut rid s = Inr r \<and>
     replica_move sha256 call r r' \<and> s' = written rid r' (call_time call) d s \<and> status_inv s' \<and>
     validate_status c s' = Inr ())"

lemma movedI:
  assumes "codec_ok c" and "status_inv s" and "rs_observed_at s \<le> call_time call" and "call_time call < 2 ^ 64 - 1"
    and "replica_mut rid s = Inr r" and "replica_move sha256 call r r'" and "t = call_time call"
    and "observe c t v (put_replica rid r' s) = (q, s')"
  shows "q = Inr v \<and> moved c sha256 call rid s s'"
  using move_commits [OF assms(1-7), of v] assms(3,5,6,7,8) unfolding moved_def by auto

text \<open>What a method does before it writes: it fails a guard, or makes one of the moves and ends in
  \<open>observe\<close>.\<close>

definition attempts ::
    "runtime_status codec \<Rightarrow> (bytes \<Rightarrow> bytes) \<Rightarrow> supervisor_call \<Rightarrow> replica_id \<Rightarrow> 'a \<Rightarrow> runtime_status
      \<Rightarrow> (supervisor_error + 'a) \<times> runtime_status \<Rightarrow> bool" where
  "attempts c sha256 call rid v s res \<longleftrightarrow> (\<exists>e. fst res = Inl e \<and> guard_error e) \<or>
     rs_observed_at s \<le> call_time call \<and> (\<exists>r r'. replica_mut rid s = Inr r \<and> replica_move sha256 call r r' \<and>
       res = observe c (call_time call) v (put_replica rid r' s))"

lemma attempts_moved:
  assumes "attempts c sha256 call rid v s (q, s')" and "codec_ok c" and "status_inv s" and "call_time call < 2 ^ 64 - 1"
  shows "(\<exists>e. q = Inl e \<and> guard_error e) \<or> q = Inr v \<and> moved c sha256 call rid s s'"
  using assms movedI [OF assms(2,3) _ assms(4) _ _ refl, of rid _ sha256 _ v q s'] unfolding attempts_def by (metis fst_conv)

lemma attempts_guard: "guard_error e \<Longrightarrow> attempts c sha256 call rid v s (Inl e, s')"
  by (simp add: attempts_def)

lemma replica_mut_guard: "replica_mut rid s = Inl e \<Longrightarrow> guard_error e"
  by (auto simp: replica_mut_def guard_error_def)

lemma attemptsI:
  assumes "rs_observed_at s \<le> t" and "replica_mut rid s = Inr r" and "call_time call = t"
    and "rr_id r = rid \<Longrightarrow> replica_move sha256 call r r'"
  shows "attempts c sha256 call rid v s (observe c t v (put_replica rid r' s))"
  using assms replica_mut_Inr [OF assms(2)] unfolding attempts_def by blast

lemma mark_running_attempts:
  "attempts c sha256 (CallRunning rid run t) rid () s (mark_running c rid run t s)"
  unfolding mark_running_def
  by (auto split: sum.split simp: not_less guard_error_def intro!: attempts_guard attemptsI move_running
      dest: replica_mut_guard)

lemma mark_exit_attempts:
  "attempts c sha256 (CallExit rid run success code detail t) rid () s (mark_exit c sha256 rid run success code detail t s)"
  unfolding mark_exit_def
  by (auto split: sum.split simp: not_less guard_error_def intro!: attempts_guard attemptsI move_exit
      dest: replica_mut_guard)

lemma mark_drained_attempts:
  "attempts c sha256 (CallDrain rid run t) rid () s (mark_drained c rid run t s)"
  unfolding mark_drained_def
  by (auto split: sum.split simp: not_less guard_error_def intro!: attempts_guard attemptsI move_drain
      dest: replica_mut_guard)

lemma inv_replica:
  assumes "status_inv s" and "replica_mut rid s = Inr r"
  shows "replica_ok (rs_observed_at s) r" "rr_max_restarts r \<le> MAX_STACK_RESTARTS" "rr_attempt r \<le> rr_max_restarts r + 1"
  using assms replica_mut_Inr [OF assms(2)] by (auto simp: status_inv_def replica_ok_def validate_replica_iff)

lemma begin_start_attempts:
  assumes "status_inv s"
  shows "\<exists>n. attempts c sha256 (CallStart rid run t) rid n s (begin_start c rid run t s)"
proof (cases "is_digest run \<and> rs_observed_at s \<le> t")
  case True
  show ?thesis
  proof (cases "replica_mut rid s")
    case (Inr r)
    note b = inv_replica [OF assms Inr]
    have add: "checked_add 16 (rr_attempt r) 1 = Some (rr_attempt r + 1)"
      "wrapping_add 16 (rr_max_restarts r) 1 = rr_max_restarts r + 1"
      using b(2,3) by (simp_all add: plan_consts)
    from True show ?thesis
      unfolding begin_start_def Inr sum.case add option.case
      by (intro exI [of _ "rr_attempt r + 1"])
        (auto simp: not_less guard_error_def simp del: One_nat_def intro!: attempts_guard attemptsI [OF _ Inr] move_start)
  qed (use True in \<open>auto simp: begin_start_def intro!: attempts_guard dest: replica_mut_guard\<close>)
qed (auto simp: begin_start_def guard_error_def intro!: attempts_guard)

lemma count_failure_small:
  "pr_failures p \<le> 10 \<Longrightarrow> count_failure p =
     (if pr_failures p < 10
      then (Inr (pr_failures p + 1), p\<lparr>pr_phase := ProbeUnhealthy, pr_ready_at := None, pr_failures := pr_failures p + 1\<rparr>)
      else (Inl FailureLimit, p\<lparr>pr_phase := ProbeUnhealthy, pr_ready_at := None, pr_failures := pr_failures p + 1\<rparr>))"
  by (simp add: count_failure_def Let_def checked_add_def plan_consts)

lemma mark_probe_signal_attempts:
  assumes "status_inv s"
  shows "attempts c sha256 (CallSignal rid run sequence kind t) rid () s (mark_probe_signal c rid run sequence kind t s)"
proof (cases "rs_observed_at s \<le> t")
  case time: True
  show ?thesis
  proof (cases "replica_mut rid s")
    case (Inr r)
    show ?thesis
    proof (cases "active_phase (rr_phase r) \<and> rr_run_id r = Some run")
      case go: True
      show ?thesis
      proof (cases "rr_probe r")
        case (Some p)
        then have f: "pr_failures p \<le> 10"
          using replica_ok_probe [OF inv_replica(1) [OF assms Inr]] by (simp add: probe_ok_def)
        have f': "pr_failures (p\<lparr>pr_last_sequence := sequence, pr_last_signal_at := Some t\<rparr>) \<le> 10" using f by simp
        show ?thesis
          unfolding mark_probe_signal_def Inr sum.case Some option.case Let_def count_failure_small [OF f']
          using time go Some
          by (cases kind) (auto simp: not_le guard_error_def simp del: One_nat_def
              intro!: attempts_guard attemptsI [OF _ Inr] replica_move.intros)
      qed (use time go Inr in \<open>auto simp: mark_probe_signal_def guard_error_def intro!: attempts_guard\<close>)
    qed (use time Inr in \<open>auto simp: mark_probe_signal_def guard_error_def intro!: attempts_guard\<close>)
  qed (use time in \<open>auto simp: mark_probe_signal_def intro!: attempts_guard dest: replica_mut_guard\<close>)
qed (auto simp: mark_probe_signal_def guard_error_def intro!: attempts_guard)

definition unsignalled :: "replica_id \<Rightarrow> runtime_status \<Rightarrow> bool" where
  "unsignalled rid s \<longleftrightarrow> (\<exists>r p. replica_mut rid s = Inr r \<and> rr_probe r = Some p \<and> pr_last_sequence p = 0)"

lemma mark_probe_timeout_attempts:
  assumes "status_inv s" and "\<not> unsignalled rid s"
  shows "\<exists>n. attempts c sha256 (CallTimeout rid run t) rid n s (mark_probe_timeout c rid run t s)"
proof (cases "rs_observed_at s \<le> t")
  case time: True
  show ?thesis
  proof (cases "replica_mut rid s")
    case (Inr r)
    show ?thesis
    proof (cases "rr_probe r")
      case (Some p)
      then have f: "pr_failures p \<le> 10" and sq: "pr_last_sequence p \<noteq> 0"
        using replica_ok_probe [OF inv_replica(1) [OF assms(1) Inr]] assms(2) Inr
        by (simp_all add: probe_ok_def unsignalled_def)
      show ?thesis
        unfolding mark_probe_timeout_def Inr sum.case Some option.case Let_def count_failure_small [OF f]
        using time Some sq
        by (intro exI [of _ "pr_failures p + 1"]) (auto simp: not_le guard_error_def simp del: One_nat_def
            intro!: attempts_guard attemptsI [OF _ Inr] move_timeout)
    qed (use time Inr in \<open>auto simp: mark_probe_timeout_def guard_error_def intro!: attempts_guard\<close>)
  qed (use time in \<open>auto simp: mark_probe_timeout_def intro!: attempts_guard dest: replica_mut_guard\<close>)
qed (auto simp: mark_probe_timeout_def guard_error_def intro!: attempts_guard)

lemma recover_accepts:
  assumes "codec_ok c" and "status_inv s" and "rs_observed_at s \<le> t" and "t < 2 ^ 64 - 1"
  obtains s' where "recover_interrupted c sha256 t s =
      (Inr (length (filter (\<lambda>r. active_phase (rr_phase r)) (rs_replicas s))), s')"
    and "rs_replicas s' = map (\<lambda>r. if active_phase (rr_phase r)
      then finish_replica sha256 r False None interrupted_detail t else r) (rs_replicas s)"
    and "rs_stack s' = rs_stack s" "rs_revision s' = rs_revision s" "rs_generation s' = rs_generation s"
    and "rs_format_version s' = rs_format_version s" and "status_inv s'"
    and "validate_status c s = Inr () \<Longrightarrow> validate_status c s' = Inr ()"
proof -
  let ?f = "\<lambda>r. if active_phase (rr_phase r) then finish_replica sha256 r False None interrupted_detail t else r"
  let ?s = "s\<lparr>rs_replicas := map ?f (rs_replicas s), rs_observed_at := t\<rparr>"
  have ids: "rr_id (?f r) = rr_id r" "(rr_probe (?f r) = None) = (rr_probe r = None)" for r by simp_all
  have ok: "\<forall>r \<in> set (rs_replicas ?s). replica_ok t r"
    using assms(2-4) interrupted_detail_ok finish_replica_ok replica_ok_mono
    by (fastforce simp: status_inv_def)
  have id: "identity_ok ?s"
    using assms(2,3) ids(2) by (auto simp: status_inv_def identity_ok_def)
  have sorted: "sorted_wrt (<) (map rr_id (rs_replicas ?s))"
    using assms(2) ids(1) by (simp add: status_inv_def comp_def)
  obtain d where d: "refresh c ?s = (Inr (), ?s\<lparr>rs_status_sha256 := d\<rparr>)"
    "validate_status c (?s\<lparr>rs_status_sha256 := d\<rparr>) = Inr ()"
    by (rule refresh_accepts [OF assms(1) id _ sorted]) (use ok in \<open>auto simp: replica_ok_def\<close>)
  have inv: "status_inv (?s\<lparr>rs_status_sha256 := d\<rparr>)"
    using id sorted ok by (simp add: status_inv_def identity_ok_def)
  show thesis
  proof (cases "filter (\<lambda>r. active_phase (rr_phase r)) (rs_replicas s) = []")
    case True
    then have "map ?f (rs_replicas s) = rs_replicas s" by (simp add: filter_empty_conv map_idI)
    then have "recover_interrupted c sha256 t s = (Inr 0, s)"
      using True assms(3) by (simp add: recover_interrupted_def)
    with True that [of s] assms(2) \<open>map ?f (rs_replicas s) = rs_replicas s\<close> show ?thesis by simp
  next
    case False
    then have "recover_interrupted c sha256 t s = (Inr (length (filter (\<lambda>r. active_phase (rr_phase r)) (rs_replicas s))),
        ?s\<lparr>rs_status_sha256 := d\<rparr>)"
      using assms(3) d(1) by (simp add: recover_interrupted_def observe_def)
    from that [OF this] inv d(2) show ?thesis by simp
  qed
qed

lemma heartbeat_accepts:
  assumes "codec_ok c" and "status_inv s" and "rs_observed_at s \<le> t"
  obtains d where "heartbeat c t s = (Inr (), s\<lparr>rs_observed_at := t, rs_status_sha256 := d\<rparr>)"
    and "status_inv (s\<lparr>rs_observed_at := t, rs_status_sha256 := d\<rparr>)"
    and "validate_status c (s\<lparr>rs_observed_at := t, rs_status_sha256 := d\<rparr>) = Inr ()"
proof -
  let ?s = "s\<lparr>rs_observed_at := t\<rparr>"
  have ok: "\<forall>r \<in> set (rs_replicas s). replica_ok t r" using assms(2,3) replica_ok_mono by (auto simp: status_inv_def)
  have id: "identity_ok ?s" and sorted: "sorted_wrt (<) (map rr_id (rs_replicas ?s))"
    using assms(2,3) by (auto simp: status_inv_def identity_ok_def)
  obtain d where d: "refresh c ?s = (Inr (), ?s\<lparr>rs_status_sha256 := d\<rparr>)"
    "validate_status c (?s\<lparr>rs_status_sha256 := d\<rparr>) = Inr ()"
    by (rule refresh_accepts [OF assms(1) id _ sorted]) (use ok in \<open>auto simp: replica_ok_def\<close>)
  moreover have "status_inv (?s\<lparr>rs_status_sha256 := d\<rparr>)"
    using id sorted ok by (simp add: status_inv_def identity_ok_def)
  ultimately show thesis using that [of d] assms(3) by (simp add: heartbeat_def observe_def)
qed

lemma find_in_set: "find P xs = Some x \<Longrightarrow> x \<in> set xs"
  by (induction xs) (auto split: if_splits)

lemma unsignalled_timeout_fails:
  assumes "status_inv s" and "unsignalled rid s"
  shows "fst (mark_probe_timeout c rid run t s) \<noteq> Inr n"
proof
  assume ok: "fst (mark_probe_timeout c rid run t s) = Inr n"
  obtain r p where r: "replica_mut rid s = Inr r" and p: "rr_probe r = Some p" "pr_last_sequence p = 0"
    using assms(2) by (auto simp: unsignalled_def)
  have "pr_failures p \<le> 10"
    using replica_ok_probe [OF inv_replica(1) [OF assms(1) r] p(1)] by (simp add: probe_ok_def)
  note count = count_failure_small [OF this]
  define r' where "r' = r\<lparr>rr_probe := Some (p\<lparr>pr_phase := ProbeUnhealthy, pr_ready_at := None, pr_failures := pr_failures p + 1\<rparr>)\<rparr>"
  have "fst (observe c t (pr_failures p + 1) (put_replica rid r' s)) = Inr n"
    using ok unfolding mark_probe_timeout_def r sum.case p(1) option.case count r'_def
    by (simp split: if_splits)
  then obtain d where "validate_status c (written rid r' t d s) = Inr ()"
    unfolding observe_def refresh_def Let_def written_def
    by (simp add: and_then_Inr split: sum.splits prod.splits) blast
  moreover have "r' \<in> set (rs_replicas (written rid r' t d s))"
  proof -
    have "rr_id r' = rid" using replica_mut_Inr [OF r] by (simp add: r'_def)
    moreover have "find (\<lambda>r. rr_id r = rid) (rs_replicas s) = Some r" using r by (simp add: replica_mut_def)
    ultimately show ?thesis
      using find_in_set [OF find_put_first] by (simp add: written_def put_replica_def)
  qed
  ultimately have "validate_replica r' = Inr ()" by (simp add: validate_status_iff)
  then show False
    using p(2) by (cases p) (auto simp: validate_replica_iff r'_def probe_ok_def pristine_probe_def)
qed

fun call_replica :: "supervisor_call \<Rightarrow> replica_id option" where
  "call_replica (CallStart rid _ _) = Some rid"
| "call_replica (CallRunning rid _ _) = Some rid"
| "call_replica (CallSignal rid _ _ _ _) = Some rid"
| "call_replica (CallTimeout rid _ _) = Some rid"
| "call_replica (CallExit rid _ _ _ _ _) = Some rid"
| "call_replica (CallDrain rid _ _) = Some rid"
| "call_replica (CallRecover _) = None"
| "call_replica (CallHeartbeat _) = None"

lemma attempts_result:
  assumes "attempts c sha256 call rid n s res" and "codec_ok c" and "status_inv s" and "call_time call < 2 ^ 64 - 1"
    and "q = and_then (fst res) (\<lambda>_. Inr ())" and "s' = snd res"
  shows "(\<exists>e. q = Inl e \<and> guard_error e) \<or> q = Inr () \<and> moved c sha256 call rid s s'"
  using attempts_moved [of c sha256 call rid n s "fst res" "snd res"] assms by auto

lemma and_then_unit: "and_then x Inr = x"
  by (cases x) auto

lemma perform_one:
  assumes "codec_ok c" and "status_inv s" and "call_time call < 2 ^ 64 - 1"
    and "call_replica call = Some rid" and "perform c sha256 call s = (q, s')"
    and "\<not> (\<exists>run t. call = CallTimeout rid run t \<and> unsignalled rid s)"
  shows "(\<exists>e. q = Inl e \<and> guard_error e) \<or> q = Inr () \<and> moved c sha256 call rid s s'"
proof (cases call)
  case (CallStart rid' run t)
  then obtain n where "attempts c sha256 call rid n s (begin_start c rid run t s)"
    using begin_start_attempts [OF assms(2)] assms(4) by (metis call_replica.simps(1) option.inject)
  then show ?thesis
    by (rule attempts_result [OF _ assms(1-3)]) (use CallStart assms(4,5) in \<open>auto split: prod.splits\<close>)
next
  case (CallRunning rid' run t)
  then have "attempts c sha256 call rid () s (mark_running c rid run t s)"
    using mark_running_attempts assms(4) by simp
  then show ?thesis
    by (rule attempts_result [OF _ assms(1-3)]) (use CallRunning assms(4,5) in \<open>simp_all add: and_then_unit\<close>)
next
  case (CallSignal rid' run sequence kind t)
  then have "attempts c sha256 call rid () s (mark_probe_signal c rid run sequence kind t s)"
    using mark_probe_signal_attempts [OF assms(2)] assms(4) by simp
  then show ?thesis
    by (rule attempts_result [OF _ assms(1-3)]) (use CallSignal assms(4,5) in \<open>simp_all add: and_then_unit\<close>)
next
  case (CallTimeout rid' run t)
  then have "\<not> unsignalled rid s" using assms(4,6) by auto
  then obtain n where "attempts c sha256 call rid n s (mark_probe_timeout c rid run t s)"
    using mark_probe_timeout_attempts [OF assms(2)] CallTimeout assms(4) by (metis call_replica.simps(4) option.inject)
  then show ?thesis
    by (rule attempts_result [OF _ assms(1-3)]) (use CallTimeout assms(4,5) in \<open>auto split: prod.splits\<close>)
next
  case (CallExit rid' run success code detail t)
  then have "attempts c sha256 call rid () s (mark_exit c sha256 rid run success code detail t s)"
    using mark_exit_attempts assms(4) by simp
  then show ?thesis
    by (rule attempts_result [OF _ assms(1-3)]) (use CallExit assms(4,5) in \<open>simp_all add: and_then_unit\<close>)
next
  case (CallDrain rid' run t)
  then have "attempts c sha256 call rid () s (mark_drained c rid run t s)"
    using mark_drained_attempts assms(4) by simp
  then show ?thesis
    by (rule attempts_result [OF _ assms(1-3)]) (use CallDrain assms(4,5) in \<open>simp_all add: and_then_unit\<close>)
qed (use assms(4) in auto)

lemma perform_all:
  assumes "codec_ok c" and "status_inv s" and "call_time call < 2 ^ 64 - 1"
    and "call_replica call = None" and "perform c sha256 call s = (q, s')"
  shows "(\<exists>e. q = Inl e \<and> guard_error e) \<or> q = Inr () \<and> status_inv s' \<and>
    (validate_status c s = Inr () \<longrightarrow> validate_status c s' = Inr ()) \<and>
    rs_stack s' = rs_stack s \<and> rs_revision s' = rs_revision s \<and> rs_generation s' = rs_generation s \<and>
    list_all2 (\<lambda>r' r. replica_matches r' r \<and> rr_attempt r' = rr_attempt r) (rs_replicas s') (rs_replicas s)"
proof (cases "rs_observed_at s \<le> call_time call")
  case True
  have refl: "list_all2 (\<lambda>r' r. replica_matches r' r \<and> rr_attempt r' = rr_attempt r) rs rs" for rs
    by (simp add: list_all2_refl replica_matches_def)
  show ?thesis
  proof (cases call)
    case (CallRecover t)
    then have "rs_observed_at s \<le> t" "t < 2 ^ 64 - 1" using True assms(3) by simp_all
    then obtain s1 where "recover_interrupted c sha256 t s =
        (Inr (length (filter (\<lambda>r. active_phase (rr_phase r)) (rs_replicas s))), s1)"
      "rs_replicas s1 = map (\<lambda>r. if active_phase (rr_phase r)
        then finish_replica sha256 r False None interrupted_detail t else r) (rs_replicas s)"
      "rs_stack s1 = rs_stack s" "rs_revision s1 = rs_revision s" "rs_generation s1 = rs_generation s"
      "status_inv s1" "validate_status c s = Inr () \<Longrightarrow> validate_status c s1 = Inr ()"
      by (rule recover_accepts [OF assms(1,2), of t sha256]) blast
    then show ?thesis
      using CallRecover assms(5) by (auto simp: list_all2_map1 replica_matches_def intro!: list_all2_refl split: if_splits)
  next
    case (CallHeartbeat t)
    then have "rs_observed_at s \<le> t" using True by simp
    then obtain d where "heartbeat c t s = (Inr (), s\<lparr>rs_observed_at := t, rs_status_sha256 := d\<rparr>)"
      "status_inv (s\<lparr>rs_observed_at := t, rs_status_sha256 := d\<rparr>)"
      "validate_status c (s\<lparr>rs_observed_at := t, rs_status_sha256 := d\<rparr>) = Inr ()"
      by (rule heartbeat_accepts [OF assms(1,2)])
    then show ?thesis using CallHeartbeat assms(5) refl by auto
  qed (use assms(4) in auto)
next
  case False
  with assms(4,5) show ?thesis
    by (cases call) (auto simp: recover_interrupted_def heartbeat_def guard_error_def)
qed

section \<open>The first status\<close>

lemma planned_replica_ok:
  assumes "valid_name (pi_name i)" and "pi_max_restarts i \<le> MAX_STACK_RESTARTS" and "ordinal \<noteq> 0"
  shows "replica_ok now_ms (planned_replica i ordinal)"
proof (cases "pi_desired i")
  case Running
  with assms show ?thesis
    by (auto simp: replica_ok_def validate_replica_iff times_ok_def before_def planned_replica_def
        phase_fields_inconsistent_def active_phase_def policy_phase_is_valid_def pristine_probe_def [symmetric]
        split: option.splits) (simp add: pristine_probe_def)
next
  case Stopped
  with assms show ?thesis
    by (simp add: replica_ok_def validate_replica_iff times_ok_def before_def planned_replica_def
        phase_fields_inconsistent_def active_phase_def policy_phase_is_valid_def planned_stopped_def)
qed

definition planned_replicas :: "planned_instance list \<Rightarrow> replica_runtime list" where
  "planned_replicas is = concat (map (\<lambda>i. map (planned_replica i) [1..<pi_replicas i + 1]) is)"

lemma planned_replica_id [simp]: "rr_id (planned_replica i n) = ReplicaId (pi_name i) n"
  by (simp add: planned_replica_def)

lemma planned_replicas_sorted:
  "sorted_wrt (<) (map pi_name is) \<Longrightarrow> sorted_wrt (<) (map rr_id (planned_replicas is))"
proof (induction "is")
  case (Cons i "is")
  have first: "sorted_wrt (<) (map (\<lambda>n. ReplicaId (pi_name i) n) [1..<pi_replicas i + 1])"
    unfolding sorted_wrt_map by (rule sorted_wrt_mono_rel [OF _ sorted_wrt_upt]) (simp add: less_replica_id_def)
  have later: "x < y" if "x \<in> rr_id ` set (map (planned_replica i) [1..<pi_replicas i + 1])"
    "y \<in> rr_id ` set (planned_replicas is)" for x y
    using that Cons.prems by (auto simp: planned_replicas_def less_replica_id_def)
  have "map rr_id (planned_replicas (i # is)) =
      map (\<lambda>n. ReplicaId (pi_name i) n) [1..<pi_replicas i + 1] @ map rr_id (planned_replicas is)"
    by (simp add: planned_replicas_def comp_def)
  then show ?case
    using first later Cons by (simp add: sorted_wrt_append comp_def image_comp)
qed (simp add: planned_replicas_def)

lemma planned_replicas_length: "length (planned_replicas is) = sum_list (map pi_replicas is)"
  by (induction "is") (simp_all add: planned_replicas_def)

definition first_status :: "stack_plan \<Rightarrow> nat \<Rightarrow> string \<Rightarrow> nat \<Rightarrow> string \<Rightarrow> runtime_status" where
  "first_status plan revision generation now_ms d =
     \<lparr>rs_format_version = SUPERVISOR_STATUS_FORMAT_VERSION, rs_stack = pl_stack plan,
      rs_revision = revision, rs_generation = generation, rs_observed_at = now_ms,
      rs_replicas = planned_replicas (pl_instances plan), rs_status_sha256 = d\<rparr>"

lemma from_plan_accepts:
  assumes "codec_ok c" and "validate_plan pc version_ok plan = Inr ()"
    and "revision \<noteq> 0" and "is_digest generation" and "now_ms \<noteq> 0"
  obtains d where "from_plan pc c version_ok plan revision generation now_ms =
      Inr (first_status plan revision generation now_ms d)"
    and "status_inv (first_status plan revision generation now_ms d)"
    and "validate_status c (first_status plan revision generation now_ms d) = Inr ()"
proof -
  let ?s = "first_status plan revision generation now_ms []"
  note v = validate_plan_instances [OF assms(2)]
  have stack: "valid_name (pl_stack plan)" using assms(2) by (simp add: validate_plan_def result_simps)
  have ok: "\<forall>r \<in> set (planned_replicas (pl_instances plan)). replica_ok now_ms r"
    using v(2) validate_planned_instance_Inr(7,9) [of version_ok]
    by (fastforce simp: planned_replicas_def intro!: planned_replica_ok)
  have sorted: "sorted_wrt (<) (map rr_id (rs_replicas ?s))"
    using v(1) by (simp add: first_status_def planned_replicas_sorted)
  have id: "identity_ok ?s"
    using stack assms(3-5) v(3) by (simp add: identity_ok_def first_status_def supervisor_consts
        planned_replicas_length plan_consts)
  obtain d where d: "refresh c ?s = (Inr (), ?s\<lparr>rs_status_sha256 := d\<rparr>)"
    "validate_status c (?s\<lparr>rs_status_sha256 := d\<rparr>) = Inr ()"
    by (rule refresh_accepts [OF assms(1) id _ sorted]) (use ok in \<open>auto simp: replica_ok_def first_status_def\<close>)
  have eq: "?s\<lparr>rs_status_sha256 := d\<rparr> = first_status plan revision generation now_ms d"
    by (simp add: first_status_def)
  have "status_inv (first_status plan revision generation now_ms d)"
    using id sorted ok by (simp add: status_inv_def identity_ok_def first_status_def)
  then show thesis
    using that [of d] d assms(2-5) unfolding eq
    by (simp add: from_plan_def Let_def first_status_def planned_replicas_def)
qed

lemma from_plan_Inr:
  assumes "from_plan pc c version_ok plan revision generation now_ms = Inr s"
  shows "validate_plan pc version_ok plan = Inr ()" "revision \<noteq> 0" "is_digest generation" "now_ms \<noteq> 0"
  using assms by (auto simp: from_plan_def result_simps Let_def)

section \<open>Reachable statuses\<close>

inductive supervised ::
    "runtime_status codec \<Rightarrow> (bytes \<Rightarrow> bytes) \<Rightarrow> runtime_status \<Rightarrow> supervisor_call list \<Rightarrow> runtime_status \<Rightarrow> bool"
  for c sha256 s0 where
  supervised_start: "supervised c sha256 s0 [] s0"
| supervised_call: "supervised c sha256 s0 calls s \<Longrightarrow> call_time call < 2 ^ 64 - 1 \<Longrightarrow>
    perform c sha256 call s = (Inr (), s') \<Longrightarrow> supervised c sha256 s0 (calls @ [call]) s'"

definition starts_replica :: "replica_id \<Rightarrow> supervisor_call \<Rightarrow> bool" where
  "starts_replica rid call = (case call of CallStart rid' _ _ \<Rightarrow> rid' = rid | _ \<Rightarrow> False)"

definition start_count :: "replica_id \<Rightarrow> supervisor_call list \<Rightarrow> nat" where
  "start_count rid calls = length (filter (starts_replica rid) calls)"

text \<open>The frame of a successful call: the generation, and for every replica what the plan fixed and
  the number of its starts.\<close>

definition follows :: "supervisor_call \<Rightarrow> runtime_status \<Rightarrow> runtime_status \<Rightarrow> bool" where
  "follows call s' s \<longleftrightarrow> rs_stack s' = rs_stack s \<and> rs_revision s' = rs_revision s \<and>
     rs_generation s' = rs_generation s \<and>
     list_all2 (\<lambda>r' r. replica_matches r' r \<and>
       rr_attempt r' = rr_attempt r + (if starts_replica (rr_id r) call then 1 else 0))
       (rs_replicas s') (rs_replicas s)"

lemma replica_move_starts:
  "replica_move sha256 call r r' \<Longrightarrow> call_replica call = Some (rr_id r) \<and>
     rr_attempt r' = rr_attempt r + (if starts_replica (rr_id r) call then 1 else 0)"
  by (induction rule: replica_move.induct) (auto simp: starts_replica_def)

lemma starts_replica_of: "starts_replica rid call \<Longrightarrow> call_replica call = Some rid"
  by (cases call) (auto simp: starts_replica_def)

lemma put_first_all2:
  assumes "distinct (map rr_id rs)" and "find (\<lambda>r. rr_id r = rid) rs = Some r" and "P r' r"
    and "\<And>q. q \<in> set rs \<Longrightarrow> rr_id q \<noteq> rid \<Longrightarrow> P q q"
  shows "list_all2 P (put_first rid r' rs) rs"
  using assms
proof (induction rs)
  case (Cons q rs)
  show ?case
  proof (cases "rr_id q = rid")
    case True
    then have "rr_id x \<noteq> rid" if "x \<in> set rs" for x using Cons.prems(1) that by (metis distinct.simps(2) image_eqI list.simps(9) set_map)
    with True Cons.prems show ?thesis by (auto intro!: list_all2_refl simp: list.rel_refl_strong)
  next
    case False
    with Cons show ?thesis by simp
  qed
qed simp

lemma moved_follows:
  assumes "status_inv s" and "moved c sha256 call rid s s'"
  shows "follows call s' s"
proof -
  obtain r r' d where r: "replica_mut rid s = Inr r" and m: "replica_move sha256 call r r'"
    and s': "s' = written rid r' (call_time call) d s"
    using assms(2) by (auto simp: moved_def)
  note id = replica_mut_Inr [OF r]
  have "distinct (map rr_id (rs_replicas s))"
    using assms(1) strict_sorted_iff by (auto simp: status_inv_def)
  moreover have "find (\<lambda>r. rr_id r = rid) (rs_replicas s) = Some r" using r by (simp add: replica_mut_def)
  moreover have "replica_matches r' r \<and> rr_attempt r' = rr_attempt r + (if starts_replica (rr_id r) call then 1 else 0)"
    using replica_move_same [OF m] replica_move_starts [OF m] by simp
  moreover have "replica_matches q q \<and> rr_attempt q = rr_attempt q + (if starts_replica (rr_id q) call then 1 else 0)"
    if "rr_id q \<noteq> rid" for q
    using that id replica_move_starts [OF m] starts_replica_of [of "rr_id q" call] by (auto simp: replica_matches_def)
  ultimately have "list_all2 (\<lambda>r' r. replica_matches r' r \<and>
       rr_attempt r' = rr_attempt r + (if starts_replica (rr_id r) call then 1 else 0))
       (put_first rid r' (rs_replicas s)) (rs_replicas s)"
    by (intro put_first_all2) auto
  then show ?thesis by (simp add: follows_def s' written_def put_replica_def)
qed

lemma perform_step:
  assumes "codec_ok c" and "status_inv s" and "validate_status c s = Inr ()" and "call_time call < 2 ^ 64 - 1"
    and "perform c sha256 call s = (Inr (), s')"
  shows "status_inv s' \<and> validate_status c s' = Inr () \<and> follows call s' s"
proof (cases "call_replica call")
  case None
  then have "\<not> starts_replica rid call" for rid using starts_replica_of by fastforce
  then show ?thesis using perform_all [OF assms(1,2,4) None assms(5)] assms(3) by (simp add: follows_def)
next
  case (Some rid)
  have "\<not> (\<exists>run t. call = CallTimeout rid run t \<and> unsignalled rid s)"
  proof
    assume "\<exists>run t. call = CallTimeout rid run t \<and> unsignalled rid s"
    then obtain run t where call: "call = CallTimeout rid run t" and u: "unsignalled rid s" by blast
    obtain q s1 where q: "mark_probe_timeout c rid run t s = (q, s1)" by fastforce
    then obtain n where "q = Inr n" using assms(5) call by (auto simp: and_then_Inr)
    with q unsignalled_timeout_fails [OF assms(2) u, of c run t n] show False by simp
  qed
  from perform_one [OF assms(1,2,4) Some assms(5) this] have "moved c sha256 call rid s s'" by simp
  moreover from this have "follows call s' s" by (rule moved_follows [OF assms(2)])
  ultimately show ?thesis by (auto simp: moved_def)
qed

lemma supervised_invariant:
  assumes "supervised c sha256 s0 calls s" and "codec_ok c" and "status_inv s0" and "validate_status c s0 = Inr ()"
    and "\<forall>r \<in> set (rs_replicas s0). rr_attempt r = 0"
  shows "status_inv s \<and> validate_status c s = Inr () \<and> rs_stack s = rs_stack s0 \<and>
    rs_revision s = rs_revision s0 \<and> rs_generation s = rs_generation s0 \<and>
    list_all2 (\<lambda>r r0. replica_matches r r0 \<and> rr_attempt r = start_count (rr_id r) calls) (rs_replicas s) (rs_replicas s0)"
  using assms
proof (induction rule: supervised.induct)
  case supervised_start
  then show ?case by (auto simp: start_count_def replica_matches_def intro!: list_all2_refl list.rel_refl_strong)
next
  case (supervised_call calls s call s')
  then have IH: "status_inv s" "validate_status c s = Inr ()" by simp_all
  have st: "status_inv s' \<and> validate_status c s' = Inr () \<and> follows call s' s"
    using perform_step [OF supervised_call.prems(1) IH supervised_call.hyps(2,3)] .
  have one: "list_all2 (\<lambda>r' r. replica_matches r' r \<and>
       rr_attempt r' = rr_attempt r + (if starts_replica (rr_id r) call then 1 else 0))
       (rs_replicas s') (rs_replicas s)" using st by (simp add: follows_def)
  have many: "list_all2 (\<lambda>r r0. replica_matches r r0 \<and> rr_attempt r = start_count (rr_id r) calls)
       (rs_replicas s) (rs_replicas s0)" using supervised_call by simp
  have "list_all2 (\<lambda>r r0. replica_matches r r0 \<and> rr_attempt r = start_count (rr_id r) (calls @ [call]))
       (rs_replicas s') (rs_replicas s0)"
    by (rule list_all2_trans [OF _ one many]) (auto simp: replica_matches_def start_count_def)
  then show ?case using supervised_call st by (simp add: follows_def)
qed

section \<open>Properties\<close>

lemma supervised_from_plan:
  assumes "codec_ok c" and "from_plan pc c version_ok plan revision generation t0 = Inr s0" and "supervised c sha256 s0 calls s"
  shows "status_inv s" "validate_status c s = Inr ()" "rs_stack s = pl_stack plan" "rs_revision s = revision"
    "rs_generation s = generation"
    "list_all2 (\<lambda>r r0. replica_matches r r0 \<and> rr_attempt r = start_count (rr_id r) calls)
       (rs_replicas s) (planned_replicas (pl_instances plan))"
proof -
  note p = from_plan_Inr [OF assms(2)]
  obtain d where d: "s0 = first_status plan revision generation t0 d" "status_inv s0" "validate_status c s0 = Inr ()"
    using from_plan_accepts [OF assms(1) p] assms(2) by (metis sum.inject(2))
  have "\<forall>r \<in> set (rs_replicas s0). rr_attempt r = 0"
    by (auto simp: d(1) first_status_def planned_replicas_def planned_replica_def)
  note inv = supervised_invariant [OF assms(3,1) d(2,3) this]
  show "status_inv s" "validate_status c s = Inr ()" "rs_stack s = pl_stack plan" "rs_revision s = revision"
    "rs_generation s = generation"
    "list_all2 (\<lambda>r r0. replica_matches r r0 \<and> rr_attempt r = start_count (rr_id r) calls)
       (rs_replicas s) (planned_replicas (pl_instances plan))"
    using inv by (simp_all add: d(1) first_status_def)
qed

text \<open>C10: the supervisor never invalidates its own status.  Along any run from \<^verbatim>\<open>from_plan\<close>, a further
  call either succeeds, leaving a status its validator accepts, or is refused by one of the method's
  own guards; the validation at the end of the method never fails.  The one exception is a probe
  timeout reported for a replica that has not sent a single signal.\<close>

theorem supervisor_never_invalid:
  assumes "codec_ok c" and "from_plan pc c version_ok plan revision generation t0 = Inr s0"
    and "supervised c sha256 s0 calls s" and "call_time call < 2 ^ 64 - 1"
    and "\<And>rid run t. call = CallTimeout rid run t \<Longrightarrow> \<not> unsignalled rid s"
  shows "case perform c sha256 call s of
      (Inr _, s') \<Rightarrow> validate_status c s' = Inr ()
    | (Inl e, _) \<Rightarrow> e \<notin> {StatusNotSerializable, StatusIdentityInvalid, ReplicaInvalid, ProbeStateInvalid,
        PhaseFieldsInconsistent, ReplicasNotSorted}"
proof -
  note r = supervised_from_plan [OF assms(1-3)]
  obtain q s' where q: "perform c sha256 call s = (q, s')" by fastforce
  have "(\<exists>e. q = Inl e \<and> guard_error e) \<or> q = Inr () \<and> validate_status c s' = Inr ()"
  proof (cases "call_replica call")
    case None
    then show ?thesis using perform_all [OF assms(1) r(1) assms(4) None q] r(2) by blast
  next
    case (Some rid)
    have "\<not> (\<exists>run t. call = CallTimeout rid run t \<and> unsignalled rid s)" using assms(5) by blast
    from perform_one [OF assms(1) r(1) assms(4) Some q this] show ?thesis by (auto simp: moved_def)
  qed
  then show ?thesis by (auto simp: q guard_error_def)
qed

text \<open>C30: restart budget.  Along any run from \<^verbatim>\<open>from_plan\<close>, every replica has been started exactly
  \<^verbatim>\<open>attempt\<close> times, and never more than once plus the restarts its plan allows.\<close>

theorem supervisor_restart_budget:
  assumes "codec_ok c" and "from_plan pc c version_ok plan revision generation t0 = Inr s0"
    and "supervised c sha256 s0 calls s" and "r \<in> set (rs_replicas s)"
  shows "rr_attempt r = start_count (rr_id r) calls \<and>
    (\<exists>i \<in> set (pl_instances plan). pi_name i = rid_instance (rr_id r) \<and>
      start_count (rr_id r) calls \<le> pi_max_restarts i + 1)"
proof -
  note v = supervised_from_plan [OF assms(1-3)]
  obtain k where k: "k < length (rs_replicas s)" "r = rs_replicas s ! k" using assms(4) by (auto simp: in_set_conv_nth)
  define r0 where "r0 = planned_replicas (pl_instances plan) ! k"
  have r0: "r0 \<in> set (planned_replicas (pl_instances plan))" "replica_matches r r0"
    and n: "rr_attempt r = start_count (rr_id r) calls"
    using v(6) k by (auto simp: list_all2_conv_all_nth r0_def)
  obtain i n0 where i: "i \<in> set (pl_instances plan)" "r0 = planned_replica i n0"
    using r0(1) by (auto simp: planned_replicas_def)
  have "rr_attempt r \<le> rr_max_restarts r + 1"
    using v(1) assms(4) by (auto simp: status_inv_def replica_ok_def validate_replica_iff)
  then show ?thesis
    using i r0(2) n by (intro conjI bexI [of _ i]) (auto simp: replica_matches_def planned_replica_def)
qed

text \<open>The status stays the status of its generation.  Along any run from \<^verbatim>\<open>from_plan\<close> the status
  passes \<^verbatim>\<open>validate_against\<close> for the plan, revision and generation it was made for, which is what
  saving and reloading it require.\<close>

theorem supervised_matches_generation:
  assumes "codec_ok c" and "from_plan pc c version_ok plan revision generation t0 = Inr s0"
    and "supervised c sha256 s0 calls s"
  shows "validate_against pc c version_ok s plan revision generation = Inr ()"
proof -
  note v = supervised_from_plan [OF assms]
  note p = from_plan_Inr [OF assms(2)]
  have "rs_observed_at s \<noteq> 0" using v(1) by (simp add: status_inv_def identity_ok_def)
  then obtain d where d: "from_plan pc c version_ok plan revision generation (rs_observed_at s) =
      Inr (first_status plan revision generation (rs_observed_at s) d)"
    by (rule from_plan_accepts [OF assms(1) p(1-3)])
  have len: "length (rs_replicas s) = length (planned_replicas (pl_instances plan))"
    and all: "\<forall>(a, b) \<in> set (zip (rs_replicas s) (planned_replicas (pl_instances plan))). replica_matches a b"
    using v(6) by (auto simp: list_all2_iff)
  show ?thesis
    using v(2-5) len all unfolding validate_against_def d
    by (auto simp: first_status_def list_ex_iff)
qed

text \<open>Run identities fence.  A call that carries another run identity than the replica's current
  one (or any, when the replica is not running) is refused and changes nothing at all.\<close>

theorem stale_run_changes_nothing:
  assumes "replica_mut rid s = Inr r" and "rr_run_id r \<noteq> Some run"
    and "call \<in> {CallRunning rid run t, CallSignal rid run sequence kind t, CallTimeout rid run t,
      CallExit rid run success code detail t, CallDrain rid (Some run) t}"
  shows "\<exists>e. perform c sha256 call s = (Inl e, s)"
  using assms by (auto simp: mark_running_def mark_probe_signal_def mark_probe_timeout_def mark_exit_def mark_drained_def)

text \<open>Backoff.  The delay before a restart doubles with the attempts from 250 ms, with at most a
  quarter of jitter on top, and never exceeds 30 s.\<close>

theorem backoff_bounds:
  "250 * 2 ^ min (attempt - 1) 6 \<le> restart_backoff_ms sha256 rid attempt \<and>
   restart_backoff_ms sha256 rid attempt \<le> min 30000 (250 * 2 ^ min (attempt - 1) 7 * 5 div 4)"
  using restart_backoff_bounds by blast

text \<open>Recovery.  After a restart of the supervisor, \<^verbatim>\<open>recover_interrupted\<close> on a status of the run
  succeeds, reports how many replicas were active and leaves none active; each of these waits for
  a restart after the backoff or has ended, and all others are as before.\<close>

theorem recover_leaves_none_active:
  assumes "codec_ok c" and "from_plan pc c version_ok plan revision generation t0 = Inr s0"
    and "supervised c sha256 s0 calls s" and "rs_observed_at s \<le> t" and "t < 2 ^ 64 - 1"
  shows "\<exists>s'. recover_interrupted c sha256 t s =
        (Inr (length (filter (\<lambda>r. active_phase (rr_phase r)) (rs_replicas s))), s') \<and>
    list_all2 (\<lambda>r' r. \<not> active_phase (rr_phase r') \<and>
      (if active_phase (rr_phase r)
       then rr_phase r' = Backoff \<and> (\<exists>n > t. rr_next_start_at r' = Some n) \<or> rr_phase r' \<in> {Failed, Exhausted}
       else r' = r)) (rs_replicas s') (rs_replicas s)"
proof -
  note inv = supervised_from_plan(1) [OF assms(1-3)]
  obtain s' where s': "recover_interrupted c sha256 t s =
        (Inr (length (filter (\<lambda>r. active_phase (rr_phase r)) (rs_replicas s))), s')"
    "rs_replicas s' = map (\<lambda>r. if active_phase (rr_phase r)
      then finish_replica sha256 r False None interrupted_detail t else r) (rs_replicas s)"
    by (rule recover_accepts [OF assms(1) inv assms(4,5), of sha256]) blast
  have ended: "rr_phase (finish_replica sha256 r False None interrupted_detail t) = Backoff \<and>
      (\<exists>n > t. rr_next_start_at (finish_replica sha256 r False None interrupted_detail t) = Some n) \<or>
      rr_phase (finish_replica sha256 r False None interrupted_detail t) \<in> {Failed, Exhausted}" for r
    using next_start_later [OF assms(5), of sha256 "rr_id r" "rr_attempt r"]
    by (cases "rr_restart r") (simp_all add: finish_replica_def Let_def)
  have "list_all2 (\<lambda>r' r. \<not> active_phase (rr_phase r') \<and>
      (if active_phase (rr_phase r)
       then rr_phase r' = Backoff \<and> (\<exists>n > t. rr_next_start_at r' = Some n) \<or> rr_phase r' \<in> {Failed, Exhausted}
       else r' = r)) (rs_replicas s') (rs_replicas s)"
    unfolding s'(2) list_all2_map1
  proof (rule list.rel_refl_strong)
    fix r
    show "\<not> active_phase (rr_phase (if active_phase (rr_phase r)
        then finish_replica sha256 r False None interrupted_detail t else r)) \<and>
      (if active_phase (rr_phase r)
       then rr_phase (if active_phase (rr_phase r)
           then finish_replica sha256 r False None interrupted_detail t else r) = Backoff \<and>
         (\<exists>n > t. rr_next_start_at (if active_phase (rr_phase r)
           then finish_replica sha256 r False None interrupted_detail t else r) = Some n) \<or>
         rr_phase (if active_phase (rr_phase r)
           then finish_replica sha256 r False None interrupted_detail t else r) \<in> {Failed, Exhausted}
       else (if active_phase (rr_phase r)
           then finish_replica sha256 r False None interrupted_detail t else r) = r)"
      using ended [of r] finish_replica_phase by (cases "active_phase (rr_phase r)") simp_all
  qed
  with s'(1) show ?thesis by blast
qed

text \<open>C31: a signal observed after the supervisor read its clock makes the exit of that round fail.
  The supervisor polls a last signal of an exited worker with a fresh clock reading and then reports
  the exit with the reading from the start of the round; if the clock has advanced in between,
  \<^verbatim>\<open>mark_exit\<close> refuses the exit.\<close>

theorem late_signal_refuses_exit:
  assumes "mark_probe_signal c rid run sequence kind observed_ms s = (Inr (), s')" and "round_ms < observed_ms"
  shows "mark_exit c sha256 rid run success code detail round_ms s' = (Inl ExitDetailInvalid, s')"
proof -
  have obs: "rs_observed_at s2 = t" if "observe c t v s1 = (Inr v, s2)" for t v s1 s2
    using that by (auto simp: observe_def refresh_def Let_def split: sum.splits)
  have "rs_observed_at s' = observed_ms"
    using assms(1) by (auto simp: mark_probe_signal_def Let_def dest!: obs
        split: if_splits sum.splits option.splits probe_signal_kind.splits prod.splits)
  with assms(2) show ?thesis by (simp add: mark_exit_def)
qed

section \<open>Examples\<close>

definition demo_hash :: "bytes \<Rightarrow> bytes" where
  "demo_hash b = replicate 32 7"

definition demo_start :: supervisor_call where
  "demo_start = CallStart (ReplicaId ''web'' 1) demo_digest 20"

lemma demo_from_plan:
  obtains s0 where "from_plan demo_codec demo_codec (\<lambda>_. True) demo_plan 1 demo_digest 10 = Inr s0" "status_inv s0"
    "rs_replicas s0 = planned_replicas [demo_planned]" "rs_observed_at s0 = 10"
proof -
  obtain d where "from_plan demo_codec demo_codec (\<lambda>_. True) demo_plan 1 demo_digest 10 =
      Inr (first_status demo_plan 1 demo_digest 10 d)" "status_inv (first_status demo_plan 1 demo_digest 10 d)"
    by (rule from_plan_accepts [OF demo_codec_ok demo_plan_ok, of 1 demo_digest 10]) (simp_all add: demo_digest_ok)
  then show thesis using that by (simp add: first_status_def demo_plan_def)
qed

lemma demo_run:
  obtains s0 s1 where "from_plan demo_codec demo_codec (\<lambda>_. True) demo_plan 1 demo_digest 10 = Inr s0"
    "supervised demo_codec demo_hash s0 [demo_start] s1" "rs_observed_at s1 = 20" "rs_replicas s1 \<noteq> []"
proof -
  obtain s0 where s0: "from_plan demo_codec demo_codec (\<lambda>_. True) demo_plan 1 demo_digest 10 = Inr s0"
    "status_inv s0" "rs_replicas s0 = planned_replicas [demo_planned]" "rs_observed_at s0 = 10"
    by (rule demo_from_plan)
  let ?rid = "ReplicaId ''web'' 1"
  define r where "r = planned_replica demo_planned 1"
  have mut: "replica_mut ?rid s0 = Inr r"
    by (simp add: replica_mut_def s0(3) planned_replicas_def demo_planned_def upt_rec r_def)
  have fields: "start_due r 20" "rr_desired r = Running" "rr_attempt r = 0" "rr_max_restarts r = 3" "rr_id r = ?rid"
    by (simp_all add: planned_replica_def demo_planned_def start_due_def r_def)
  have m: "replica_move demo_hash demo_start r (r\<lparr>rr_attempt := rr_attempt r + 1, rr_phase := Starting,
      rr_run_id := Some demo_digest, rr_started_at := Some 20, rr_finished_at := None, rr_next_start_at := None,
      rr_exit_code := None, rr_detail := None, rr_probe := map_option (\<lambda>_. pristine_probe) (rr_probe r)\<rparr>)" (is "replica_move _ _ _ ?r'")
    unfolding demo_start_def by (rule move_start) (simp_all add: fields demo_digest_ok)
  obtain q s1 where q: "observe demo_codec 20 (1 :: nat) (put_replica ?rid ?r' s0) = (q, s1)" by fastforce
  have ok: "q = Inr 1 \<and> moved demo_codec demo_hash demo_start ?rid s0 s1"
    by (rule movedI [OF demo_codec_ok s0(2) _ _ mut m _ q]) (simp_all add: demo_start_def s0(4))
  have "perform demo_codec demo_hash demo_start s0 = (Inr (), s1)"
    using mut q ok fields s0(4)
    by (simp add: demo_start_def begin_start_def demo_digest_ok checked_add_def wrapping_add_def)
  then have "supervised demo_codec demo_hash s0 ([] @ [demo_start]) s1"
    by (intro supervised_call [OF supervised_start]) (simp_all add: demo_start_def)
  moreover have "rs_observed_at s1 = 20" "rs_replicas s1 \<noteq> []"
  proof -
    have "length (rs_replicas s1) = length (rs_replicas s0)"
      using ok by (auto simp: moved_def written_def put_replica_def)
    then show "rs_replicas s1 \<noteq> []" by (auto simp: s0(3) planned_replicas_def demo_planned_def)
    show "rs_observed_at s1 = 20" using ok by (auto simp: moved_def written_def demo_start_def)
  qed
  ultimately show thesis using that s0(1) by simp
qed

theorem supervisor_never_invalid_witness:
  "\<exists>s0 s1. supervised demo_codec demo_hash s0 [demo_start] s1 \<and>
    (case perform demo_codec demo_hash (CallHeartbeat 30) s1 of
      (Inr _, s') \<Rightarrow> validate_status demo_codec s' = Inr ()
    | (Inl e, _) \<Rightarrow> e \<notin> {StatusNotSerializable, StatusIdentityInvalid, ReplicaInvalid, ProbeStateInvalid,
        PhaseFieldsInconsistent, ReplicasNotSorted})"
proof -
  obtain s0 s1 where s: "from_plan demo_codec demo_codec (\<lambda>_. True) demo_plan 1 demo_digest 10 = Inr s0"
    "supervised demo_codec demo_hash s0 [demo_start] s1" by (rule demo_run)
  show ?thesis
    by (intro exI conjI, rule s(2), rule supervisor_never_invalid [OF demo_codec_ok s]) simp_all
qed

theorem supervisor_restart_budget_witness:
  "\<exists>s0 s1 r. supervised demo_codec demo_hash s0 [demo_start] s1 \<and> r \<in> set (rs_replicas s1) \<and>
    rr_attempt r = start_count (rr_id r) [demo_start]"
proof -
  obtain s0 s1 where s: "from_plan demo_codec demo_codec (\<lambda>_. True) demo_plan 1 demo_digest 10 = Inr s0"
    "supervised demo_codec demo_hash s0 [demo_start] s1" and ne: "rs_replicas s1 \<noteq> []" by (rule demo_run)
  then have "hd (rs_replicas s1) \<in> set (rs_replicas s1)" by simp
  with supervisor_restart_budget [OF demo_codec_ok s this] s(2) show ?thesis by blast
qed

theorem supervised_matches_generation_witness:
  "\<exists>s0 s1. supervised demo_codec demo_hash s0 [demo_start] s1 \<and>
    validate_against demo_codec demo_codec (\<lambda>_. True) s1 demo_plan 1 demo_digest = Inr ()"
proof -
  obtain s0 s1 where s: "from_plan demo_codec demo_codec (\<lambda>_. True) demo_plan 1 demo_digest 10 = Inr s0"
    "supervised demo_codec demo_hash s0 [demo_start] s1" by (rule demo_run)
  from supervised_matches_generation [OF demo_codec_ok s] s(2) show ?thesis by blast
qed

theorem recover_leaves_none_active_witness:
  "\<exists>s0 s1 s2. supervised demo_codec demo_hash s0 [demo_start] s1 \<and>
    recover_interrupted demo_codec demo_hash 30 s1 =
      (Inr (length (filter (\<lambda>r. active_phase (rr_phase r)) (rs_replicas s1))), s2)"
proof -
  obtain s0 s1 where s: "from_plan demo_codec demo_codec (\<lambda>_. True) demo_plan 1 demo_digest 10 = Inr s0"
    "supervised demo_codec demo_hash s0 [demo_start] s1" and t: "rs_observed_at s1 = 20" by (rule demo_run)
  have "rs_observed_at s1 \<le> 30" "(30 :: nat) < 2 ^ 64 - 1" using t by simp_all
  from recover_leaves_none_active [OF demo_codec_ok s this] s(2) show ?thesis by blast
qed

definition demo_status :: runtime_status where
  "demo_status = \<lparr>rs_format_version = 2, rs_stack = ''shop'', rs_revision = 1, rs_generation = demo_digest,
     rs_observed_at = 10, rs_replicas = [(planned_replica demo_planned 1)\<lparr>rr_attempt := 1, rr_phase := Starting,
       rr_run_id := Some demo_digest, rr_started_at := Some 10\<rparr>], rs_status_sha256 = demo_digest\<rparr>"

lemma demo_digest_other: "demo_digest \<noteq> ''other''"
proof
  assume "demo_digest = ''other''"
  then have "length demo_digest = length ''other''" by simp
  then show False by (simp add: demo_digest_def)
qed

theorem stale_run_changes_nothing_witness:
  "\<exists>e. perform demo_codec demo_hash (CallExit (ReplicaId ''web'' 1) ''other'' True None ''done'' 20) demo_status
    = (Inl e, demo_status)"
  by (rule stale_run_changes_nothing [where run = "''other''" and rid = "ReplicaId ''web'' 1"
      and r = "hd (rs_replicas demo_status)"])
    (simp_all add: replica_mut_def demo_status_def planned_replica_def demo_planned_def demo_digest_other)

lemma demo_status_inv: "status_inv demo_status"
proof -
  have "valid_name ''shop''" "valid_name ''web''" by (simp_all add: valid_name_def name_byte_def text_defs)
  then show ?thesis
    by (simp add: status_inv_def identity_ok_def demo_status_def replica_ok_def validate_replica_iff times_ok_def
        before_def planned_replica_def demo_planned_def demo_health_def phase_fields_inconsistent_def
        active_phase_def policy_phase_is_valid_def plan_consts planned_stopped_def)
      (simp add: pristine_probe_def)
qed

theorem late_signal_refuses_exit_witness:
  "\<exists>s'. mark_probe_signal demo_codec (ReplicaId ''web'' 1) demo_digest 1 SignalReady 21 demo_status = (Inr (), s') \<and>
    mark_exit demo_codec demo_hash (ReplicaId ''web'' 1) demo_digest True None ''worker exited'' 20 s'
    = (Inl ExitDetailInvalid, s')"
proof -
  obtain q s' where q: "mark_probe_signal demo_codec (ReplicaId ''web'' 1) demo_digest 1 SignalReady 21 demo_status = (q, s')"
    by fastforce
  let ?rid = "ReplicaId ''web'' 1"
  have mut: "replica_mut ?rid demo_status = Inr (hd (rs_replicas demo_status))"
    by (simp add: replica_mut_def demo_status_def planned_replica_def demo_planned_def)
  have p: "rr_probe (hd (rs_replicas demo_status)) = Some pristine_probe"
    by (simp add: demo_status_def planned_replica_def demo_planned_def)
  have run: "active_phase (rr_phase (hd (rs_replicas demo_status)))" "rr_run_id (hd (rs_replicas demo_status)) = Some demo_digest"
    by (simp_all add: demo_status_def active_phase_def)
  have m: "replica_move demo_hash (CallSignal ?rid demo_digest 1 SignalReady 21) (hd (rs_replicas demo_status))
      ((hd (rs_replicas demo_status))\<lparr>rr_phase := RunningPhase, rr_probe := Some (pristine_probe\<lparr>pr_last_sequence := 1,
        pr_last_signal_at := Some 21, pr_phase := ProbeReady, pr_ready_at := Some 21, pr_failures := 0\<rparr>)\<rparr>)" (is "replica_move _ _ _ ?r'")
    by (rule move_ready) (use run p replica_mut_Inr [OF mut] in \<open>simp_all add: pristine_probe_def\<close>)
  have t: "rs_observed_at demo_status = 10" "pr_last_sequence pristine_probe = 0"
    by (simp_all add: demo_status_def pristine_probe_def)
  have "mark_probe_signal demo_codec ?rid demo_digest 1 SignalReady 21 demo_status =
      observe demo_codec 21 () (put_replica ?rid ?r' demo_status)"
    unfolding mark_probe_signal_def mut sum.case p option.case using run t by simp
  then have ob: "observe demo_codec 21 () (put_replica ?rid ?r' demo_status) = (q, s')" using q by simp
  have "q = Inr () \<and> moved demo_codec demo_hash (CallSignal ?rid demo_digest 1 SignalReady 21) ?rid demo_status s'"
    by (rule movedI [OF demo_codec_ok demo_status_inv _ _ mut m _ ob]) (simp_all add: t)
  with q have "mark_probe_signal demo_codec ?rid demo_digest 1 SignalReady 21 demo_status = (Inr (), s')" by simp
  moreover from this have "mark_exit demo_codec demo_hash ?rid demo_digest True None ''worker exited'' 20 s' =
      (Inl ExitDetailInvalid, s')"
    by (rule late_signal_refuses_exit) simp
  ultimately show ?thesis by blast
qed

end
