(* ===== verification/Health.thy ===== *)
theory Health
  imports Journal Supervisor_Runs
begin

text \<open>
  Health reports (\<^verbatim>\<open>crates/cartridge-engine/src/health.rs\<close>): the observed replicas of a stack counted
  by phase and classified.  The counters are \<^verbatim>\<open>u16\<close>; plain additions wrap.

  Shown here: the counters are the numbers of replicas in each phase; a report that says
  \<^verbatim>\<open>Healthy\<close> or \<^verbatim>\<open>Completed\<close>, the gate of a rollout commit, is only made when every replica the plan
  wants running runs or has succeeded with its probe ready, none failed, and, while one runs, the
  observation is fresh; and for the statuses a supervisor produces the report is always made.
\<close>

section \<open>Data\<close>

definition ENGINE_HEALTH_FORMAT_VERSION :: nat where "ENGINE_HEALTH_FORMAT_VERSION = 2"
definition SUPERVISOR_STALE_AFTER_MS :: nat where "SUPERVISOR_STALE_AFTER_MS = 20000"
definition MAX_ENGINE_HEALTH_REPORTS :: nat where "MAX_ENGINE_HEALTH_REPORTS = 64"

lemmas health_consts = ENGINE_HEALTH_FORMAT_VERSION_def SUPERVISOR_STALE_AFTER_MS_def MAX_ENGINE_HEALTH_REPORTS_def

datatype health_state =
  HealthyState | StartingState | DegradedState | FailedState | CompletedState | StoppedState | RemovedState | StaleState

record health_report =
  hr_format_version :: nat
  hr_stack :: string
  hr_revision :: nat
  hr_desired_state :: stack_state
  hr_state :: health_state
  hr_observed_at :: nat
  hr_runtime_observed_at :: "nat option"
  hr_desired_replicas :: nat
  hr_replicas_total :: nat
  hr_pending :: nat
  hr_starting :: nat
  hr_running :: nat
  hr_backoff :: nat
  hr_succeeded :: nat
  hr_failed :: nat
  hr_exhausted :: nat
  hr_stopped :: nat
  hr_probe_waiting :: nat
  hr_probe_ready :: nat
  hr_probe_unhealthy :: nat
  hr_report_sha256 :: string

datatype health_error =
    StackStatusInvalid | HealthTimeInvalid | DesiredOverflow | RuntimeInvalid supervisor_error
  | ForeignRuntime | ReplicaTotalOverflow | ReplicaCountOverflowed | ProbeCountOverflow
  | ReportNotSerializable | ReportInvalid

section \<open>Operations\<close>

definition validate_stack_status :: "stack_status \<Rightarrow> health_error + unit" where
  "validate_stack_status s =
     fail_if (\<not> valid_name (st_stack s) \<or> st_revision s = 0 \<or> st_instance_count s > MAX_STACK_INSTANCES \<or>
         st_desired_replicas s > MAX_STACK_TOTAL_REPLICAS \<or> \<not> is_digest (st_event_sha256 s) \<or>
         (case st_plan_sha256 s of None \<Rightarrow> False | Some d \<Rightarrow> \<not> is_digest d) \<or>
         (case st_state s of
            Removed \<Rightarrow> st_plan_sha256 s \<noteq> None \<or> st_instance_count s \<noteq> 0 \<or> st_desired_replicas s \<noteq> 0
          | _ \<Rightarrow> st_plan_sha256 s = None)) StackStatusInvalid"

definition try_from_u16 :: "nat \<Rightarrow> nat option" where
  "try_from_u16 n = (if n < 2 ^ 16 then Some n else None)"

definition first_health_state :: "stack_state \<Rightarrow> nat \<Rightarrow> health_state" where
  "first_health_state state desired_replicas =
     (case state of
        Applied \<Rightarrow> if desired_replicas = 0 then StoppedState else StartingState
      | StoppedStack \<Rightarrow> StoppedState
      | Removed \<Rightarrow> RemovedState)"

definition bump :: "nat \<Rightarrow> health_error \<Rightarrow> health_error + nat" where
  "bump n e = ok_or (checked_add 16 n 1) e"

definition count_phase :: "health_report \<Rightarrow> replica_phase \<Rightarrow> health_error + health_report" where
  "count_phase h phase =
     (case phase of
        Pending \<Rightarrow> and_then (bump (hr_pending h) ReplicaCountOverflowed) (\<lambda>n. Inr (h\<lparr>hr_pending := n\<rparr>))
      | Starting \<Rightarrow> and_then (bump (hr_starting h) ReplicaCountOverflowed) (\<lambda>n. Inr (h\<lparr>hr_starting := n\<rparr>))
      | RunningPhase \<Rightarrow> and_then (bump (hr_running h) ReplicaCountOverflowed) (\<lambda>n. Inr (h\<lparr>hr_running := n\<rparr>))
      | Backoff \<Rightarrow> and_then (bump (hr_backoff h) ReplicaCountOverflowed) (\<lambda>n. Inr (h\<lparr>hr_backoff := n\<rparr>))
      | Succeeded \<Rightarrow> and_then (bump (hr_succeeded h) ReplicaCountOverflowed) (\<lambda>n. Inr (h\<lparr>hr_succeeded := n\<rparr>))
      | Failed \<Rightarrow> and_then (bump (hr_failed h) ReplicaCountOverflowed) (\<lambda>n. Inr (h\<lparr>hr_failed := n\<rparr>))
      | Exhausted \<Rightarrow> and_then (bump (hr_exhausted h) ReplicaCountOverflowed) (\<lambda>n. Inr (h\<lparr>hr_exhausted := n\<rparr>))
      | StoppedPhase \<Rightarrow> and_then (bump (hr_stopped h) ReplicaCountOverflowed) (\<lambda>n. Inr (h\<lparr>hr_stopped := n\<rparr>)))"

definition count_probe :: "health_report \<Rightarrow> probe_runtime option \<Rightarrow> health_error + health_report" where
  "count_probe h probe =
     (case probe of None \<Rightarrow> Inr h | Some p \<Rightarrow>
      (case pr_phase p of
         ProbeWaiting \<Rightarrow> and_then (bump (hr_probe_waiting h) ProbeCountOverflow) (\<lambda>n. Inr (h\<lparr>hr_probe_waiting := n\<rparr>))
       | ProbeReady \<Rightarrow> and_then (bump (hr_probe_ready h) ProbeCountOverflow) (\<lambda>n. Inr (h\<lparr>hr_probe_ready := n\<rparr>))
       | ProbeUnhealthy \<Rightarrow> and_then (bump (hr_probe_unhealthy h) ProbeCountOverflow)
           (\<lambda>n. Inr (h\<lparr>hr_probe_unhealthy := n\<rparr>))))"

definition count_replica :: "health_report \<Rightarrow> replica_runtime \<Rightarrow> health_error + health_report" where
  "count_replica h r = and_then (count_phase h (rr_phase r)) (\<lambda>h'. count_probe h' (rr_probe r))"

text \<open>Sums of counters, as \<^verbatim>\<open>u16\<close> additions.\<close>

definition hr_waiting :: "health_report \<Rightarrow> nat" where
  "hr_waiting h = wrapping_add 16 (wrapping_add 16 (hr_pending h) (hr_starting h)) (hr_backoff h)"

definition hr_failures :: "health_report \<Rightarrow> nat" where
  "hr_failures h = wrapping_add 16 (hr_failed h) (hr_exhausted h)"

definition hr_successful :: "health_report \<Rightarrow> nat" where
  "hr_successful h = wrapping_add 16 (hr_running h) (hr_succeeded h)"

definition derived_applied_state :: "health_report \<Rightarrow> nat \<Rightarrow> nat \<Rightarrow> health_state" where
  "derived_applied_state h now_ms runtime_observed_at =
     (let waiting = hr_waiting h; failures = hr_failures h; successful = hr_successful h;
          live = hr_running h > 0 \<or> waiting > 0
      in if live \<and> now_ms - runtime_observed_at > SUPERVISOR_STALE_AFTER_MS then StaleState
         else if hr_probe_unhealthy h > 0 then DegradedState
         else if failures > 0 then (if successful > 0 \<or> waiting > 0 then DegradedState else FailedState)
         else if waiting > 0 \<or> successful < hr_desired_replicas h then StartingState
         else if hr_running h = 0 \<and> hr_succeeded h = hr_desired_replicas h then CompletedState
         else HealthyState)"

definition state_matches_counts :: "health_report \<Rightarrow> bool" where
  "state_matches_counts h =
     (let waiting = hr_waiting h; failures = hr_failures h; successful = hr_successful h in
      case hr_desired_state h of
        Removed \<Rightarrow> hr_state h = RemovedState \<and> hr_replicas_total h = 0 \<and> hr_runtime_observed_at h = None
      | StoppedStack \<Rightarrow> hr_state h = StoppedState \<and> hr_desired_replicas h = 0 \<and> waiting = 0 \<and>
          successful = 0 \<and> failures = 0
      | Applied \<Rightarrow>
          if hr_desired_replicas h = 0 then hr_state h = StoppedState
          else (case hr_state h of
            HealthyState \<Rightarrow> failures = 0 \<and> hr_probe_unhealthy h = 0 \<and> hr_probe_waiting h = 0 \<and> waiting = 0 \<and>
              hr_running h > 0 \<and> successful = hr_desired_replicas h
          | CompletedState \<Rightarrow> failures = 0 \<and> hr_probe_unhealthy h = 0 \<and> hr_probe_waiting h = 0 \<and> waiting = 0 \<and>
              hr_running h = 0 \<and> hr_succeeded h = hr_desired_replicas h
          | StartingState \<Rightarrow> failures = 0 \<and> hr_probe_unhealthy h = 0 \<and>
              (waiting > 0 \<or> successful < hr_desired_replicas h)
          | DegradedState \<Rightarrow> hr_probe_unhealthy h > 0 \<or> failures > 0 \<and> (successful > 0 \<or> waiting > 0)
          | FailedState \<Rightarrow> failures > 0 \<and> successful = 0 \<and> waiting = 0
          | StaleState \<Rightarrow> (case hr_runtime_observed_at h of None \<Rightarrow> False | Some observed \<Rightarrow>
              (hr_running h > 0 \<or> waiting > 0) \<and> hr_observed_at h - observed > SUPERVISOR_STALE_AFTER_MS)
          | _ \<Rightarrow> False))"

definition report_sha256 :: "health_report codec \<Rightarrow> health_report \<Rightarrow> health_error + string" where
  "report_sha256 c h =
     and_then (ok_or (to_vec c (h\<lparr>hr_report_sha256 := []\<rparr>)) ReportNotSerializable) (\<lambda>b. Inr (sha256hex c b))"

definition phase_total :: "health_report \<Rightarrow> health_error + nat" where
  "phase_total h = try_fold (\<lambda>n f. ok_or (checked_add 16 n (f h)) ReplicaCountOverflowed) (hr_pending h)
     [hr_starting, hr_running, hr_backoff, hr_succeeded, hr_failed, hr_exhausted, hr_stopped]"

definition probe_total :: "health_report \<Rightarrow> health_error + nat" where
  "probe_total h = try_fold (\<lambda>n f. ok_or (checked_add 16 n (f h)) ProbeCountOverflow) (hr_probe_waiting h)
     [hr_probe_ready, hr_probe_unhealthy]"

definition validate_report :: "health_report codec \<Rightarrow> health_report \<Rightarrow> health_error + unit" where
  "validate_report c h =
     and_then (phase_total h) (\<lambda>n.
     and_then (probe_total h) (\<lambda>probed.
     and_then (fail_if (hr_format_version h \<noteq> ENGINE_HEALTH_FORMAT_VERSION \<or> \<not> valid_name (hr_stack h) \<or>
         hr_revision h = 0 \<or> hr_observed_at h = 0 \<or> hr_desired_replicas h > MAX_STACK_TOTAL_REPLICAS \<or>
         hr_replicas_total h > MAX_STACK_TOTAL_REPLICAS \<or> n \<noteq> hr_replicas_total h \<or>
         probed > hr_replicas_total h \<or>
         (case hr_runtime_observed_at h of None \<Rightarrow> False | Some v \<Rightarrow> v = 0 \<or> v > hr_observed_at h) \<or>
         \<not> is_digest (hr_report_sha256 h)) ReportInvalid) (\<lambda>_.
     and_then (report_sha256 c h) (\<lambda>computed.
     fail_if (computed \<noteq> hr_report_sha256 h \<or> \<not> state_matches_counts h) ReportInvalid))))"

definition first_report :: "stack_status \<Rightarrow> nat \<Rightarrow> runtime_status option \<Rightarrow> nat \<Rightarrow> health_report" where
  "first_report s desired_replicas runtime now_ms =
     \<lparr>hr_format_version = ENGINE_HEALTH_FORMAT_VERSION, hr_stack = st_stack s, hr_revision = st_revision s,
      hr_desired_state = st_state s, hr_state = first_health_state (st_state s) desired_replicas,
      hr_observed_at = now_ms, hr_runtime_observed_at = map_option rs_observed_at runtime,
      hr_desired_replicas = desired_replicas, hr_replicas_total = 0, hr_pending = 0, hr_starting = 0,
      hr_running = 0, hr_backoff = 0, hr_succeeded = 0, hr_failed = 0, hr_exhausted = 0, hr_stopped = 0,
      hr_probe_waiting = 0, hr_probe_ready = 0, hr_probe_unhealthy = 0, hr_report_sha256 = []\<rparr>"

definition observe_runtime ::
    "runtime_status codec \<Rightarrow> stack_status \<Rightarrow> nat \<Rightarrow> runtime_status \<Rightarrow> health_report \<Rightarrow> health_error + health_report" where
  "observe_runtime sc s now_ms rt h =
     and_then (map_err RuntimeInvalid (validate_status sc rt)) (\<lambda>_.
     and_then (fail_if (rs_stack rt \<noteq> st_stack s \<or> rs_revision rt \<noteq> st_revision s \<or>
         rs_generation rt \<noteq> st_event_sha256 s) ForeignRuntime) (\<lambda>_.
     and_then (ok_or (try_from_u16 (length (rs_replicas rt))) ReplicaTotalOverflow) (\<lambda>n.
     and_then (try_fold count_replica (h\<lparr>hr_replicas_total := n\<rparr>) (rs_replicas rt)) (\<lambda>h'.
     Inr (if st_state s = Applied \<and> hr_desired_replicas h' > 0
          then h'\<lparr>hr_state := derived_applied_state h' now_ms (rs_observed_at rt)\<rparr> else h')))))"

definition from_status ::
    "health_report codec \<Rightarrow> runtime_status codec \<Rightarrow> stack_status \<Rightarrow> runtime_status option \<Rightarrow> nat
      \<Rightarrow> health_error + health_report" where
  "from_status c sc s runtime now_ms =
     and_then (validate_stack_status s) (\<lambda>_.
     and_then (fail_if (now_ms = 0) HealthTimeInvalid) (\<lambda>_.
     and_then (ok_or (try_from_u16 (st_desired_replicas s)) DesiredOverflow) (\<lambda>desired_replicas.
     and_then (let h = first_report s desired_replicas runtime now_ms in
       case runtime of None \<Rightarrow> Inr h | Some rt \<Rightarrow> observe_runtime sc s now_ms rt h) (\<lambda>h.
     and_then (report_sha256 c (h\<lparr>hr_report_sha256 := []\<rparr>)) (\<lambda>d.
     let h' = h\<lparr>hr_report_sha256 := d\<rparr> in
     and_then (validate_report c h') (\<lambda>_. Inr h'))))))"

definition health_ready :: "health_report \<Rightarrow> bool" where
  "health_ready h \<longleftrightarrow> hr_state h = HealthyState \<or> hr_state h = CompletedState"

definition terminal_failure :: "health_report \<Rightarrow> bool" where
  "terminal_failure h \<longleftrightarrow> hr_state h = DegradedState \<or> hr_state h = FailedState"

definition report_step :: "health_report codec \<Rightarrow> string option \<Rightarrow> health_report \<Rightarrow> health_error + string option" where
  "report_step c previous h =
     and_then (validate_report c h) (\<lambda>_.
     and_then (fail_if (case previous of None \<Rightarrow> False | Some v \<Rightarrow> v \<ge> hr_stack h) ReportInvalid) (\<lambda>_.
     Inr (Some (hr_stack h))))"

definition validate_health_reports :: "health_report codec \<Rightarrow> health_report list \<Rightarrow> health_error + unit" where
  "validate_health_reports c hs =
     and_then (fail_if (length hs > MAX_ENGINE_HEALTH_REPORTS) ReportInvalid) (\<lambda>_.
     and_then (try_fold (report_step c) None hs) (\<lambda>_. Inr ()))"

section \<open>Counting\<close>

definition in_phase :: "replica_phase \<Rightarrow> replica_runtime list \<Rightarrow> nat" where
  "in_phase ph rs = length (filter (\<lambda>r. rr_phase r = ph) rs)"

definition in_probe :: "probe_phase \<Rightarrow> replica_runtime list \<Rightarrow> nat" where
  "in_probe ph rs = length (filter (\<lambda>r. case rr_probe r of None \<Rightarrow> False | Some p \<Rightarrow> pr_phase p = ph) rs)"

definition tallied :: "health_report \<Rightarrow> replica_runtime list \<Rightarrow> health_report" where
  "tallied h rs = h\<lparr>hr_pending := hr_pending h + in_phase Pending rs, hr_starting := hr_starting h + in_phase Starting rs,
     hr_running := hr_running h + in_phase RunningPhase rs, hr_backoff := hr_backoff h + in_phase Backoff rs,
     hr_succeeded := hr_succeeded h + in_phase Succeeded rs, hr_failed := hr_failed h + in_phase Failed rs,
     hr_exhausted := hr_exhausted h + in_phase Exhausted rs, hr_stopped := hr_stopped h + in_phase StoppedPhase rs,
     hr_probe_waiting := hr_probe_waiting h + in_probe ProbeWaiting rs,
     hr_probe_ready := hr_probe_ready h + in_probe ProbeReady rs,
     hr_probe_unhealthy := hr_probe_unhealthy h + in_probe ProbeUnhealthy rs\<rparr>"

definition roomy :: "health_report \<Rightarrow> nat \<Rightarrow> bool" where
  "roomy h k \<longleftrightarrow> (\<forall>f \<in> {hr_pending, hr_starting, hr_running, hr_backoff, hr_succeeded, hr_failed, hr_exhausted,
     hr_stopped, hr_probe_waiting, hr_probe_ready, hr_probe_unhealthy}. f h + k < 2 ^ 16)"

lemma tallied_Nil: "tallied h [] = h"
  by (simp add: tallied_def in_phase_def in_probe_def)

lemma tallied_Cons: "tallied (tallied h [r]) rs = tallied h (r # rs)"
  by (simp add: tallied_def in_phase_def in_probe_def)

lemma count_replica_one: "roomy h (Suc k) \<Longrightarrow> count_replica h r = Inr (tallied h [r])"
  by (cases "rr_phase r"; cases "rr_probe r"; (cases "pr_phase (the (rr_probe r))")?)
    (simp_all add: roomy_def count_replica_def count_phase_def count_probe_def bump_def checked_add_def
      tallied_def in_phase_def in_probe_def)

lemma roomy_step: "roomy h (Suc k) \<Longrightarrow> roomy (tallied h [r]) k"
  by (auto simp: roomy_def tallied_def in_phase_def in_probe_def split: option.splits)

lemma count_fold: "roomy h (length rs) \<Longrightarrow> try_fold count_replica h rs = Inr (tallied h rs)"
proof (induction rs arbitrary: h)
  case (Cons r rs)
  then have "roomy h (Suc (length rs))" by simp
  then show ?case using Cons.IH [OF roomy_step] by (simp add: count_replica_one tallied_Cons)
qed (simp add: tallied_Nil)

lemma in_phase_sum:
  "in_phase Pending rs + in_phase Starting rs + in_phase RunningPhase rs + in_phase Backoff rs + in_phase Succeeded rs +
   in_phase Failed rs + in_phase Exhausted rs + in_phase StoppedPhase rs = length rs"
proof (induction rs)
  case (Cons r rs)
  then show ?case by (cases "rr_phase r") (simp_all add: in_phase_def)
qed (simp add: in_phase_def)

lemma in_probe_sum: "in_probe ProbeWaiting rs + in_probe ProbeReady rs + in_probe ProbeUnhealthy rs \<le> length rs"
proof (induction rs)
  case (Cons r rs)
  then show ?case
    by (cases "rr_probe r"; (cases "pr_phase (the (rr_probe r))")?) (simp_all add: in_probe_def)
qed (simp add: in_probe_def)

lemma in_phase_le: "in_phase ph rs \<le> length rs" and in_probe_le: "in_probe pp rs \<le> length rs"
  by (simp_all add: in_phase_def in_probe_def)

lemma in_phase_zero: "in_phase ph rs = 0 \<longleftrightarrow> (\<forall>r \<in> set rs. rr_phase r \<noteq> ph)"
  by (auto simp: in_phase_def filter_empty_conv)

lemma in_probe_zero: "in_probe pp rs = 0 \<longleftrightarrow> (\<forall>r \<in> set rs. \<forall>p. rr_probe r = Some p \<longrightarrow> pr_phase p \<noteq> pp)"
  by (auto simp: in_probe_def filter_empty_conv split: option.splits)

text \<open>The report before it is sealed: every counter is a number of replicas.\<close>

lemma observe_runtime_counts:
  assumes "observe_runtime sc s now_ms rt (first_report s desired (Some rt) now_ms) = Inr h"
  defines "rs \<equiv> rs_replicas rt"
  shows "hr_pending h = in_phase Pending rs" "hr_starting h = in_phase Starting rs" "hr_running h = in_phase RunningPhase rs"
    "hr_backoff h = in_phase Backoff rs" "hr_succeeded h = in_phase Succeeded rs" "hr_failed h = in_phase Failed rs"
    "hr_exhausted h = in_phase Exhausted rs" "hr_stopped h = in_phase StoppedPhase rs"
    "hr_probe_waiting h = in_probe ProbeWaiting rs" "hr_probe_ready h = in_probe ProbeReady rs"
    "hr_probe_unhealthy h = in_probe ProbeUnhealthy rs" "hr_desired_replicas h = desired"
    "hr_replicas_total h = length rs" "length rs \<le> 256"
    "hr_state h = (if st_state s = Applied \<and> desired > 0 then derived_applied_state h now_ms (rs_observed_at rt)
       else first_health_state (st_state s) desired)"
    "hr_desired_state h = st_state s" "hr_observed_at h = now_ms" "hr_runtime_observed_at h = Some (rs_observed_at rt)"
    "hr_stack h = st_stack s" "hr_revision h = st_revision s" "hr_format_version h = ENGINE_HEALTH_FORMAT_VERSION"
    "rs_generation rt = st_event_sha256 s" "validate_status sc rt = Inr ()"
proof -
  let ?h0 = "(first_report s desired (Some rt) now_ms)\<lparr>hr_replicas_total := length rs\<rparr>"
  have v: "validate_status sc rt = Inr ()" and id: "rs_generation rt = st_event_sha256 s"
    using assms(1) by (auto simp: observe_runtime_def result_simps)
  then show "rs_generation rt = st_event_sha256 s" "validate_status sc rt = Inr ()" by simp_all
  show len: "length rs \<le> 256" using v by (simp add: validate_status_iff identity_ok_def rs_def)
  then have "roomy ?h0 (length rs)" by (simp add: roomy_def first_report_def)
  note fold = count_fold [OF this]
  have h: "h = (if st_state s = Applied \<and> desired > 0
      then (tallied ?h0 rs)\<lparr>hr_state := derived_applied_state (tallied ?h0 rs) now_ms (rs_observed_at rt)\<rparr>
      else tallied ?h0 rs)"
    using assms(1) fold len
    by (auto simp: observe_runtime_def result_simps try_from_u16_def rs_def [symmetric] tallied_def first_report_def)
  have d: "derived_applied_state (x\<lparr>hr_state := y\<rparr>) = derived_applied_state x" for x y
    by (intro ext) (simp add: derived_applied_state_def hr_waiting_def hr_failures_def hr_successful_def Let_def cong: if_cong)
  show "hr_pending h = in_phase Pending rs" "hr_starting h = in_phase Starting rs" "hr_running h = in_phase RunningPhase rs"
    "hr_backoff h = in_phase Backoff rs" "hr_succeeded h = in_phase Succeeded rs" "hr_failed h = in_phase Failed rs"
    "hr_exhausted h = in_phase Exhausted rs" "hr_stopped h = in_phase StoppedPhase rs"
    "hr_probe_waiting h = in_probe ProbeWaiting rs" "hr_probe_ready h = in_probe ProbeReady rs"
    "hr_probe_unhealthy h = in_probe ProbeUnhealthy rs" "hr_desired_replicas h = desired"
    "hr_replicas_total h = length rs"
    "hr_desired_state h = st_state s" "hr_observed_at h = now_ms" "hr_runtime_observed_at h = Some (rs_observed_at rt)"
    "hr_stack h = st_stack s" "hr_revision h = st_revision s" "hr_format_version h = ENGINE_HEALTH_FORMAT_VERSION"
    by (simp_all add: h tallied_def first_report_def)
  show "hr_state h = (if st_state s = Applied \<and> desired > 0 then derived_applied_state h now_ms (rs_observed_at rt)
       else first_health_state (st_state s) desired)"
    by (simp add: h d) (simp add: tallied_def first_report_def)
qed

lemma state_matches_sealed: "state_matches_counts (h\<lparr>hr_report_sha256 := d\<rparr>) = state_matches_counts h"
  by (cases "hr_desired_state h"; cases "hr_state h"; cases "hr_runtime_observed_at h")
    (simp_all add: state_matches_counts_def hr_waiting_def hr_failures_def hr_successful_def)

lemma counted_sums:
  assumes "hr_pending h = in_phase Pending rs" "hr_starting h = in_phase Starting rs" "hr_running h = in_phase RunningPhase rs"
    "hr_backoff h = in_phase Backoff rs" "hr_succeeded h = in_phase Succeeded rs" "hr_failed h = in_phase Failed rs"
    "hr_exhausted h = in_phase Exhausted rs" "length rs \<le> 256"
  shows "hr_waiting h = in_phase Pending rs + in_phase Starting rs + in_phase Backoff rs"
    "hr_failures h = in_phase Failed rs + in_phase Exhausted rs"
    "hr_successful h = in_phase RunningPhase rs + in_phase Succeeded rs"
  using in_phase_sum [of rs] assms by (simp_all add: hr_waiting_def hr_failures_def hr_successful_def)

lemma successful_filter:
  "length (filter (\<lambda>r. rr_phase r \<in> {RunningPhase, Succeeded}) rs) = in_phase RunningPhase rs + in_phase Succeeded rs"
proof (induction rs)
  case (Cons r rs)
  then show ?case by (cases "rr_phase r") (simp_all add: in_phase_def)
qed (simp add: in_phase_def)

lemma from_status_Inr:
  assumes "from_status c sc s runtime now_ms = Inr h"
  obtains h0 d where "(case runtime of None \<Rightarrow> h0 = first_report s (st_desired_replicas s) runtime now_ms
      | Some rt \<Rightarrow> observe_runtime sc s now_ms rt (first_report s (st_desired_replicas s) runtime now_ms) = Inr h0)"
    and "h = h0\<lparr>hr_report_sha256 := d\<rparr>" and "validate_report c h = Inr ()"
proof -
  obtain h0 d where h0: "(let h = first_report s (st_desired_replicas s) runtime now_ms in
      case runtime of None \<Rightarrow> Inr h | Some rt \<Rightarrow> observe_runtime sc s now_ms rt h) = Inr h0"
    and d: "h = h0\<lparr>hr_report_sha256 := d\<rparr>" "validate_report c h = Inr ()"
    using assms by (auto simp: from_status_def and_then_Inr Let_def try_from_u16_def split: if_splits)
  have "(case runtime of None \<Rightarrow> h0 = first_report s (st_desired_replicas s) runtime now_ms
      | Some rt \<Rightarrow> observe_runtime sc s now_ms rt (first_report s (st_desired_replicas s) runtime now_ms) = Inr h0)"
    using h0 by (auto simp: Let_def split: option.splits)
  from that [OF this d] show thesis .
qed

section \<open>Properties\<close>

lemma ready_report:
  assumes "from_status c sc s runtime now_ms = Inr h" and "health_ready h"
  shows "\<exists>rt. runtime = Some rt \<and> st_state s = Applied \<and> rs_generation rt = st_event_sha256 s \<and>
    (\<forall>r \<in> set (rs_replicas rt). rr_phase r \<in> {RunningPhase, Succeeded, StoppedPhase} \<and>
      (\<forall>p. rr_probe r = Some p \<longrightarrow> pr_phase p = ProbeReady)) \<and>
    length (filter (\<lambda>r. rr_phase r \<in> {RunningPhase, Succeeded}) (rs_replicas rt)) = st_desired_replicas s \<and>
    ((\<exists>r \<in> set (rs_replicas rt). rr_phase r = RunningPhase) \<longrightarrow> now_ms - rs_observed_at rt \<le> 20000)"
proof (cases runtime)
  case None
  from from_status_Inr [OF assms(1)] obtain h0 d where "h0 = first_report s (st_desired_replicas s) runtime now_ms"
    "h = h0\<lparr>hr_report_sha256 := d\<rparr>" unfolding None option.case by blast
  then have False using assms(2) by (cases "st_state s")
      (auto simp: health_ready_def first_report_def first_health_state_def split: if_splits)
  then show ?thesis ..
next
  case (Some rt)
  from from_status_Inr [OF assms(1)] obtain h0 d where
    h0: "observe_runtime sc s now_ms rt (first_report s (st_desired_replicas s) (Some rt) now_ms) = Inr h0"
    and h: "h = h0\<lparr>hr_report_sha256 := d\<rparr>" and v: "validate_report c h = Inr ()" unfolding Some option.case by blast
  note o = observe_runtime_counts [OF h0]
  let ?rs = "rs_replicas rt" and ?n = "st_desired_replicas s"
  have st: "hr_state h0 = HealthyState \<or> hr_state h0 = CompletedState" using assms(2) by (simp add: h health_ready_def)
  have ap: "st_state s = Applied" "?n > 0"
    using st o(15) by (auto simp: first_health_state_def split: if_splits stack_state.splits)
  have der: "hr_state h0 = derived_applied_state h0 now_ms (rs_observed_at rt)" using o(15) ap by simp
  have counts: "hr_failures h0 = 0 \<and> hr_probe_unhealthy h0 = 0 \<and> hr_probe_waiting h0 = 0 \<and> hr_waiting h0 = 0 \<and>
      hr_successful h0 = ?n"
  proof -
    have "state_matches_counts h" using v by (auto simp: validate_report_def result_simps)
    then have "state_matches_counts h0" by (simp add: h state_matches_sealed)
    moreover have "hr_running h0 = 0 \<Longrightarrow> hr_successful h0 = hr_succeeded h0"
      using o(5,14) in_phase_le [of Succeeded ?rs] by (simp add: hr_successful_def)
    ultimately show ?thesis using st ap o(12,16) by (auto simp: state_matches_counts_def Let_def split: if_splits)
  qed
  have fresh: "now_ms - rs_observed_at rt \<le> 20000" if "hr_running h0 > 0"
    using st that unfolding der
    by (auto simp: derived_applied_state_def Let_def health_consts split: if_splits)
  note sums = counted_sums [OF o(1-7,14)]
  have "rr_phase r \<in> {RunningPhase, Succeeded, StoppedPhase} \<and> (\<forall>p. rr_probe r = Some p \<longrightarrow> pr_phase p = ProbeReady)"
    if "r \<in> set ?rs" for r
  proof -
    have "in_phase ph ?rs = 0" if "ph \<in> {Pending, Starting, Backoff, Failed, Exhausted}" for ph
      using counts that by (auto simp: sums)
    then have "rr_phase r \<notin> {Pending, Starting, Backoff, Failed, Exhausted}"
      using that in_phase_zero by blast
    moreover have "pr_phase p = ProbeReady" if "rr_probe r = Some p" for p
      using counts o(9,11) in_probe_zero \<open>r \<in> set ?rs\<close> that by (metis probe_phase.exhaust)
    ultimately show ?thesis by (cases "rr_phase r") auto
  qed
  moreover have "length (filter (\<lambda>r. rr_phase r \<in> {RunningPhase, Succeeded}) ?rs) = ?n"
    unfolding successful_filter using counts by (simp add: sums)
  moreover have "(\<exists>r \<in> set ?rs. rr_phase r = RunningPhase) \<Longrightarrow> hr_running h0 > 0"
    using o(3) in_phase_zero [of RunningPhase ?rs] by auto
  ultimately show ?thesis using Some ap o(22) fresh by blast
qed

section \<open>Counting replicas of a plan\<close>

lemma length_filter_mono: "\<forall>x \<in> set xs. P x \<longrightarrow> Q x \<Longrightarrow> length (filter P xs) \<le> length (filter Q xs)"
  by (induction xs) auto

lemma length_filter_same:
  "\<forall>x \<in> set xs. P x \<longrightarrow> Q x \<Longrightarrow> length (filter P xs) = length (filter Q xs) \<Longrightarrow> \<forall>x \<in> set xs. Q x \<longrightarrow> P x"
proof (induction xs)
  case (Cons x xs)
  have le: "length (filter P xs) \<le> length (filter Q xs)" using Cons.prems(1) by (intro length_filter_mono) simp
  with Cons.prems have "P x = Q x" "length (filter P xs) = length (filter Q xs)" by (auto split: if_splits)
  with Cons.IH Cons.prems(1) show ?case by simp
qed simp

definition desired_running :: "replica_runtime list \<Rightarrow> nat" where
  "desired_running rs = length (filter (\<lambda>r. rr_desired r = Running) rs)"

lemma desired_running_matches: "list_all2 replica_matches rs qs \<Longrightarrow> desired_running rs = desired_running qs"
  by (induction rs qs rule: list_all2_induct) (auto simp: desired_running_def replica_matches_def)

lemma desired_running_planned:
  "desired_running (planned_replicas is) = sum_list (map pi_replicas (filter (\<lambda>i. pi_desired i = Running) is))"
proof (induction "is")
  case (Cons i "is")
  have "filter (\<lambda>r. rr_desired r = Running) (map (planned_replica i) ns) =
      (if pi_desired i = Running then map (planned_replica i) ns else [])" for ns
    by (induction ns) (simp_all add: planned_replica_def)
  with Cons show ?case by (simp add: desired_running_def planned_replicas_def)
qed (simp add: desired_running_def planned_replicas_def)

lemma validate_against_Inr:
  assumes "validate_against pc sc version_ok rt p revision generation = Inr ()"
  shows "validate_status sc rt = Inr ()" "rs_stack rt = pl_stack p" "rs_revision rt = revision" "rs_generation rt = generation"
    "list_all2 replica_matches (rs_replicas rt) (planned_replicas (pl_instances p))" "validate_plan pc version_ok p = Inr ()"
proof -
  obtain e where e: "from_plan pc sc version_ok p revision generation (rs_observed_at rt) = Inr e"
    and m: "rs_stack rt = rs_stack e" "rs_revision rt = revision" "rs_generation rt = generation"
    "length (rs_replicas rt) = length (rs_replicas e)"
    "\<forall>(a, b) \<in> set (zip (rs_replicas rt) (rs_replicas e)). replica_matches a b" and v: "validate_status sc rt = Inr ()"
    using assms by (auto simp: validate_against_def result_simps list_ex_iff)
  have "rs_replicas e = planned_replicas (pl_instances p)" "rs_stack e = pl_stack p"
    using e by (auto simp: from_plan_def result_simps Let_def refresh_def planned_replicas_def split: sum.splits prod.splits)
  then show "validate_status sc rt = Inr ()" "rs_stack rt = pl_stack p" "rs_revision rt = revision" "rs_generation rt = generation"
    "list_all2 replica_matches (rs_replicas rt) (planned_replicas (pl_instances p))"
    using m v by (auto simp: list_all2_iff)
  show "validate_plan pc version_ok p = Inr ()" using from_plan_Inr(1) [OF e] .
qed

lemma planned_stopped_probe:
  "r \<in> set (planned_replicas is) \<Longrightarrow> rr_desired r = Stopped \<Longrightarrow> rr_probe r = None"
  by (auto simp: planned_replicas_def planned_replica_def)

text \<open>What holds of the replicas of a status that matches its plan.\<close>

lemma matched_replicas:
  assumes "validate_against pc sc version_ok rt p revision generation = Inr ()" and "r \<in> set (rs_replicas rt)"
  shows "rr_desired r = Stopped \<Longrightarrow> rr_phase r = StoppedPhase" "rr_desired r = Stopped \<Longrightarrow> rr_probe r = None"
    "rr_phase r = RunningPhase \<Longrightarrow> rr_probe r = Some q \<Longrightarrow> pr_phase q \<noteq> ProbeWaiting"
proof -
  note v = validate_against_Inr [OF assms(1)]
  have ok: "validate_replica r = Inr ()" using v(1) assms(2) by (simp add: validate_status_iff)
  show "rr_desired r = Stopped \<Longrightarrow> rr_phase r = StoppedPhase"
    using ok by (auto simp: validate_replica_iff phase_fields_inconsistent_def planned_stopped_def Let_def)
  obtain r0 where "r0 \<in> set (planned_replicas (pl_instances p))" "replica_matches r r0"
    using v(5) assms(2) by (auto simp: list_all2_conv_all_nth in_set_conv_nth) (metis nth_mem)
  then show "rr_desired r = Stopped \<Longrightarrow> rr_probe r = None"
    using planned_stopped_probe by (fastforce simp: replica_matches_def)
  show "rr_phase r = RunningPhase \<Longrightarrow> rr_probe r = Some q \<Longrightarrow> pr_phase q \<noteq> ProbeWaiting"
    using ok by (auto simp: validate_replica_iff probe_ok_def split: probe_phase.splits)
qed

lemma matched_counts:
  assumes "validate_against pc sc version_ok rt p revision generation = Inr ()"
    and "\<forall>r \<in> set (rs_replicas rt). \<forall>q. rr_phase r = Succeeded \<longrightarrow> rr_probe r = Some q \<longrightarrow> pr_phase q \<noteq> ProbeWaiting"
  defines "rs \<equiv> rs_replicas rt"
  shows "in_phase RunningPhase rs + in_phase Succeeded rs \<le> desired_running rs"
    "in_phase RunningPhase rs + in_phase Succeeded rs = desired_running rs \<Longrightarrow> in_probe ProbeWaiting rs = 0"
    "desired_running rs = 0 \<Longrightarrow> ph \<noteq> StoppedPhase \<Longrightarrow> in_phase ph rs = 0"
proof -
  note m = matched_replicas [OF assms(1), folded rs_def]
  have "rr_desired r = Running" if "r \<in> set rs" "rr_phase r \<noteq> StoppedPhase" for r
    using m(1) [OF that(1)] that(2) by (cases "rr_desired r") auto
  then have run: "\<forall>r \<in> set rs. rr_phase r \<in> {RunningPhase, Succeeded} \<longrightarrow> rr_desired r = Running"
    and stopped: "\<forall>r \<in> set rs. rr_desired r \<noteq> Running \<longrightarrow> rr_phase r = StoppedPhase"
    by auto
  show "in_phase RunningPhase rs + in_phase Succeeded rs \<le> desired_running rs"
    unfolding successful_filter [symmetric] desired_running_def by (rule length_filter_mono [OF run])
  show "desired_running rs = 0 \<Longrightarrow> ph \<noteq> StoppedPhase \<Longrightarrow> in_phase ph rs = 0"
    using stopped by (auto simp: desired_running_def filter_empty_conv in_phase_zero)
  assume "in_phase RunningPhase rs + in_phase Succeeded rs = desired_running rs"
  then have "\<forall>r \<in> set rs. rr_desired r = Running \<longrightarrow> rr_phase r \<in> {RunningPhase, Succeeded}"
    by (intro length_filter_same [OF run]) (simp only: successful_filter desired_running_def)
  moreover have "rr_desired r = Running" if "r \<in> set rs" "rr_probe r = Some q" for r q
    using m(2) [OF that(1)] that(2) by (cases "rr_desired r") auto
  ultimately show "in_probe ProbeWaiting rs = 0"
    using m(3) assms(2) unfolding in_probe_zero rs_def by blast
qed

lemma observe_runtime_total:
  assumes "validate_status sc rt = Inr ()" and "rs_stack rt = st_stack s" and "rs_revision rt = st_revision s"
    and "rs_generation rt = st_event_sha256 s"
  shows "\<exists>h. observe_runtime sc s now_ms rt (first_report s n (Some rt) now_ms) = Inr h"
proof -
  have len: "length (rs_replicas rt) \<le> 256" using assms(1) by (simp add: validate_status_iff identity_ok_def)
  then have "roomy ((first_report s n (Some rt) now_ms)\<lparr>hr_replicas_total := length (rs_replicas rt)\<rparr>) (length (rs_replicas rt))"
    by (simp add: roomy_def first_report_def)
  from count_fold [OF this] show ?thesis using assms len by (simp add: observe_runtime_def try_from_u16_def)
qed

text \<open>The status of a valid event with a plan, and the status of its runtime.\<close>

lemma event_status_matched:
  assumes "validate_event env e = Inr ()" and "ev_plan e = Some p"
    and "validate_against (plan_codec env) sc (version_valid env) rt p (ev_revision e) (ev_sha256 e) = Inr ()"
  shows "st_desired_replicas (event_status e) = desired_running (rs_replicas rt)"
    "st_desired_replicas (event_status e) \<le> 256" "validate_stack_status (event_status e) = Inr ()"
    "rs_stack rt = st_stack (event_status e)" "rs_revision rt = st_revision (event_status e)"
    "rs_generation rt = st_event_sha256 (event_status e)"
    "st_state (event_status e) \<noteq> Removed"
    "st_state (event_status e) = StoppedStack \<Longrightarrow> st_desired_replicas (event_status e) = 0"
proof -
  note v = validate_against_Inr [OF assms(3)] and ev = validate_event_Inr [OF assms(1)]
  note pl = validate_plan_instances [OF v(6)]
  show n: "st_desired_replicas (event_status e) = desired_running (rs_replicas rt)"
    using desired_running_matches [OF v(5)] assms(2) by (simp add: desired_running_planned event_status_def)
  have "desired_running (rs_replicas rt) \<le> length (rs_replicas rt)" by (simp add: desired_running_def)
  also have "\<dots> \<le> 256" using v(1) by (simp add: validate_status_iff identity_ok_def)
  finally show nle: "st_desired_replicas (event_status e) \<le> 256" by (simp add: n)
  have kind: "ev_kind e \<noteq> RemoveEvent" using ev(6) assms(2) by (auto simp: event_plan_ok_def)
  then show "st_state (event_status e) \<noteq> Removed"
    by (cases "ev_kind e") (simp_all add: event_status_def state_of_kind_def)
  show "validate_stack_status (event_status e) = Inr ()"
    using ev pl(6,8) nle kind assms(2) by (cases "ev_kind e")
      (simp_all add: validate_stack_status_def event_status_def state_of_kind_def plan_consts)
  show "rs_stack rt = st_stack (event_status e)" "rs_revision rt = st_revision (event_status e)"
    "rs_generation rt = st_event_sha256 (event_status e)"
    using v(2-4) ev(6) assms(2) kind
    by (auto simp: event_status_def event_plan_ok_def result_simps split: event_kind.splits)
  show "st_state (event_status e) = StoppedStack \<Longrightarrow> st_desired_replicas (event_status e) = 0"
    using ev(6) assms(2) by (cases "ev_kind e")
      (auto simp: event_plan_ok_def result_simps event_status_def state_of_kind_def list_ex_iff filter_empty_conv)
qed

section \<open>A ready report is true\<close>

lemma planned_in_status:
  assumes "list_all2 replica_matches rs (planned_replicas is)" and "i \<in> set is" and "1 \<le> n" and "n \<le> pi_replicas i"
  shows "\<exists>r \<in> set rs. rr_id r = ReplicaId (pi_name i) n \<and> rr_desired r = pi_desired i"
proof -
  have "planned_replica i n \<in> set (planned_replicas is)" using assms(2-4) by (auto simp: planned_replicas_def intro!: bexI [of _ i])
  then obtain r where "r \<in> set rs" "replica_matches r (planned_replica i n)"
    using assms(1) by (auto simp: list_all2_conv_all_nth in_set_conv_nth) (metis nth_mem)
  then show ?thesis by (auto simp: replica_matches_def planned_replica_def)
qed

text \<open>As many replicas run or have succeeded as are desired, and only desired ones do: so all of
  the desired ones do.\<close>

lemma desired_all_up:
  assumes "validate_against pc sc version_ok rt p revision generation = Inr ()"
    and "length (filter (\<lambda>r. rr_phase r \<in> {RunningPhase, Succeeded}) (rs_replicas rt)) = desired_running (rs_replicas rt)"
    and "r \<in> set (rs_replicas rt)" and "rr_desired r = Running"
  shows "rr_phase r \<in> {RunningPhase, Succeeded}"
proof -
  have "\<forall>r \<in> set (rs_replicas rt). rr_phase r \<in> {RunningPhase, Succeeded} \<longrightarrow> rr_desired r = Running"
  proof (intro ballI impI)
    fix r
    assume "r \<in> set (rs_replicas rt)" "rr_phase r \<in> {RunningPhase, Succeeded}"
    with matched_replicas(1) [OF assms(1)] show "rr_desired r = Running" by (cases "rr_desired r") auto
  qed
  from length_filter_same [OF this assms(2) [unfolded desired_running_def]] assms(3,4) show ?thesis by blast
qed

text \<open>C33: a ready report is true.  Let a report be made of the current event of a stack with plan \<open>p\<close>
  and of a runtime status that, if there is one, was checked against that plan and generation.  If
  the report says \<^verbatim>\<open>Healthy\<close> or \<^verbatim>\<open>Completed\<close>, there is such a status, and every replica the plan wants
  running is in it, runs or has succeeded, and has a ready probe if it has a probe at all; no
  replica waits or has failed.  While some replica runs, the status is at most 20 seconds old; a
  report on replicas that have all succeeded does not age.\<close>

theorem health_ready_sound:
  assumes "validate_event env e = Inr ()" and "ev_plan e = Some p"
    and "\<And>rt. runtime = Some rt \<Longrightarrow> validate_against (plan_codec env) sc (version_valid env) rt p
      (ev_revision e) (ev_sha256 e) = Inr ()"
    and "from_status c sc (event_status e) runtime now_ms = Inr h" and "health_ready h"
  shows "\<exists>rt. runtime = Some rt \<and> ev_kind e = ApplyEvent \<and> rs_generation rt = ev_sha256 e \<and>
    (\<forall>i \<in> set (pl_instances p). pi_desired i = Running \<longrightarrow> (\<forall>n \<in> {1..pi_replicas i}.
      \<exists>r \<in> set (rs_replicas rt). rr_id r = ReplicaId (pi_name i) n \<and> rr_phase r \<in> {RunningPhase, Succeeded} \<and>
        (\<forall>q. rr_probe r = Some q \<longrightarrow> pr_phase q = ProbeReady))) \<and>
    (\<forall>r \<in> set (rs_replicas rt). rr_phase r \<in> {RunningPhase, Succeeded, StoppedPhase}) \<and>
    ((\<exists>r \<in> set (rs_replicas rt). rr_phase r = RunningPhase) \<longrightarrow> now_ms - rs_observed_at rt \<le> 20000)"
proof -
  obtain rt where rt: "runtime = Some rt" "st_state (event_status e) = Applied"
    "rs_generation rt = st_event_sha256 (event_status e)"
    "\<forall>r \<in> set (rs_replicas rt). rr_phase r \<in> {RunningPhase, Succeeded, StoppedPhase} \<and>
      (\<forall>q. rr_probe r = Some q \<longrightarrow> pr_phase q = ProbeReady)"
    "length (filter (\<lambda>r. rr_phase r \<in> {RunningPhase, Succeeded}) (rs_replicas rt)) = st_desired_replicas (event_status e)"
    "(\<exists>r \<in> set (rs_replicas rt). rr_phase r = RunningPhase) \<longrightarrow> now_ms - rs_observed_at rt \<le> 20000"
    using ready_report [OF assms(4,5)] by blast
  note va = assms(3) [OF rt(1)]
  note n = event_status_matched(1) [OF assms(1,2) va] and m = validate_against_Inr(5) [OF va]
  have kind: "ev_kind e = ApplyEvent" "rs_generation rt = ev_sha256 e"
    using rt(2,3) by (cases "ev_kind e"; simp add: event_status_def state_of_kind_def)+
  have "\<exists>r \<in> set (rs_replicas rt). rr_id r = ReplicaId (pi_name i) k \<and> rr_phase r \<in> {RunningPhase, Succeeded} \<and>
      (\<forall>q. rr_probe r = Some q \<longrightarrow> pr_phase q = ProbeReady)"
    if i: "i \<in> set (pl_instances p)" "pi_desired i = Running" "k \<in> {1..pi_replicas i}" for i k
  proof -
    obtain r where r: "r \<in> set (rs_replicas rt)" "rr_id r = ReplicaId (pi_name i) k" "rr_desired r = Running"
      using planned_in_status [OF m i(1), of k] i(2,3) by auto
    with desired_all_up [OF va rt(5) [unfolded n] r(1,3)] rt(4) show ?thesis by blast
  qed
  then show ?thesis using rt(1,4,6) kind by blast
qed

section \<open>The report is always made\<close>

lemma report_made:
  assumes "codec_ok c" and "validate_event env e = Inr ()" and "ev_plan e = Some p"
    and "validate_against (plan_codec env) sc (version_valid env) rt p (ev_revision e) (ev_sha256 e) = Inr ()"
    and "rs_observed_at rt \<le> now_ms"
    and "\<forall>r \<in> set (rs_replicas rt). \<forall>q. rr_phase r = Succeeded \<longrightarrow> rr_probe r = Some q \<longrightarrow> pr_phase q \<noteq> ProbeWaiting"
  shows "\<exists>h. from_status c sc (event_status e) (Some rt) now_ms = Inr h"
proof -
  let ?s = "event_status e" and ?rs = "rs_replicas rt" and ?n = "st_desired_replicas (event_status e)"
  note es = event_status_matched [OF assms(2-4)] and cnt = matched_counts [OF assms(4,6)]
  note v = validate_against_Inr(1) [OF assms(4)]
  have obs: "rs_observed_at rt \<noteq> 0" using v by (simp add: validate_status_iff identity_ok_def)
  obtain h0 where h0: "observe_runtime sc ?s now_ms rt (first_report ?s ?n (Some rt) now_ms) = Inr h0"
    using observe_runtime_total [OF v es(4-6)] by blast
  note o = observe_runtime_counts [OF h0]
  note sums = counted_sums [OF o(1-7,14)]
  have match: "state_matches_counts h0"
  proof (cases "st_state ?s = Applied \<and> ?n > 0")
    case True
    then have "hr_state h0 = derived_applied_state h0 now_ms (rs_observed_at rt)" using o(15) by simp
    with True show ?thesis
      using o(3,5,9,12,16-18) cnt(1,2) es(1)
      by (simp add: state_matches_counts_def derived_applied_state_def Let_def sums) linarith?
  next
    case False
    then show ?thesis
      using o(12,15,16) es(1,7,8) cnt(3) by (cases "st_state ?s")
        (auto simp: state_matches_counts_def first_health_state_def sums)
  qed
  obtain b where b: "to_vec c (h0\<lparr>hr_report_sha256 := []\<rparr>) = Some b" using assms(1) by (auto simp: codec_ok_def)
  let ?h = "h0\<lparr>hr_report_sha256 := sha256hex c b\<rparr>"
  have "phase_total ?h = Inr (length ?rs)"
    using o(1-8,14) in_phase_sum [of ?rs] by (simp add: phase_total_def checked_add_def)
  moreover obtain k where "probe_total ?h = Inr k" "k \<le> length ?rs"
    using o(9-11,14) in_probe_sum [of ?rs] by (simp add: probe_total_def checked_add_def)
  moreover have "is_digest (sha256hex c b)" using assms(1) by (simp add: codec_ok_def)
  ultimately have "validate_report c ?h = Inr ()"
    using o(12-14,17-21) validate_event_Inr(1,2) [OF assms(2)] es(2) match b obs assms(5)
    by (simp add: validate_report_def report_sha256_def state_matches_sealed plan_consts event_status_def)
  then show ?thesis
    using es(2,3) h0 b obs assms(5) by (auto simp: from_status_def try_from_u16_def report_sha256_def Let_def)
qed

text \<open>A report is always made for a status of the supervisor.  For the current event of a stack
  with a plan and a runtime status that matches it, observed no later than now and in which no
  succeeded replica still waits for its first signal, \<^verbatim>\<open>from_status\<close> succeeds.\<close>

theorem health_report_made:
  assumes "codec_ok c" and "validate_event env e = Inr ()" and "ev_plan e = Some p"
    and "validate_against (plan_codec env) sc (version_valid env) rt p (ev_revision e) (ev_sha256 e) = Inr ()"
    and "rs_observed_at rt \<le> now_ms"
    and "\<forall>r \<in> set (rs_replicas rt). \<forall>q. rr_phase r = Succeeded \<longrightarrow> rr_probe r = Some q \<longrightarrow> pr_phase q \<noteq> ProbeWaiting"
  shows "\<exists>h. from_status c sc (event_status e) (Some rt) now_ms = Inr h"
  using report_made [OF assms] .

section \<open>Examples\<close>

definition demo_ready_replica :: "nat \<Rightarrow> replica_runtime" where
  "demo_ready_replica n = (planned_replica demo_planned n)\<lparr>rr_attempt := 1, rr_phase := RunningPhase,
     rr_run_id := Some demo_digest, rr_started_at := Some 10, rr_probe := Some \<lparr>pr_phase = ProbeReady,
       pr_last_sequence = 1, pr_last_signal_at = Some 12, pr_ready_at = Some 12, pr_failures = 0\<rparr>\<rparr>"

definition demo_ready_status :: runtime_status where
  "demo_ready_status = \<lparr>rs_format_version = 2, rs_stack = ''shop'', rs_revision = 1, rs_generation = demo_digest,
     rs_observed_at = 15, rs_replicas = [demo_ready_replica 1, demo_ready_replica 2], rs_status_sha256 = demo_digest\<rparr>"

lemma demo_ready_replica_ok: "n \<noteq> 0 \<Longrightarrow> validate_replica (demo_ready_replica n) = Inr ()"
proof -
  assume "n \<noteq> 0"
  moreover have "valid_name ''web''" by (simp add: valid_name_def name_byte_def text_defs)
  ultimately show ?thesis
    by (simp add: validate_replica_iff demo_ready_replica_def planned_replica_def demo_planned_def probe_ok_def
        phase_fields_inconsistent_def active_phase_def policy_phase_is_valid_def plan_consts)
qed

lemma demo_ready_valid: "validate_status demo_codec demo_ready_status = Inr ()"
  using demo_shop demo_ready_replica_ok
  by (simp add: validate_status_iff identity_ok_def demo_ready_status_def status_sha256_def demo_codec_def
      less_replica_id_def) (simp add: demo_ready_replica_def less_replica_id_def)

lemma demo_ready_matches:
  "validate_against (plan_codec demo_env) demo_codec (version_valid demo_env) demo_ready_status demo_plan
     (ev_revision demo_applied) (ev_sha256 demo_applied) = Inr ()"
proof -
  obtain d where d: "from_plan demo_codec demo_codec (\<lambda>_. True) demo_plan 1 demo_digest 15 =
      Inr (first_status demo_plan 1 demo_digest 15 d)"
    by (rule from_plan_accepts [OF demo_codec_ok demo_plan_ok, of 1 demo_digest 15]) (simp_all add: demo_digest_ok)
  have ev: "plan_codec demo_env = demo_codec" "version_valid demo_env = (\<lambda>_. True)" "ev_revision demo_applied = 1"
    "ev_sha256 demo_applied = demo_digest" "rs_observed_at demo_ready_status = 15"
    by (simp_all add: demo_env_def demo_applied_def demo_ready_status_def)
  have rs: "rs_replicas (first_status demo_plan 1 demo_digest 15 d) = [planned_replica demo_planned 1, planned_replica demo_planned 2]"
    by (simp add: first_status_def demo_plan_def planned_replicas_def demo_planned_def upt_rec numeral_2_eq_2)
  have "replica_matches (demo_ready_replica n) (planned_replica demo_planned n)" for n
    by (simp add: replica_matches_def demo_ready_replica_def planned_replica_def demo_planned_def)
  then show ?thesis
    unfolding validate_against_def demo_ready_valid ev d and_then_simps rs
    by (simp add: demo_ready_status_def first_status_def demo_plan_def)
qed

lemma demo_report:
  assumes "15 \<le> now_ms" and "now_ms \<le> 20000"
  obtains h where "from_status demo_codec demo_codec (event_status demo_applied) (Some demo_ready_status) now_ms = Inr h"
    "hr_state h = HealthyState"
proof -
  have ev: "ev_plan demo_applied = Some demo_plan" "rs_observed_at demo_ready_status \<le> now_ms"
    using assms by (simp_all add: demo_applied_def demo_ready_status_def)
  obtain h where h: "from_status demo_codec demo_codec (event_status demo_applied) (Some demo_ready_status) now_ms = Inr h"
    using report_made [OF demo_codec_ok demo_events_ok(1) ev(1) demo_ready_matches ev(2)]
    by (auto simp: demo_ready_status_def demo_ready_replica_def)
  from from_status_Inr [OF h] obtain h0 d where
    h0: "observe_runtime demo_codec (event_status demo_applied) now_ms demo_ready_status
      (first_report (event_status demo_applied) (st_desired_replicas (event_status demo_applied)) (Some demo_ready_status) now_ms) = Inr h0"
    and d: "h = h0\<lparr>hr_report_sha256 := d\<rparr>" unfolding option.case by blast
  note o = observe_runtime_counts [OF h0]
  have c: "in_phase ph (rs_replicas demo_ready_status) = (if ph = RunningPhase then 2 else 0)"
    "in_probe pp (rs_replicas demo_ready_status) = (if pp = ProbeReady then 2 else 0)" for ph pp
    by (simp_all add: demo_ready_status_def in_phase_def in_probe_def demo_ready_replica_def)
  have obs: "rs_observed_at demo_ready_status = 15" by (simp add: demo_ready_status_def)
  have "st_state (event_status demo_applied) = Applied" "st_desired_replicas (event_status demo_applied) = 2"
    by (simp_all add: event_status_def demo_applied_def state_of_kind_def demo_plan_def demo_planned_def)
  then have "hr_state h0 = HealthyState"
    using assms(2) o(3,5,9-12,15) counted_sums [OF o(1-7,14)] by (simp add: c derived_applied_state_def health_consts obs)
  then show thesis using that h d by simp
qed

theorem health_ready_sound_witness:
  "\<exists>r \<in> set (rs_replicas demo_ready_status). rr_id r = ReplicaId ''web'' 2 \<and>
     rr_phase r \<in> {RunningPhase, Succeeded} \<and> map_option pr_phase (rr_probe r) \<in> {None, Some ProbeReady}"
proof -
  obtain h where h: "from_status demo_codec demo_codec (event_status demo_applied) (Some demo_ready_status) 20 = Inr h"
    "hr_state h = HealthyState" by (rule demo_report [of 20]) simp_all
  have p: "ev_plan demo_applied = Some demo_plan" by (simp add: demo_applied_def)
  have i: "demo_planned \<in> set (pl_instances demo_plan)" "pi_desired demo_planned = Running"
    "pi_replicas demo_planned = 2" "pi_name demo_planned = ''web''"
    by (simp_all add: demo_plan_def demo_planned_def)
  have va: "validate_against (plan_codec demo_env) demo_codec (version_valid demo_env) rt demo_plan
      (ev_revision demo_applied) (ev_sha256 demo_applied) = Inr ()" if "Some demo_ready_status = Some rt" for rt
    using that demo_ready_matches by simp
  have "health_ready h" using h(2) by (simp add: health_ready_def)
  from health_ready_sound [OF demo_events_ok(1) p va h(1) this] obtain r where
    "r \<in> set (rs_replicas demo_ready_status)" "rr_id r = ReplicaId ''web'' 2" "rr_phase r \<in> {RunningPhase, Succeeded}"
    "\<forall>q. rr_probe r = Some q \<longrightarrow> pr_phase q = ProbeReady"
    using i by fastforce
  then show ?thesis by (cases "rr_probe r") auto
qed

theorem health_report_made_witness:
  "\<exists>h. from_status demo_codec demo_codec (event_status demo_applied) (Some demo_ready_status) 20 = Inr h"
  by (rule health_report_made [OF demo_codec_ok demo_events_ok(1) _ demo_ready_matches])
    (auto simp: demo_applied_def demo_ready_status_def demo_ready_replica_def)

end
