(* ===== verification/Rollout.thy ===== *)
theory Rollout
  imports Health
begin

text \<open>
  Rollout records (\<^verbatim>\<open>RolloutRecord\<close> and \<^verbatim>\<open>RolloutStatus\<close> of
  \<^verbatim>\<open>crates/cartridge-engine/src/rollout.rs\<close>): the checkpoint of a whole-generation update, its checks,
  its transitions and the recovery that compares it with the journal.  The store operations that
  read and write the checkpoint are in \<open>Engine_Store\<close>.

  Shown here: each transition of an accepted record yields an accepted record; a checkpoint that is
  one step behind the journal, as a crash between the two writes leaves it, is brought up to date.
\<close>

section \<open>Data\<close>

definition ENGINE_ROLLOUT_FORMAT_VERSION :: nat where "ENGINE_ROLLOUT_FORMAT_VERSION = 1"
definition MAX_ROLLOUT_HISTORY :: nat where "MAX_ROLLOUT_HISTORY = 256"
definition MAX_ROLLOUT_HISTORY_BYTES :: nat where "MAX_ROLLOUT_HISTORY_BYTES = 256 * 1024 * 1024"
definition MAX_ROLLOUT_BYTES :: nat where "MAX_ROLLOUT_BYTES = MAX_STACK_PLAN_BYTES * 2 + 64 * 1024"
definition ROLLOUT_STABILITY_WINDOW_MS :: nat where "ROLLOUT_STABILITY_WINDOW_MS = 2000"

lemmas rollout_consts = ENGINE_ROLLOUT_FORMAT_VERSION_def MAX_ROLLOUT_HISTORY_def
  MAX_ROLLOUT_HISTORY_BYTES_def MAX_ROLLOUT_BYTES_def ROLLOUT_STABILITY_WINDOW_MS_def

datatype rollout_phase = Prepared | Activated | Committed | RolledBack | Cancelled

record rollout_record =
  ro_format_version :: nat
  ro_rollout_id :: string
  ro_stack :: string
  ro_phase :: rollout_phase
  ro_created_at :: nat
  ro_updated_at :: nat
  ro_previous_revision :: "nat option"
  ro_previous_generation :: "string option"
  ro_previous_state :: "stack_state option"
  ro_previous_plan :: "stack_plan option"
  ro_candidate_plan :: stack_plan
  ro_activated_revision :: "nat option"
  ro_activated_generation :: "string option"
  ro_rollback_revision :: "nat option"
  ro_rollback_generation :: "string option"
  ro_health_report_sha256 :: "string option"
  ro_record_sha256 :: string

record rollout_status =
  rt_format_version :: nat
  rt_rollout_id :: string
  rt_stack :: string
  rt_phase :: rollout_phase
  rt_created_at :: nat
  rt_updated_at :: nat
  rt_previous_revision :: "nat option"
  rt_previous_generation :: "string option"
  rt_previous_state :: "stack_state option"
  rt_previous_plan_sha256 :: "string option"
  rt_candidate_plan_sha256 :: string
  rt_activated_revision :: "nat option"
  rt_activated_generation :: "string option"
  rt_rollback_revision :: "nat option"
  rt_rollback_generation :: "string option"
  rt_health_report_sha256 :: "string option"
  rt_checkpoint_sha256 :: string
  rt_status_sha256 :: string

datatype rollout_error =
    RolloutPlanInvalid plan_error | RolloutIdentityInvalid | PreviousPlanMissing | PreviousPlanInconsistent
  | RemovedPlanRetained | PreviousIncomplete | RolloutPhaseInconsistent | RolloutTimeInvalid
  | RolloutNotSerializable | RolloutTooLarge | RolloutStatusInvalid | RollbackPlanMissing
  | RolloutTimeBackwards | DesiredStateChanged | NotActivatedState | RolloutEventMissing

text \<open>The identity of a rollout is the hash of a serialised tuple.\<close>

type_synonym rollout_identity = "nat \<times> string \<times> nat \<times> nat option \<times> string option \<times> string"

record rollout_env = journal_env +
  record_codec :: "rollout_record codec"
  identity_codec :: "rollout_identity codec"
  rollout_status_codec :: "rollout_status codec"

section \<open>Checks\<close>

definition rollout_id ::
    "rollout_env \<Rightarrow> string \<Rightarrow> nat \<Rightarrow> nat option \<Rightarrow> string option \<Rightarrow> string \<Rightarrow> rollout_error + string" where
  "rollout_id env stack created_at previous_revision previous_generation candidate_sha256 =
     and_then (ok_or (to_vec (identity_codec env) (ENGINE_ROLLOUT_FORMAT_VERSION, stack, created_at,
       previous_revision, previous_generation, candidate_sha256)) RolloutNotSerializable) (\<lambda>b.
     Inr (sha256hex (identity_codec env) b))"

definition computed_rollout_id :: "rollout_env \<Rightarrow> rollout_record \<Rightarrow> rollout_error + string" where
  "computed_rollout_id env r =
     rollout_id env (ro_stack r) (ro_created_at r) (ro_previous_revision r) (ro_previous_generation r)
       (pl_plan_sha256 (ro_candidate_plan r))"

definition record_sha256 :: "rollout_env \<Rightarrow> rollout_record \<Rightarrow> rollout_error + string" where
  "record_sha256 env r =
     and_then (ok_or (to_vec (record_codec env) (r\<lparr>ro_record_sha256 := []\<rparr>)) RolloutNotSerializable) (\<lambda>b.
     and_then (fail_if (length b > MAX_ROLLOUT_BYTES) RolloutTooLarge) (\<lambda>_.
     Inr (sha256hex (record_codec env) b)))"

definition digest_option :: "string option \<Rightarrow> bool" where
  "digest_option d = (case d of None \<Rightarrow> False | Some v \<Rightarrow> is_digest v)"

definition positive_option :: "nat option \<Rightarrow> bool" where
  "positive_option n = (case n of None \<Rightarrow> False | Some v \<Rightarrow> v > 0)"

definition valid_phase_fields ::
    "rollout_phase \<Rightarrow> nat option \<Rightarrow> nat option \<Rightarrow> string option \<Rightarrow> nat option \<Rightarrow> string option \<Rightarrow> string option \<Rightarrow> bool" where
  "valid_phase_fields phase previous_revision activated_revision activated_generation
       rollback_revision rollback_generation health_sha256 =
     (let activation_valid = positive_option activated_revision \<and> digest_option activated_generation;
          rollback_valid = positive_option rollback_revision \<and> digest_option rollback_generation;
          activation_absent = activated_revision = None \<and> activated_generation = None;
          rollback_absent = rollback_revision = None \<and> rollback_generation = None;
          health_valid = digest_option health_sha256;
          phase_valid = (case phase of
              Prepared \<Rightarrow> activation_absent \<and> rollback_absent \<and> health_sha256 = None
            | Cancelled \<Rightarrow> activation_absent \<and> rollback_absent \<and> health_sha256 = None
            | Activated \<Rightarrow> activation_valid \<and> rollback_absent \<and> health_sha256 = None
            | Committed \<Rightarrow> activation_valid \<and> rollback_absent \<and> health_valid
            | RolledBack \<Rightarrow> activation_valid \<and> rollback_valid \<and> (health_sha256 = None \<or> health_valid));
          activation_revision_valid = (case activated_revision of None \<Rightarrow> True | Some activated \<Rightarrow>
              activated = (case previous_revision of None \<Rightarrow> 1 | Some revision \<Rightarrow> saturating_add 64 revision 1));
          rollback_revision_valid = (case (activated_revision, rollback_revision) of
              (Some activated, Some rollback) \<Rightarrow> rollback = saturating_add 64 activated 1
            | (_, None) \<Rightarrow> True
            | (None, Some _) \<Rightarrow> False)
      in phase_valid \<and> activation_revision_valid \<and> rollback_revision_valid)"

definition validate_previous :: "rollout_env \<Rightarrow> rollout_record \<Rightarrow> rollout_error + unit" where
  "validate_previous env r =
     (case (ro_previous_revision r, ro_previous_generation r, ro_previous_state r) of
        (None, None, None) \<Rightarrow> fail_if (ro_previous_plan r \<noteq> None) PreviousIncomplete
      | (Some revision, Some generation, Some state) \<Rightarrow>
          if revision > 0 \<and> is_digest generation then
            (case state of
               Removed \<Rightarrow> fail_if (ro_previous_plan r \<noteq> None) RemovedPlanRetained
             | _ \<Rightarrow>
               and_then (ok_or (ro_previous_plan r) PreviousPlanMissing) (\<lambda>p.
               and_then (map_err RolloutPlanInvalid (validate_plan (plan_codec env) (version_valid env) p)) (\<lambda>_.
               fail_if (pl_stack p \<noteq> ro_stack r \<or>
                   state = StoppedStack \<and> list_ex (\<lambda>i. pi_desired i \<noteq> Stopped) (pl_instances p))
                 PreviousPlanInconsistent)))
          else Inl PreviousIncomplete
      | _ \<Rightarrow> Inl PreviousIncomplete)"

definition validate_phase :: "rollout_record \<Rightarrow> rollout_error + unit" where
  "validate_phase r =
     fail_if (\<not> valid_phase_fields (ro_phase r) (ro_previous_revision r) (ro_activated_revision r)
       (ro_activated_generation r) (ro_rollback_revision r) (ro_rollback_generation r) (ro_health_report_sha256 r))
       RolloutPhaseInconsistent"

definition validate_rollout :: "rollout_env \<Rightarrow> rollout_record \<Rightarrow> rollout_error + unit" where
  "validate_rollout env r =
     and_then (map_err RolloutPlanInvalid (validate_plan (plan_codec env) (version_valid env) (ro_candidate_plan r))) (\<lambda>_.
     and_then (fail_if (ro_format_version r \<noteq> ENGINE_ROLLOUT_FORMAT_VERSION \<or> \<not> is_digest (ro_rollout_id r) \<or>
         \<not> valid_name (ro_stack r) \<or> pl_stack (ro_candidate_plan r) \<noteq> ro_stack r \<or>
         ro_created_at r = 0 \<or> ro_updated_at r < ro_created_at r) RolloutIdentityInvalid) (\<lambda>_.
     and_then (computed_rollout_id env r) (\<lambda>i.
     and_then (fail_if (ro_rollout_id r \<noteq> i \<or> \<not> is_digest (ro_record_sha256 r)) RolloutIdentityInvalid) (\<lambda>_.
     and_then (record_sha256 env r) (\<lambda>d.
     and_then (fail_if (ro_record_sha256 r \<noteq> d) RolloutIdentityInvalid) (\<lambda>_.
     and_then (validate_previous env r) (\<lambda>_.
     validate_phase r)))))))"

definition rollout_active :: "rollout_record \<Rightarrow> bool" where
  "rollout_active r \<longleftrightarrow> ro_phase r = Prepared \<or> ro_phase r = Activated"

definition rollout_terminal :: "rollout_record \<Rightarrow> bool" where
  "rollout_terminal r \<longleftrightarrow> \<not> rollout_active r"

definition refresh_rollout :: "rollout_env \<Rightarrow> rollout_record \<Rightarrow> rollout_error + rollout_record" where
  "refresh_rollout env r =
     and_then (record_sha256 env (r\<lparr>ro_record_sha256 := []\<rparr>)) (\<lambda>d.
     let r' = r\<lparr>ro_record_sha256 := d\<rparr> in
     and_then (validate_rollout env r') (\<lambda>_. Inr r'))"

section \<open>Transitions\<close>

definition new_rollout ::
    "rollout_env \<Rightarrow> stack_plan \<Rightarrow> engine_event option \<Rightarrow> nat \<Rightarrow> rollout_error + rollout_record" where
  "new_rollout env candidate previous now_ms =
     and_then (fail_if (now_ms = 0) RolloutTimeInvalid) (\<lambda>_.
     let v = \<lparr>ro_format_version = ENGINE_ROLLOUT_FORMAT_VERSION, ro_rollout_id = [], ro_stack = pl_stack candidate,
              ro_phase = Prepared, ro_created_at = now_ms, ro_updated_at = now_ms,
              ro_previous_revision = map_option ev_revision previous,
              ro_previous_generation = map_option ev_sha256 previous,
              ro_previous_state = map_option (\<lambda>e. st_state (event_status e)) previous,
              ro_previous_plan = (case previous of None \<Rightarrow> None | Some e \<Rightarrow> ev_plan e),
              ro_candidate_plan = candidate, ro_activated_revision = None, ro_activated_generation = None,
              ro_rollback_revision = None, ro_rollback_generation = None, ro_health_report_sha256 = None,
              ro_record_sha256 = []\<rparr>
     in and_then (computed_rollout_id env v) (\<lambda>i. refresh_rollout env (v\<lparr>ro_rollout_id := i\<rparr>)))"

definition rollback_target :: "rollout_record \<Rightarrow> rollout_error + event_kind \<times> stack_plan option" where
  "rollback_target r =
     (case ro_previous_state r of
        Some Applied \<Rightarrow> and_then (ok_or (ro_previous_plan r) RollbackPlanMissing) (\<lambda>p. Inr (ApplyEvent, Some p))
      | Some StoppedStack \<Rightarrow> and_then (ok_or (ro_previous_plan r) RollbackPlanMissing) (\<lambda>p. Inr (StopEvent, Some p))
      | _ \<Rightarrow> Inr (RemoveEvent, None))"

definition ensure_time_advances :: "rollout_record \<Rightarrow> nat \<Rightarrow> rollout_error + unit" where
  "ensure_time_advances r now_ms = fail_if (now_ms = 0 \<or> now_ms < ro_updated_at r) RolloutTimeBackwards"

definition ensure_matches_previous :: "rollout_record \<Rightarrow> engine_event option \<Rightarrow> rollout_error + unit" where
  "ensure_matches_previous r current =
     fail_if (\<not> (case (ro_previous_revision r, current) of
         (None, None) \<Rightarrow> True
       | (Some revision, Some e) \<Rightarrow> ev_revision e = revision \<and> ro_previous_generation r = Some (ev_sha256 e) \<and>
           ro_previous_state r = Some (st_state (event_status e)) \<and>
           map_option pl_plan_sha256 (ro_previous_plan r) = map_option pl_plan_sha256 (ev_plan e)
       | _ \<Rightarrow> False)) DesiredStateChanged"

definition unwrap_default :: "string option \<Rightarrow> string" where
  "unwrap_default d = (case d of None \<Rightarrow> [] | Some v \<Rightarrow> v)"

definition matches_candidate :: "rollout_record \<Rightarrow> engine_event option \<Rightarrow> bool" where
  "matches_candidate r current =
     (case current of None \<Rightarrow> False | Some e \<Rightarrow> ev_kind e = ApplyEvent \<and>
        (case ev_plan e of None \<Rightarrow> False | Some p \<Rightarrow> pl_plan_sha256 p = pl_plan_sha256 (ro_candidate_plan r)) \<and>
        ev_previous_sha256 e = unwrap_default (ro_previous_generation r))"

definition ensure_matches_activation :: "rollout_record \<Rightarrow> engine_event option \<Rightarrow> rollout_error + unit" where
  "ensure_matches_activation r current =
     fail_if (\<not> (matches_candidate r current \<and>
       (case current of None \<Rightarrow> False | Some e \<Rightarrow> Some (ev_revision e) = ro_activated_revision r \<and>
          Some (ev_sha256 e) = ro_activated_generation r))) NotActivatedState"

definition matches_rollback :: "rollout_record \<Rightarrow> engine_event option \<Rightarrow> bool" where
  "matches_rollback r current =
     (case current of None \<Rightarrow> False | Some e \<Rightarrow>
        ev_previous_sha256 e = unwrap_default (ro_activated_generation r) \<and>
        (case ro_previous_state r of
           Some Applied \<Rightarrow> ev_kind e = ApplyEvent \<and>
             map_option pl_plan_sha256 (ev_plan e) = map_option pl_plan_sha256 (ro_previous_plan r)
         | Some StoppedStack \<Rightarrow> ev_kind e = StopEvent \<and>
             map_option pl_plan_sha256 (ev_plan e) = map_option pl_plan_sha256 (ro_previous_plan r)
         | _ \<Rightarrow> ev_kind e = RemoveEvent))"

text \<open>The writes of \<^verbatim>\<open>activate_rollout\<close>, \<^verbatim>\<open>rollback_rollout\<close> and the recovery to the record, before the
  seal.\<close>

definition activated_by :: "engine_event \<Rightarrow> nat \<Rightarrow> rollout_record \<Rightarrow> rollout_record" where
  "activated_by e updated_at r = r\<lparr>ro_phase := Activated, ro_updated_at := updated_at,
     ro_activated_revision := Some (ev_revision e), ro_activated_generation := Some (ev_sha256 e)\<rparr>"

definition rolled_back_by :: "engine_event \<Rightarrow> nat \<Rightarrow> rollout_record \<Rightarrow> rollout_record" where
  "rolled_back_by e updated_at r = r\<lparr>ro_phase := RolledBack, ro_updated_at := updated_at,
     ro_rollback_revision := Some (ev_revision e), ro_rollback_generation := Some (ev_sha256 e)\<rparr>"

definition recover_rollout_checkpoint ::
    "rollout_env \<Rightarrow> rollout_record \<Rightarrow> engine_event option \<Rightarrow> rollout_error + bool \<times> rollout_record" where
  "recover_rollout_checkpoint env r current =
     (case ro_phase r of
        Prepared \<Rightarrow>
          if matches_candidate r current then
            and_then (ok_or current RolloutEventMissing) (\<lambda>e.
            and_then (refresh_rollout env (activated_by e (max (ro_updated_at r) (ev_created_at e)) r)) (\<lambda>r'.
            Inr (True, r')))
          else and_then (ensure_matches_previous r current) (\<lambda>_. Inr (False, r))
      | Activated \<Rightarrow>
          if matches_rollback r current then
            and_then (ok_or current RolloutEventMissing) (\<lambda>e.
            and_then (refresh_rollout env (rolled_back_by e (max (ro_updated_at r) (ev_created_at e)) r)) (\<lambda>r'.
            Inr (True, r')))
          else and_then (ensure_matches_activation r current) (\<lambda>_. Inr (False, r))
      | _ \<Rightarrow> Inr (False, r))"

section \<open>Compact status\<close>

definition rollout_status_sha256 :: "rollout_env \<Rightarrow> rollout_status \<Rightarrow> rollout_error + string" where
  "rollout_status_sha256 env s =
     and_then (ok_or (to_vec (rollout_status_codec env) (s\<lparr>rt_status_sha256 := []\<rparr>)) RolloutNotSerializable) (\<lambda>b.
     Inr (sha256hex (rollout_status_codec env) b))"

definition status_previous_valid :: "rollout_status \<Rightarrow> bool" where
  "status_previous_valid s =
     (case (rt_previous_revision s, rt_previous_generation s, rt_previous_state s, rt_previous_plan_sha256 s) of
        (None, None, None, None) \<Rightarrow> True
      | (Some revision, Some generation, Some state, plan) \<Rightarrow>
          (case (state, plan) of
             (Removed, None) \<Rightarrow> revision > 0 \<and> is_digest generation
           | (_, Some d) \<Rightarrow> revision > 0 \<and> is_digest generation \<and> is_digest d
           | _ \<Rightarrow> False)
      | _ \<Rightarrow> False)"

definition validate_rollout_status :: "rollout_env \<Rightarrow> rollout_status \<Rightarrow> rollout_error + unit" where
  "validate_rollout_status env s =
     and_then (fail_if (rt_format_version s \<noteq> ENGINE_ROLLOUT_FORMAT_VERSION \<or> \<not> valid_name (rt_stack s) \<or>
         \<not> status_previous_valid s \<or> \<not> is_digest (rt_candidate_plan_sha256 s) \<or>
         \<not> is_digest (rt_checkpoint_sha256 s) \<or> \<not> is_digest (rt_status_sha256 s) \<or>
         rt_created_at s = 0 \<or> rt_updated_at s < rt_created_at s) RolloutStatusInvalid) (\<lambda>_.
     and_then (rollout_id env (rt_stack s) (rt_created_at s) (rt_previous_revision s)
       (rt_previous_generation s) (rt_candidate_plan_sha256 s)) (\<lambda>i.
     and_then (fail_if (rt_rollout_id s \<noteq> i \<or> \<not> valid_phase_fields (rt_phase s) (rt_previous_revision s)
         (rt_activated_revision s) (rt_activated_generation s) (rt_rollback_revision s)
         (rt_rollback_generation s) (rt_health_report_sha256 s)) RolloutStatusInvalid) (\<lambda>_.
     and_then (rollout_status_sha256 env s) (\<lambda>d.
     fail_if (d \<noteq> rt_status_sha256 s) RolloutStatusInvalid))))"

definition status_from_record :: "rollout_env \<Rightarrow> rollout_record \<Rightarrow> rollout_error + rollout_status" where
  "status_from_record env r =
     and_then (validate_rollout env r) (\<lambda>_.
     let v = \<lparr>rt_format_version = ro_format_version r, rt_rollout_id = ro_rollout_id r, rt_stack = ro_stack r,
              rt_phase = ro_phase r, rt_created_at = ro_created_at r, rt_updated_at = ro_updated_at r,
              rt_previous_revision = ro_previous_revision r, rt_previous_generation = ro_previous_generation r,
              rt_previous_state = ro_previous_state r,
              rt_previous_plan_sha256 = map_option pl_plan_sha256 (ro_previous_plan r),
              rt_candidate_plan_sha256 = pl_plan_sha256 (ro_candidate_plan r),
              rt_activated_revision = ro_activated_revision r, rt_activated_generation = ro_activated_generation r,
              rt_rollback_revision = ro_rollback_revision r, rt_rollback_generation = ro_rollback_generation r,
              rt_health_report_sha256 = ro_health_report_sha256 r, rt_checkpoint_sha256 = ro_record_sha256 r,
              rt_status_sha256 = []\<rparr>
     in and_then (rollout_status_sha256 env v) (\<lambda>d.
        let v' = v\<lparr>rt_status_sha256 := d\<rparr> in
        and_then (validate_rollout_status env v') (\<lambda>_. Inr v')))"

end
