(* ===== verification/Rollout_Progress.thy ===== *)
theory Rollout_Progress
  imports Rollout Rolling Ordered_Map
begin

text \<open>
  The live execution of a rollout (\<^verbatim>\<open>crates/cartridge-engine/src/rollout_progress.rs\<close>): the progress
  document with the candidate replicas it has authorised and the drains it has requested, its
  mutations, and the stack-wide scheduler on top of the scheduler of one instance (\<open>Rolling\<close>).

  A method on \<^verbatim>\<open>&mut self\<close> returns its result and the document it leaves behind, also when it fails.
\<close>

section \<open>Data\<close>

definition ENGINE_ROLLOUT_PROGRESS_FORMAT_VERSION :: nat where "ENGINE_ROLLOUT_PROGRESS_FORMAT_VERSION = 1"
definition MAX_ROLLOUT_PROGRESS_BYTES :: nat where "MAX_ROLLOUT_PROGRESS_BYTES = 1024 * 1024"
definition MAX_STACK_TOTAL_ACTIVE_REPLICAS :: nat where
  "MAX_STACK_TOTAL_ACTIVE_REPLICAS = MAX_STACK_TOTAL_REPLICAS + MAX_STACK_TOTAL_SURGE_REPLICAS"

lemmas progress_consts = ENGINE_ROLLOUT_PROGRESS_FORMAT_VERSION_def MAX_ROLLOUT_PROGRESS_BYTES_def
  MAX_STACK_TOTAL_ACTIVE_REPLICAS_def

datatype execution_phase = RollingExec | PausedExec | CompletingExec | RollingBackExec | CompletedExec | RolledBackExec

record drain_intent =
  di_requested_at :: nat
  di_deadline_at :: nat

record instance_progress =
  ip_name :: string
  ip_previous_replicas :: nat
  ip_candidate_replicas :: nat
  ip_policy :: rolling_update_policy
  ip_candidate_enabled :: "nat set"
  ip_previous_draining :: "(nat, drain_intent) btree"

record rollout_progress =
  rp_format_version :: nat
  rp_rollout_id :: string
  rp_stack :: string
  rp_phase :: execution_phase
  rp_previous_revision :: "nat option"
  rp_previous_generation :: "string option"
  rp_candidate_revision :: nat
  rp_candidate_generation :: string
  rp_started_at :: nat
  rp_updated_at :: nat
  rp_last_progress_at :: nat
  rp_action_sequence :: nat
  rp_instances :: "instance_progress list"
  rp_progress_sha256 :: string

record progress_action =
  pa_instance :: "string option"
  pa_action :: rolling_action

datatype progress_error =
    ProgressRolloutInvalid rollout_error | NotActivatedForExecution | CandidateGenerationMissing
  | CandidateRevisionMissing | TransitionPolicyMissing | ProgressNotSerializable | ProgressTooLarge
  | ProgressIdentityInvalid | InstanceProgressInvalid | InstancePolicyInvalid rolling_error
  | InstanceOrdinalsInvalid | ProgressNotSorted | PreviousCountOverflow | CandidateCountOverflow
  | SurgeTotalOverflow | AggregateLimitsExceeded | ProgressTimeBackwards | NotAcceptingActions
  | StartIntentEmpty | StartOrdinalInvalid | DrainIntentEmpty | DrainDeadlineOverflow | DrainOrdinalInvalid
  | ProgressInstanceUnknown | ActionSequenceOverflow | PhaseTransitionInvalid
  | ProgressRuntimeInvalid supervisor_error | WrongGeneration | NotAcceptingDecisions
  | UnauthorizedCandidate | ReadinessTimestampMissing | ActiveReplicaOverflow | ActiveLimitOverflow
  | StackActiveLimitExceeded | SchedulerRefused rolling_error

section \<open>Validation\<close>

definition validate_instance_progress :: "instance_progress \<Rightarrow> progress_error + unit" where
  "validate_instance_progress i =
     (let n = max (ip_previous_replicas i) (ip_candidate_replicas i) in
      and_then (fail_if (\<not> valid_name (ip_name i) \<or> n = 0 \<or> ip_previous_replicas i > MAX_STACK_REPLICAS \<or>
          ip_candidate_replicas i > MAX_STACK_REPLICAS) InstanceProgressInvalid) (\<lambda>_.
      and_then (map_err InstancePolicyInvalid (validate_policy (ip_policy i) n)) (\<lambda>_.
      fail_if (\<not> Set.Ball (ip_candidate_enabled i) (\<lambda>k. k \<noteq> 0 \<and> k \<le> ip_candidate_replicas i) \<or>
          list_ex (\<lambda>(k, d). k = 0 \<or> k > ip_previous_replicas i \<or> di_requested_at d = 0 \<or>
            di_deadline_at d < di_requested_at d) (ip_previous_draining i)) InstanceOrdinalsInvalid)))"

definition progress_sha256 :: "rollout_progress codec \<Rightarrow> rollout_progress \<Rightarrow> progress_error + string" where
  "progress_sha256 c p =
     and_then (ok_or (to_vec c (p\<lparr>rp_progress_sha256 := []\<rparr>)) ProgressNotSerializable) (\<lambda>b.
     and_then (fail_if (length b > MAX_ROLLOUT_PROGRESS_BYTES) ProgressTooLarge) (\<lambda>_.
     Inr (sha256hex c b)))"

definition progress_step ::
    "string option \<times> nat \<times> nat \<times> nat \<Rightarrow> instance_progress \<Rightarrow> progress_error + string option \<times> nat \<times> nat \<times> nat" where
  "progress_step acc i =
     (case acc of (previous_name, previous_total, candidate_total, total_surge) \<Rightarrow>
      and_then (validate_instance_progress i) (\<lambda>_.
      and_then (fail_if (case previous_name of None \<Rightarrow> False | Some n \<Rightarrow> n \<ge> ip_name i) ProgressNotSorted) (\<lambda>_.
      and_then (ok_or (checked_add 16 previous_total (ip_previous_replicas i)) PreviousCountOverflow) (\<lambda>pt.
      and_then (ok_or (checked_add 16 candidate_total (ip_candidate_replicas i)) CandidateCountOverflow) (\<lambda>ct.
      and_then (ok_or (checked_add 16 total_surge (max_surge (ip_policy i))) SurgeTotalOverflow) (\<lambda>ts.
      Inr (Some (ip_name i), pt, ct, ts)))))))"

definition validate_progress :: "rollout_progress codec \<Rightarrow> rollout_progress \<Rightarrow> progress_error + unit" where
  "validate_progress c p =
     and_then (fail_if (rp_format_version p \<noteq> ENGINE_ROLLOUT_PROGRESS_FORMAT_VERSION \<or>
         \<not> is_digest (rp_rollout_id p) \<or> \<not> valid_name (rp_stack p) \<or>
         \<not> (case (rp_previous_revision p, rp_previous_generation p) of
              (None, None) \<Rightarrow> True | (Some n, Some _) \<Rightarrow> n \<ge> 1 | _ \<Rightarrow> False) \<or>
         (case rp_previous_generation p of None \<Rightarrow> False | Some g \<Rightarrow> \<not> is_digest g) \<or>
         rp_candidate_revision p = 0 \<or> \<not> is_digest (rp_candidate_generation p) \<or> rp_started_at p = 0 \<or>
         rp_updated_at p < rp_started_at p \<or> rp_last_progress_at p < rp_started_at p \<or>
         rp_last_progress_at p > rp_updated_at p \<or> length (rp_instances p) > MAX_STACK_INSTANCES \<or>
         \<not> is_digest (rp_progress_sha256 p)) ProgressIdentityInvalid) (\<lambda>_.
     and_then (progress_sha256 c p) (\<lambda>computed.
     and_then (fail_if (computed \<noteq> rp_progress_sha256 p) ProgressIdentityInvalid) (\<lambda>_.
     and_then (try_fold progress_step (None, 0, 0, 0) (rp_instances p)) (\<lambda>(_, previous_total, candidate_total, total_surge).
     fail_if (previous_total > MAX_STACK_TOTAL_REPLICAS \<or> candidate_total > MAX_STACK_TOTAL_REPLICAS \<or>
         total_surge > MAX_STACK_TOTAL_SURGE_REPLICAS) AggregateLimitsExceeded))))"

definition refresh_progress ::
    "rollout_progress codec \<Rightarrow> rollout_progress \<Rightarrow> (progress_error + unit) \<times> rollout_progress" where
  "refresh_progress c p =
     (let cleared = p\<lparr>rp_progress_sha256 := []\<rparr> in
      case progress_sha256 c cleared of
        Inl e \<Rightarrow> (Inl e, cleared)
      | Inr d \<Rightarrow> (let sealed = cleared\<lparr>rp_progress_sha256 := d\<rparr> in (validate_progress c sealed, sealed)))"

section \<open>Construction\<close>

definition running_replicas :: "planned_instance option \<Rightarrow> nat" where
  "running_replicas i =
     (case i of None \<Rightarrow> 0 | Some v \<Rightarrow> if pi_desired v = Running then pi_replicas v else 0)"

text \<open>One turn of the loop over the instance names; \<^const>\<open>None\<close> is \<^verbatim>\<open>continue\<close>.\<close>

definition instance_transition ::
    "planned_instance list \<Rightarrow> planned_instance list \<Rightarrow> string \<Rightarrow> progress_error + instance_progress option" where
  "instance_transition previous_instances candidate_instances name =
     (let previous = find (\<lambda>i. pi_name i = name) previous_instances;
          candidate = find (\<lambda>i. pi_name i = name) candidate_instances;
          p = running_replicas previous; n = running_replicas candidate
      in if p = 0 \<and> n = 0 then Inr None
         else and_then (ok_or (or_else candidate previous) TransitionPolicyMissing) (\<lambda>i.
           Inr (Some \<lparr>ip_name = name, ip_previous_replicas = p, ip_candidate_replicas = n,
             ip_policy = pi_update i, ip_candidate_enabled = {}, ip_previous_draining = []\<rparr>)))"

definition previous_instances :: "rollout_record \<Rightarrow> planned_instance list" where
  "previous_instances r =
     (if ro_previous_state r = Some Applied
      then (case ro_previous_plan r of None \<Rightarrow> [] | Some p \<Rightarrow> pl_instances p) else [])"

definition somes :: "'a option list \<Rightarrow> 'a list" where
  "somes xs = concat (map (\<lambda>x. case x of None \<Rightarrow> [] | Some v \<Rightarrow> [v]) xs)"

definition from_rollout ::
    "rollout_env \<Rightarrow> rollout_progress codec \<Rightarrow> rollout_record \<Rightarrow> nat \<Rightarrow> progress_error + rollout_progress" where
  "from_rollout env c r now_ms =
     and_then (map_err ProgressRolloutInvalid (validate_rollout env r)) (\<lambda>_.
     and_then (fail_if (ro_phase r \<noteq> Activated \<or> now_ms = 0 \<or> now_ms < ro_updated_at r) NotActivatedForExecution) (\<lambda>_.
     and_then (ok_or (ro_activated_generation r) CandidateGenerationMissing) (\<lambda>candidate_generation.
     let previous = previous_instances r; candidate = pl_instances (ro_candidate_plan r);
         names = sorted_list_of_set (set (map pi_name previous) \<union> set (map pi_name candidate)) in
     and_then (try_map (instance_transition previous candidate) names) (\<lambda>instances.
     and_then (ok_or (ro_activated_revision r) CandidateRevisionMissing) (\<lambda>candidate_revision.
     case refresh_progress c \<lparr>rp_format_version = ENGINE_ROLLOUT_PROGRESS_FORMAT_VERSION,
         rp_rollout_id = ro_rollout_id r, rp_stack = ro_stack r, rp_phase = RollingExec,
         rp_previous_revision = ro_previous_revision r, rp_previous_generation = ro_previous_generation r,
         rp_candidate_revision = candidate_revision, rp_candidate_generation = candidate_generation,
         rp_started_at = now_ms, rp_updated_at = now_ms, rp_last_progress_at = now_ms,
         rp_action_sequence = 0, rp_instances = somes instances, rp_progress_sha256 = []\<rparr> of
       (res, p) \<Rightarrow> and_then res (\<lambda>_. Inr p))))))"

section \<open>Mutations\<close>

definition ensure_time :: "rollout_progress \<Rightarrow> nat \<Rightarrow> progress_error + unit" where
  "ensure_time p now_ms = fail_if (now_ms = 0 \<or> now_ms < rp_updated_at p) ProgressTimeBackwards"

definition ensure_mutable :: "rollout_progress \<Rightarrow> nat \<Rightarrow> progress_error + unit" where
  "ensure_mutable p now_ms =
     and_then (ensure_time p now_ms) (\<lambda>_. fail_if (rp_phase p \<noteq> RollingExec) NotAcceptingActions)"

definition instance_mut :: "rollout_progress \<Rightarrow> string \<Rightarrow> progress_error + instance_progress" where
  "instance_mut p name = ok_or (find (\<lambda>i. ip_name i = name) (rp_instances p)) ProgressInstanceUnknown"

fun update_first :: "string \<Rightarrow> (instance_progress \<Rightarrow> instance_progress) \<Rightarrow> instance_progress list \<Rightarrow> instance_progress list" where
  "update_first name f [] = []"
| "update_first name f (i # is) = (if ip_name i = name then f i # is else i # update_first name f is)"

definition mark_progress ::
    "rollout_progress codec \<Rightarrow> nat \<Rightarrow> rollout_progress \<Rightarrow> (progress_error + unit) \<times> rollout_progress" where
  "mark_progress c now_ms p =
     (case checked_add 64 (rp_action_sequence p) 1 of
        None \<Rightarrow> (Inl ActionSequenceOverflow, p)
      | Some n \<Rightarrow> refresh_progress c
          (p\<lparr>rp_action_sequence := n, rp_updated_at := now_ms, rp_last_progress_at := now_ms\<rparr>))"

definition enable_candidate ::
    "rollout_progress codec \<Rightarrow> string \<Rightarrow> nat list \<Rightarrow> nat \<Rightarrow> rollout_progress \<Rightarrow> (progress_error + unit) \<times> rollout_progress" where
  "enable_candidate c instance ordinals now_ms p =
     (case and_then (ensure_mutable p now_ms) (\<lambda>_.
           and_then (fail_if (ordinals = []) StartIntentEmpty) (\<lambda>_.
           and_then (instance_mut p instance) (\<lambda>i.
           fail_if (list_ex (\<lambda>k. k = 0 \<or> k > ip_candidate_replicas i \<or> k \<in> ip_candidate_enabled i) ordinals)
             StartOrdinalInvalid))) of
        Inl e \<Rightarrow> (Inl e, p)
      | Inr _ \<Rightarrow> mark_progress c now_ms (p\<lparr>rp_instances := update_first instance
          (\<lambda>i. i\<lparr>ip_candidate_enabled := ip_candidate_enabled i \<union> set ordinals\<rparr>) (rp_instances p)\<rparr>))"

definition request_previous_drain ::
    "rollout_progress codec \<Rightarrow> string \<Rightarrow> nat list \<Rightarrow> nat \<Rightarrow> rollout_progress \<Rightarrow> (progress_error + unit) \<times> rollout_progress" where
  "request_previous_drain c instance ordinals now_ms p =
     (case and_then (ensure_mutable p now_ms) (\<lambda>_.
           and_then (fail_if (ordinals = []) DrainIntentEmpty) (\<lambda>_.
           and_then (instance_mut p instance) (\<lambda>i.
           and_then (ok_or (checked_add 64 now_ms (drain_timeout_ms (ip_policy i))) DrainDeadlineOverflow) (\<lambda>deadline.
           and_then (fail_if (list_ex (\<lambda>k. k = 0 \<or> k > ip_previous_replicas i \<or>
               bt_get (ip_previous_draining i) k \<noteq> None) ordinals) DrainOrdinalInvalid) (\<lambda>_.
           Inr deadline))))) of
        Inl e \<Rightarrow> (Inl e, p)
      | Inr deadline \<Rightarrow> mark_progress c now_ms (p\<lparr>rp_instances := update_first instance
          (\<lambda>i. i\<lparr>ip_previous_draining := fold (\<lambda>k m. bt_insert k
             \<lparr>di_requested_at = now_ms, di_deadline_at = deadline\<rparr> m) ordinals (ip_previous_draining i)\<rparr>)
          (rp_instances p)\<rparr>))"

definition phase_transition :: "execution_phase \<Rightarrow> execution_phase \<Rightarrow> bool" where
  "phase_transition a b =
     (case a of
        RollingExec \<Rightarrow> b \<in> {PausedExec, CompletingExec, RollingBackExec}
      | PausedExec \<Rightarrow> b \<in> {RollingExec, CompletingExec, RollingBackExec}
      | CompletingExec \<Rightarrow> b \<in> {CompletedExec, RollingBackExec}
      | RollingBackExec \<Rightarrow> b = RolledBackExec
      | _ \<Rightarrow> False)"

definition set_phase ::
    "rollout_progress codec \<Rightarrow> execution_phase \<Rightarrow> nat \<Rightarrow> rollout_progress \<Rightarrow> (progress_error + unit) \<times> rollout_progress" where
  "set_phase c nxt now_ms p =
     (case and_then (ensure_time p now_ms) (\<lambda>_.
           fail_if (\<not> phase_transition (rp_phase p) nxt) PhaseTransitionInvalid) of
        Inl e \<Rightarrow> (Inl e, p)
      | Inr _ \<Rightarrow> mark_progress c now_ms (p\<lparr>rp_phase := nxt\<rparr>))"

definition progress_heartbeat ::
    "rollout_progress codec \<Rightarrow> nat \<Rightarrow> rollout_progress \<Rightarrow> (progress_error + unit) \<times> rollout_progress" where
  "progress_heartbeat c now_ms p =
     (case ensure_time p now_ms of
        Inl e \<Rightarrow> (Inl e, p)
      | Inr _ \<Rightarrow> refresh_progress c (p\<lparr>rp_updated_at := now_ms\<rparr>))"

definition validate_runtime ::
    "runtime_status codec \<Rightarrow> rollout_progress \<Rightarrow> runtime_status option \<Rightarrow> nat option \<Rightarrow> string option
      \<Rightarrow> progress_error + unit" where
  "validate_runtime sc p status revision generation =
     (case status of None \<Rightarrow> Inr () | Some s \<Rightarrow>
      and_then (map_err ProgressRuntimeInvalid (validate_status sc s)) (\<lambda>_.
      fail_if (rs_stack s \<noteq> rp_stack p \<or> Some (rs_revision s) \<noteq> revision \<or>
          Some (rs_generation s) \<noteq> generation) WrongGeneration))"

definition drained_ordinal :: "runtime_status \<Rightarrow> string \<Rightarrow> nat \<Rightarrow> bool" where
  "drained_ordinal s name ordinal =
     list_ex (\<lambda>r. rr_id r = ReplicaId name ordinal \<and> rr_phase r = StoppedPhase) (rs_replicas s)"

definition retain_undrained :: "runtime_status \<Rightarrow> instance_progress \<Rightarrow> instance_progress" where
  "retain_undrained s i =
     i\<lparr>ip_previous_draining := filter (\<lambda>(k, _). \<not> drained_ordinal s (ip_name i) k) (ip_previous_draining i)\<rparr>"

definition acknowledge_drained ::
    "rollout_progress codec \<Rightarrow> runtime_status codec \<Rightarrow> runtime_status option \<Rightarrow> nat \<Rightarrow> rollout_progress
      \<Rightarrow> (progress_error + nat) \<times> rollout_progress" where
  "acknowledge_drained c sc previous now_ms p =
     (case and_then (ensure_mutable p now_ms) (\<lambda>_.
           validate_runtime sc p previous (rp_previous_revision p) (rp_previous_generation p)) of
        Inl e \<Rightarrow> (Inl e, p)
      | Inr _ \<Rightarrow>
          (case previous of
             None \<Rightarrow> (Inr 0, p)
           | Some s \<Rightarrow>
               (let removed = sum_list (map (\<lambda>i. length (filter (\<lambda>(k, _). drained_ordinal s (ip_name i) k)
                      (ip_previous_draining i))) (rp_instances p));
                    p' = p\<lparr>rp_instances := map (retain_undrained s) (rp_instances p)\<rparr>
                in if removed > 0
                   then (case mark_progress c now_ms p' of (res, q) \<Rightarrow> (and_then res (\<lambda>_. Inr removed), q))
                   else (Inr removed, p'))))"

section \<open>The stack scheduler\<close>

definition replica_ready :: "replica_runtime \<Rightarrow> bool" where
  "replica_ready r = (case rr_probe r of None \<Rightarrow> True | Some p \<Rightarrow> pr_phase p = ProbeReady)"

definition observe_previous :: "rolling_observation \<Rightarrow> replica_runtime \<Rightarrow> rolling_observation" where
  "observe_previous ob r =
     (let k = rid_ordinal (rr_id r);
          ob1 = (if rr_phase r \<in> {Pending, Starting, RunningPhase, Backoff}
                 then ob\<lparr>previous_active := insert k (previous_active ob)\<rparr> else ob)
      in if rr_phase r = RunningPhase \<and> replica_ready r
         then ob1\<lparr>previous_ready := insert k (previous_ready ob1)\<rparr> else ob1)"

definition observe_candidate ::
    "instance_progress \<Rightarrow> nat \<Rightarrow> rolling_observation \<Rightarrow> replica_runtime \<Rightarrow> progress_error + rolling_observation" where
  "observe_candidate i now_ms ob r =
     (let k = rid_ordinal (rr_id r); enabled = k \<in> ip_candidate_enabled i in
      if \<not> enabled \<and> rr_phase r \<in> {Starting, RunningPhase, Backoff, Succeeded} then Inl UnauthorizedCandidate
      else if \<not> enabled then Inr ob
      else if rr_phase r \<in> {Failed, Exhausted, StoppedPhase} then
        Inr (ob\<lparr>candidate_active := candidate_active ob - {k},
          candidate_terminal := insert k (candidate_terminal ob)\<rparr>)
      else if rr_phase r = Succeeded then
        Inr (ob\<lparr>candidate_ready := insert k (candidate_ready ob),
          candidate_available := insert k (candidate_available ob)\<rparr>)
      else if rr_phase r = RunningPhase \<and> replica_ready r then
        and_then (ok_or (or_else (case rr_probe r of None \<Rightarrow> None | Some p \<Rightarrow> pr_ready_at p) (rr_started_at r))
          ReadinessTimestampMissing) (\<lambda>ready_at.
        let ob1 = ob\<lparr>candidate_ready := insert k (candidate_ready ob)\<rparr> in
        Inr (if now_ms - ready_at \<ge> max (min_ready_ms (ip_policy i)) ROLLOUT_STABILITY_WINDOW_MS
             then ob1\<lparr>candidate_available := insert k (candidate_available ob1)\<rparr> else ob1))
      else Inr ob)"

definition replicas_of :: "string \<Rightarrow> runtime_status option \<Rightarrow> replica_runtime list" where
  "replicas_of name s =
     (case s of None \<Rightarrow> [] | Some v \<Rightarrow> filter (\<lambda>r. rid_instance (rr_id r) = name) (rs_replicas v))"

definition instance_observation ::
    "rollout_progress \<Rightarrow> instance_progress \<Rightarrow> runtime_status option \<Rightarrow> runtime_status option \<Rightarrow> nat
      \<Rightarrow> progress_error + rolling_observation" where
  "instance_observation p i previous candidate now_ms =
     (let ob = \<lparr>previous_replicas = ip_previous_replicas i, candidate_replicas = ip_candidate_replicas i,
            previous_active = {}, previous_ready = {}, candidate_active = ip_candidate_enabled i,
            candidate_ready = {}, candidate_available = {}, candidate_terminal = {},
            elapsed_since_progress_ms = now_ms - rp_last_progress_at p\<rparr>;
          ob1 = foldl observe_previous ob (replicas_of (ip_name i) previous)
      in try_fold (observe_candidate i now_ms) ob1 (replicas_of (ip_name i) candidate))"

text \<open>\<^verbatim>\<open>sum::<u16>()\<close> wraps in a release build.\<close>

definition sum_u16 :: "nat list \<Rightarrow> nat" where
  "sum_u16 ns = foldl (wrapping_add 16) 0 ns"

definition stack_start_capacity :: "rollout_progress \<Rightarrow> rolling_observation list \<Rightarrow> progress_error + nat" where
  "stack_start_capacity p obs =
     and_then (try_fold (\<lambda>n ob.
         and_then (ok_or (checked_add 64 n (card (previous_active ob))) ActiveReplicaOverflow) (\<lambda>m.
         ok_or (checked_add 64 m (card (candidate_active ob))) ActiveReplicaOverflow)) 0 obs) (\<lambda>active.
     let previous = sum_u16 (map ip_previous_replicas (rp_instances p));
         candidate = sum_u16 (map ip_candidate_replicas (rp_instances p));
         surge = sum_u16 (map (\<lambda>i. max_surge (ip_policy i)) (rp_instances p)) in
     and_then (ok_or (checked_add 64 (max previous candidate) surge) ActiveLimitOverflow) (\<lambda>active_limit.
     and_then (fail_if (active > active_limit \<or> active_limit > MAX_STACK_TOTAL_ACTIVE_REPLICAS)
       StackActiveLimitExceeded) (\<lambda>_.
     Inr (active_limit - active))))"

abbreviation instance_wait :: "string \<Rightarrow> rolling_wait_reason \<Rightarrow> progress_action" where
  "instance_wait name reason \<equiv> \<lparr>pa_instance = Some name, pa_action = Wait reason\<rparr>"

text \<open>The loop of \<^verbatim>\<open>next_action\<close>: \<^const>\<open>Inl\<close> in the result is the early return of a rollback.\<close>

fun action_loop ::
    "nat \<Rightarrow> (instance_progress \<times> rolling_observation) list \<Rightarrow> progress_action option \<Rightarrow> progress_action option
      \<Rightarrow> progress_error + progress_action + progress_action option \<times> progress_action option" where
  "action_loop capacity [] first_action first_wait = Inr (Inr (first_action, first_wait))"
| "action_loop capacity ((i, ob) # rest) first_action first_wait =
     and_then (map_err SchedulerRefused (next_rolling ob (ip_policy i))) (\<lambda>action.
     case action of
       Complete \<Rightarrow> action_loop capacity rest first_action first_wait
     | Rollback _ \<Rightarrow> Inr (Inl \<lparr>pa_instance = Some (ip_name i), pa_action = action\<rparr>)
     | Wait _ \<Rightarrow> action_loop capacity rest first_action
         (or_else first_wait (Some \<lparr>pa_instance = Some (ip_name i), pa_action = action\<rparr>))
     | StartCandidate ordinals \<Rightarrow>
         (if take capacity ordinals = []
          then action_loop capacity rest first_action
            (or_else first_wait (Some (instance_wait (ip_name i) AvailabilityBudget)))
          else action_loop capacity rest (or_else first_action
            (Some \<lparr>pa_instance = Some (ip_name i), pa_action = StartCandidate (take capacity ordinals)\<rparr>)) first_wait)
     | DrainPrevious _ _ \<Rightarrow> action_loop capacity rest
         (or_else first_action (Some \<lparr>pa_instance = Some (ip_name i), pa_action = action\<rparr>)) first_wait)"

definition next_action ::
    "rollout_progress codec \<Rightarrow> runtime_status codec \<Rightarrow> rollout_progress \<Rightarrow> runtime_status option
      \<Rightarrow> runtime_status option \<Rightarrow> nat \<Rightarrow> progress_error + progress_action" where
  "next_action c sc p previous candidate now_ms =
     and_then (validate_progress c p) (\<lambda>_.
     and_then (ensure_time p now_ms) (\<lambda>_.
     and_then (fail_if (rp_phase p \<noteq> RollingExec) NotAcceptingDecisions) (\<lambda>_.
     and_then (validate_runtime sc p previous (rp_previous_revision p) (rp_previous_generation p)) (\<lambda>_.
     and_then (validate_runtime sc p candidate (Some (rp_candidate_revision p)) (Some (rp_candidate_generation p))) (\<lambda>_.
     if previous = None \<and> list_ex (\<lambda>i. ip_previous_replicas i > 0) (rp_instances p)
     then Inr \<lparr>pa_instance = None, pa_action = Wait AvailabilityBudget\<rparr>
     else
       let drains_pending = list_ex (\<lambda>i. ip_previous_draining i \<noteq> []) (rp_instances p) in
       and_then (try_map (\<lambda>i. instance_observation p i previous candidate now_ms) (rp_instances p)) (\<lambda>obs.
       and_then (stack_start_capacity p obs) (\<lambda>capacity.
       and_then (action_loop capacity (zip (rp_instances p) obs) None None) (\<lambda>res.
       case res of
         Inl early \<Rightarrow> Inr early
       | Inr (first_action, first_wait) \<Rightarrow>
           if drains_pending then Inr \<lparr>pa_instance = None, pa_action = Wait AvailabilityBudget\<rparr>
           else Inr (case or_else first_action first_wait of
               Some a \<Rightarrow> a | None \<Rightarrow> \<lparr>pa_instance = None, pa_action = Complete\<rparr>)))))))))"

section \<open>Accepted documents\<close>

interpretation progress_seal: sealed_document rp_progress_sha256 "\<lambda>d p. p\<lparr>rp_progress_sha256 := d\<rparr>" "progress_sha256 c" for c
  by unfold_locales (simp_all add: progress_sha256_def)

text \<open>Two states of an instance with the same shape, the later one still acceptable.\<close>

definition instance_moved :: "instance_progress \<Rightarrow> instance_progress \<Rightarrow> bool" where
  "instance_moved i j \<longleftrightarrow> ip_name j = ip_name i \<and> ip_previous_replicas j = ip_previous_replicas i \<and>
     ip_candidate_replicas j = ip_candidate_replicas i \<and> ip_policy j = ip_policy i \<and>
     (validate_instance_progress i = Inr () \<longrightarrow> validate_instance_progress j = Inr ())"

lemma instance_moved_refl [simp]: "instance_moved i i"
  by (simp add: instance_moved_def)

lemma progress_step_moved:
  assumes "instance_moved i j" and "progress_step acc i = Inr r"
  shows "progress_step acc j = Inr r"
  using assms by (cases acc) (auto simp: progress_step_def instance_moved_def and_then_Inr split: option.splits)

lemma progress_fold_moved:
  assumes "list_all2 instance_moved xs js" and "try_fold progress_step acc xs = Inr r"
  shows "try_fold progress_step acc js = Inr r"
  using assms
proof (induction arbitrary: acc rule: list_all2_induct)
  case Nil
  then show ?case by simp
next
  case (Cons i xs j js)
  then obtain acc' where "progress_step acc i = Inr acc'" "try_fold progress_step acc' xs = Inr r"
    by (auto simp: and_then_Inr)
  with Cons show ?case by (simp add: progress_step_moved)
qed

lemma progress_fold_Inr:
  assumes "try_fold progress_step (nm, a, b, s) xs = Inr (nm', a', b', s')"
  shows "(\<forall>i \<in> set xs. validate_instance_progress i = Inr ()) \<and> sorted_wrt (<) (map ip_name xs) \<and>
    (\<forall>n. nm = Some n \<longrightarrow> (\<forall>i \<in> set xs. n < ip_name i)) \<and>
    a' = a + sum_list (map ip_previous_replicas xs) \<and> b' = b + sum_list (map ip_candidate_replicas xs) \<and>
    s' = s + sum_list (map (\<lambda>i. max_surge (ip_policy i)) xs)"
  using assms
proof (induction xs arbitrary: nm a b s)
  case Nil
  then show ?case by simp
next
  case (Cons i xs)
  obtain acc where st0: "progress_step (nm, a, b, s) i = Inr acc"
    and rest0: "try_fold progress_step acc xs = Inr (nm', a', b', s')"
    using Cons.prems by (auto simp: and_then_Inr)
  obtain nm1 a1 b1 s1 where acc: "acc = (nm1, a1, b1, s1)" by (cases acc)
  have nm1: "nm1 = Some (ip_name i)" using st0 unfolding acc by (auto simp: progress_step_def and_then_Inr)
  note st = st0 [unfolded acc nm1] and rest = rest0 [unfolded acc nm1]
  have one: "validate_instance_progress i = Inr ()" "\<forall>n. nm = Some n \<longrightarrow> n < ip_name i"
    "a1 = a + ip_previous_replicas i" "b1 = b + ip_candidate_replicas i" "s1 = s + max_surge (ip_policy i)"
    using st by (auto simp: progress_step_def and_then_Inr split: option.splits)
  from Cons.IH [OF rest] one show ?case by (auto dest: less_trans)
qed

definition progress_identity_ok :: "rollout_progress \<Rightarrow> bool" where
  "progress_identity_ok p \<longleftrightarrow> rp_format_version p = ENGINE_ROLLOUT_PROGRESS_FORMAT_VERSION \<and>
     is_digest (rp_rollout_id p) \<and> valid_name (rp_stack p) \<and>
     (case (rp_previous_revision p, rp_previous_generation p) of
        (None, None) \<Rightarrow> True | (Some n, Some g) \<Rightarrow> n \<ge> 1 \<and> is_digest g | _ \<Rightarrow> False) \<and>
     rp_candidate_revision p \<noteq> 0 \<and> is_digest (rp_candidate_generation p) \<and> rp_started_at p \<noteq> 0 \<and>
     rp_started_at p \<le> rp_last_progress_at p \<and> rp_last_progress_at p \<le> rp_updated_at p \<and>
     length (rp_instances p) \<le> MAX_STACK_INSTANCES"

lemma validate_progress_iff:
  "validate_progress c p = Inr () \<longleftrightarrow> progress_identity_ok p \<and> is_digest (rp_progress_sha256 p) \<and>
     progress_sha256 c p = Inr (rp_progress_sha256 p) \<and>
     (\<exists>nm a b s. try_fold progress_step (None, 0, 0, 0) (rp_instances p) = Inr (nm, a, b, s) \<and>
       a \<le> MAX_STACK_TOTAL_REPLICAS \<and> b \<le> MAX_STACK_TOTAL_REPLICAS \<and> s \<le> MAX_STACK_TOTAL_SURGE_REPLICAS)"
  unfolding validate_progress_def progress_identity_ok_def and_then_Inr
  by (auto simp: not_less not_le split: option.splits)

lemma refresh_progress_accepts:
  assumes "codec_ok c" and "progress_identity_ok p"
    and "try_fold progress_step (None, 0, 0, 0) (rp_instances p) = Inr (nm, a, b, s)"
    and "a \<le> MAX_STACK_TOTAL_REPLICAS" "b \<le> MAX_STACK_TOTAL_REPLICAS" "s \<le> MAX_STACK_TOTAL_SURGE_REPLICAS"
  shows "case refresh_progress c p of
      (Inr _, q) \<Rightarrow> (\<exists>d. q = p\<lparr>rp_progress_sha256 := d\<rparr>) \<and> validate_progress c q = Inr ()
    | (Inl e, _) \<Rightarrow> e = ProgressTooLarge"
proof (cases "progress_sha256 c p")
  case (Inl e)
  obtain v where "to_vec c (p\<lparr>rp_progress_sha256 := []\<rparr>) = Some v"
    using assms(1) by (auto simp: codec_ok_def)
  with Inl have "e = ProgressTooLarge" by (auto simp: progress_sha256_def and_then_Inl)
  with Inl show ?thesis by (simp add: refresh_progress_def Let_def progress_seal.compute_with)
next
  case (Inr d)
  then have d: "is_digest d" using assms(1) by (auto simp: progress_sha256_def codec_ok_def and_then_Inr)
  have "validate_progress c (p\<lparr>rp_progress_sha256 := d\<rparr>) = Inr ()"
    unfolding validate_progress_iff
    using assms(2-) d Inr by (simp add: progress_identity_ok_def progress_seal.compute_with)
  with Inr show ?thesis by (auto simp: refresh_progress_def Let_def progress_seal.compute_with)
qed

text \<open>What every mutation comes down to.\<close>

lemma mark_progress_accepts:
  assumes "codec_ok c" and "validate_progress c p = Inr ()" and "list_all2 instance_moved (rp_instances p) js"
    and "rp_updated_at p \<le> now_ms"
  shows "case mark_progress c now_ms (p\<lparr>rp_phase := ph, rp_instances := js\<rparr>) of
      (Inr _, q) \<Rightarrow> validate_progress c q = Inr () \<and> rp_instances q = js \<and> rp_phase q = ph \<and>
        rp_updated_at q = now_ms \<and> rp_action_sequence q = rp_action_sequence p + 1 \<and>
        rp_rollout_id q = rp_rollout_id p \<and> rp_stack q = rp_stack p
    | (Inl e, _) \<Rightarrow> e \<in> {ActionSequenceOverflow, ProgressTooLarge}"
proof (cases "checked_add 64 (rp_action_sequence p) 1")
  case None
  then show ?thesis by (simp add: mark_progress_def del: One_nat_def checked_add_None)
next
  case (Some n)
  let ?p = "p\<lparr>rp_phase := ph, rp_instances := js, rp_action_sequence := n, rp_updated_at := now_ms,
    rp_last_progress_at := now_ms\<rparr>"
  obtain nm a b s where f: "try_fold progress_step (None, 0, 0, 0) (rp_instances p) = Inr (nm, a, b, s)"
    and l: "a \<le> MAX_STACK_TOTAL_REPLICAS" "b \<le> MAX_STACK_TOTAL_REPLICAS" "s \<le> MAX_STACK_TOTAL_SURGE_REPLICAS"
    and ok: "progress_identity_ok p"
    using assms(2) unfolding validate_progress_iff by blast
  have "length js = length (rp_instances p)" using assms(3) by (simp add: list_all2_lengthD)
  then have "progress_identity_ok ?p"
    using ok assms(4) by (auto simp: progress_identity_ok_def split: option.splits)
  moreover have "try_fold progress_step (None, 0, 0, 0) (rp_instances ?p) = Inr (nm, a, b, s)"
    using progress_fold_moved [OF assms(3) f] by simp
  ultimately have *: "case refresh_progress c ?p of
      (Inr _, q) \<Rightarrow> (\<exists>d. q = ?p\<lparr>rp_progress_sha256 := d\<rparr>) \<and> validate_progress c q = Inr ()
    | (Inl e, _) \<Rightarrow> e = ProgressTooLarge"
    by (rule refresh_progress_accepts [OF assms(1) _ _ l])
  have n: "n = rp_action_sequence p + 1" using Some by (simp add: checked_add_def split: if_splits)
  have m: "mark_progress c now_ms (p\<lparr>rp_phase := ph, rp_instances := js\<rparr>) = refresh_progress c ?p"
    using Some by (simp add: mark_progress_def del: One_nat_def checked_add_Some)
  show ?thesis unfolding m using * n by (auto split: prod.splits sum.splits)
qed

section \<open>What the scheduler sees\<close>

definition live_previous :: "replica_runtime \<Rightarrow> bool" where
  "live_previous r \<longleftrightarrow> rr_phase r \<in> {Pending, Starting, RunningPhase, Backoff}"

definition live_ordinals :: "string \<Rightarrow> runtime_status option \<Rightarrow> nat set" where
  "live_ordinals name s = {rid_ordinal (rr_id r) | r. r \<in> set (replicas_of name s) \<and> live_previous r}"

lemma observe_previous_simps [simp]:
  "previous_active (observe_previous ob r) =
     previous_active ob \<union> (if live_previous r then {rid_ordinal (rr_id r)} else {})"
  "candidate_active (observe_previous ob r) = candidate_active ob"
  "candidate_terminal (observe_previous ob r) = candidate_terminal ob"
  "previous_replicas (observe_previous ob r) = previous_replicas ob"
  "candidate_replicas (observe_previous ob r) = candidate_replicas ob"
  by (auto simp: observe_previous_def Let_def live_previous_def)

lemma observe_previous_fold:
  "previous_active (foldl observe_previous ob rs) =
     previous_active ob \<union> {rid_ordinal (rr_id r) | r. r \<in> set rs \<and> live_previous r}"
  "candidate_active (foldl observe_previous ob rs) = candidate_active ob"
  "candidate_terminal (foldl observe_previous ob rs) = candidate_terminal ob"
  "previous_replicas (foldl observe_previous ob rs) = previous_replicas ob"
  "candidate_replicas (foldl observe_previous ob rs) = candidate_replicas ob"
  by (induction rs arbitrary: ob) auto

lemma observe_candidate_keeps:
  assumes "observe_candidate i now_ms ob r = Inr ob'"
  shows "previous_active ob' = previous_active ob \<and> previous_replicas ob' = previous_replicas ob \<and>
    candidate_replicas ob' = candidate_replicas ob \<and> candidate_terminal ob \<subseteq> candidate_terminal ob' \<and>
    (candidate_terminal ob' = {} \<longrightarrow> candidate_active ob' = candidate_active ob)"
  using assms by (auto simp: observe_candidate_def Let_def and_then_Inr split: if_splits)

lemma observe_candidates_keep:
  assumes "try_fold (observe_candidate i now_ms) ob rs = Inr ob'"
  shows "previous_active ob' = previous_active ob \<and> previous_replicas ob' = previous_replicas ob \<and>
    candidate_replicas ob' = candidate_replicas ob \<and> candidate_terminal ob \<subseteq> candidate_terminal ob' \<and>
    (candidate_terminal ob' = {} \<longrightarrow> candidate_active ob' = candidate_active ob)"
  using assms
proof (induction rs arbitrary: ob)
  case Nil
  then show ?case by simp
next
  case (Cons r rs)
  then obtain ob1 where "observe_candidate i now_ms ob r = Inr ob1"
    and "try_fold (observe_candidate i now_ms) ob1 rs = Inr ob'" by (auto simp: and_then_Inr)
  with Cons.IH [of ob1] observe_candidate_keeps [of i now_ms ob r ob1] show ?case by auto
qed

lemma instance_observation_Inr:
  assumes "instance_observation p i previous candidate now_ms = Inr ob"
  shows "previous_active ob = live_ordinals (ip_name i) previous"
    "previous_replicas ob = ip_previous_replicas i" "candidate_replicas ob = ip_candidate_replicas i"
    "candidate_terminal ob = {} \<Longrightarrow> candidate_active ob = ip_candidate_enabled i"
  using observe_candidates_keep [OF assms [unfolded instance_observation_def Let_def]]
  by (simp_all add: observe_previous_fold live_ordinals_def)

text \<open>An action the loop selects comes from one instance; reaching the end of the loop means that no
  candidate has failed.\<close>

definition loop_action :: "nat \<Rightarrow> instance_progress \<Rightarrow> rolling_observation \<Rightarrow> progress_action \<Rightarrow> bool" where
  "loop_action capacity i ob a \<longleftrightarrow> pa_instance a = Some (ip_name i) \<and>
     ((\<exists>ks. next_rolling ob (ip_policy i) = Inr (StartCandidate ks) \<and> take capacity ks \<noteq> [] \<and>
         pa_action a = StartCandidate (take capacity ks)) \<or>
      (\<exists>ks t. next_rolling ob (ip_policy i) = Inr (DrainPrevious ks t) \<and> pa_action a = DrainPrevious ks t))"

lemma next_rolling_not_Rollback:
  assumes "next_rolling ob pol = Inr a" and "\<forall>x. a \<noteq> Rollback x"
  shows "candidate_terminal ob = {}" "validate_observation ob pol = Inr ()"
  using assms by (auto simp: next_rolling_def and_then_Inr split: if_splits)

lemma action_loop_Inr:
  assumes "action_loop capacity zs fa fw = Inr (Inr (fa', fw'))"
  shows "(\<forall>(i, ob) \<in> set zs. candidate_terminal ob = {}) \<and>
    (\<forall>a. fa' = Some a \<longrightarrow> fa = Some a \<or> (\<exists>(i, ob) \<in> set zs. loop_action capacity i ob a)) \<and>
    (\<forall>a. fw' = Some a \<longrightarrow> fw = Some a \<or> (\<exists>x. pa_action a = Wait x))"
  using assms
proof (induction zs arbitrary: fa fw)
  case Nil
  then show ?case by simp
next
  case (Cons z zs)
  obtain i ob where z: "z = (i, ob)" by (cases z)
  obtain act where act: "next_rolling ob (ip_policy i) = Inr act"
    using Cons.prems unfolding z by (auto simp: and_then_Inr)
  have nr: "\<forall>x. act \<noteq> Rollback x" using Cons.prems unfolding z by (auto simp: act)
  note tm = next_rolling_not_Rollback(1) [OF act nr]
  obtain fa1 fw1 where rest: "action_loop capacity zs fa1 fw1 = Inr (Inr (fa', fw'))"
    and fa1: "fa1 = fa \<or> (fa = None \<and> (\<exists>a. fa1 = Some a \<and> loop_action capacity i ob a))"
    and fw1: "fw1 = fw \<or> (fw = None \<and> (\<exists>a x. fw1 = Some a \<and> pa_action a = Wait x))"
  proof (cases act)
    case (StartCandidate ks)
    show thesis
    proof (cases "take capacity ks = []")
      case True
      then show thesis using Cons.prems act StartCandidate that [of fa "or_else fw (Some (instance_wait (ip_name i) AvailabilityBudget))"]
        unfolding z by (cases fw) (auto simp: or_else_def)
    next
      case False
      then show thesis using Cons.prems act StartCandidate
          that [of "or_else fa (Some \<lparr>pa_instance = Some (ip_name i), pa_action = StartCandidate (take capacity ks)\<rparr>)" fw]
        unfolding z by (cases fa) (auto simp: or_else_def loop_action_def)
    qed
  next
    case (DrainPrevious ks t)
    then show thesis using Cons.prems act
        that [of "or_else fa (Some \<lparr>pa_instance = Some (ip_name i), pa_action = act\<rparr>)" fw]
      unfolding z by (cases fa) (auto simp: or_else_def loop_action_def)
  next
    case (Wait x)
    then show thesis using Cons.prems act
        that [of fa "or_else fw (Some \<lparr>pa_instance = Some (ip_name i), pa_action = act\<rparr>)"]
      unfolding z by (cases fw) (auto simp: or_else_def)
  next
    case Complete
    then show thesis using Cons.prems act that [of fa fw] unfolding z by simp
  next
    case (Rollback x)
    with nr show thesis by simp
  qed
  from Cons.IH [OF rest] fa1 fw1 tm show ?case unfolding z by fastforce
qed

section \<open>Stack-wide budgets\<close>

lemma sum_u16_exact: "sum_list ns < 2 ^ 16 \<Longrightarrow> sum_u16 ns = sum_list ns"
proof -
  have "foldl (wrapping_add 16) a ns = a + sum_list ns" if "a + sum_list ns < 2 ^ 16" for a
    using that
  proof (induction ns arbitrary: a)
    case Nil
    then show ?case by simp
  next
    case (Cons n ns)
    then show ?case by (simp add: wrapping_add_def add.assoc)
  qed
  from this [of 0] show "sum_list ns < 2 ^ 16 \<Longrightarrow> sum_u16 ns = sum_list ns" by (simp add: sum_u16_def)
qed

definition previous_total :: "rollout_progress \<Rightarrow> nat" where
  "previous_total p = sum_list (map ip_previous_replicas (rp_instances p))"

definition candidate_total :: "rollout_progress \<Rightarrow> nat" where
  "candidate_total p = sum_list (map ip_candidate_replicas (rp_instances p))"

definition surge_total :: "rollout_progress \<Rightarrow> nat" where
  "surge_total p = sum_list (map (\<lambda>i. max_surge (ip_policy i)) (rp_instances p))"

lemmas total_defs = previous_total_def candidate_total_def surge_total_def

lemma validate_progress_totals:
  assumes "validate_progress c p = Inr ()"
  shows "previous_total p \<le> 256" "candidate_total p \<le> 256" "surge_total p \<le> 64"
    "\<forall>i \<in> set (rp_instances p). validate_instance_progress i = Inr ()" "sorted_wrt (<) (map ip_name (rp_instances p))"
proof -
  obtain nm a b s where f: "try_fold progress_step (None, 0, 0, 0) (rp_instances p) = Inr (nm, a, b, s)"
    and l: "a \<le> MAX_STACK_TOTAL_REPLICAS" "b \<le> MAX_STACK_TOTAL_REPLICAS" "s \<le> MAX_STACK_TOTAL_SURGE_REPLICAS"
    using assms unfolding validate_progress_iff by blast
  note r = progress_fold_Inr [OF f]
  show "previous_total p \<le> 256" "candidate_total p \<le> 256" "surge_total p \<le> 64"
    using r l by (simp_all add: total_defs plan_consts)
  show "\<forall>i \<in> set (rp_instances p). validate_instance_progress i = Inr ()"
    "sorted_wrt (<) (map ip_name (rp_instances p))" using r by blast+
qed

definition observed_active :: "rolling_observation list \<Rightarrow> nat" where
  "observed_active obs = sum_list (map (\<lambda>ob. card (previous_active ob) + card (candidate_active ob)) obs)"

lemma active_fold_Inr:
  assumes "try_fold (\<lambda>n ob.
      and_then (ok_or (checked_add 64 n (card (previous_active ob))) ActiveReplicaOverflow) (\<lambda>m.
      ok_or (checked_add 64 m (card (candidate_active ob))) ActiveReplicaOverflow)) n obs = Inr m"
  shows "m = n + observed_active obs"
  using assms
proof (induction obs arbitrary: n)
  case Nil
  then show ?case by (simp add: observed_active_def)
next
  case (Cons ob obs)
  then obtain k where k: "k = n + card (previous_active ob) + card (candidate_active ob)"
    and r: "try_fold (\<lambda>n ob.
      and_then (ok_or (checked_add 64 n (card (previous_active ob))) ActiveReplicaOverflow) (\<lambda>m.
      ok_or (checked_add 64 m (card (candidate_active ob))) ActiveReplicaOverflow)) k obs = Inr m"
    by (auto simp: and_then_Inr)
  from Cons.IH [OF r] k show ?case by (simp add: observed_active_def)
qed

lemma stack_start_capacity_Inr:
  assumes "validate_progress c p = Inr ()" and "stack_start_capacity p obs = Inr capacity"
  shows "observed_active obs + capacity = max (previous_total p) (candidate_total p) + surge_total p"
proof -
  note t = validate_progress_totals [OF assms(1)]
  have u: "sum_u16 (map ip_previous_replicas (rp_instances p)) = previous_total p"
    "sum_u16 (map ip_candidate_replicas (rp_instances p)) = candidate_total p"
    "sum_u16 (map (\<lambda>i. max_surge (ip_policy i)) (rp_instances p)) = surge_total p"
    using t(1-3) sum_u16_exact unfolding total_defs by auto
  obtain active where a: "active = observed_active obs" "active \<le> max (previous_total p) (candidate_total p) + surge_total p"
    "capacity = max (previous_total p) (candidate_total p) + surge_total p - active"
    using assms(2) unfolding stack_start_capacity_def Let_def u
    by (auto simp: and_then_Inr dest!: active_fold_Inr)
  then show ?thesis by simp
qed

lemma action_loop_early:
  assumes "action_loop capacity zs fa fw = Inr (Inl e)"
  shows "\<exists>x. pa_action e = Rollback x"
  using assms
proof (induction zs arbitrary: fa fw)
  case Nil
  then show ?case by simp
next
  case (Cons z zs)
  obtain i ob where z: "z = (i, ob)" by (cases z)
  obtain act where act: "next_rolling ob (ip_policy i) = Inr act"
    using Cons.prems unfolding z by (auto simp: and_then_Inr)
  show ?case
  proof (cases act)
    case (StartCandidate ks)
    then show ?thesis using Cons act unfolding z by (cases "take capacity ks = []") simp_all
  next
    case (Rollback x)
    then show ?thesis using Cons.prems act unfolding z by auto
  qed (use Cons act in \<open>simp_all add: z\<close>)
qed

text \<open>Where a start or a drain that \<^verbatim>\<open>next_action\<close> returns comes from.\<close>

lemma next_action_selected:
  assumes "next_action c sc p previous candidate now_ms = Inr a"
    and "(\<exists>ks. pa_action a = StartCandidate ks) \<or> (\<exists>ks t. pa_action a = DrainPrevious ks t)"
  obtains obs capacity i ob where "validate_progress c p = Inr ()" "ensure_mutable p now_ms = Inr ()"
    "\<forall>j \<in> set (rp_instances p). ip_previous_draining j = []"
    "list_all2 (\<lambda>j ob. instance_observation p j previous candidate now_ms = Inr ob) (rp_instances p) obs"
    "stack_start_capacity p obs = Inr capacity" "\<forall>ob \<in> set obs. candidate_terminal ob = {}"
    "(i, ob) \<in> set (zip (rp_instances p) obs)" "loop_action capacity i ob a"
proof -
  have g: "validate_progress c p = Inr ()" "ensure_mutable p now_ms = Inr ()"
    using assms(1) by (auto simp: next_action_def and_then_Inr ensure_mutable_def)
  obtain obs capacity res where o: "try_map (\<lambda>i. instance_observation p i previous candidate now_ms) (rp_instances p) = Inr obs"
    "stack_start_capacity p obs = Inr capacity"
    "action_loop capacity (zip (rp_instances p) obs) None None = Inr res"
    and r: "(case res of Inl early \<Rightarrow> Inr early
       | Inr (first_action, first_wait) \<Rightarrow>
           if list_ex (\<lambda>i. ip_previous_draining i \<noteq> []) (rp_instances p)
           then Inr \<lparr>pa_instance = None, pa_action = Wait AvailabilityBudget\<rparr>
           else Inr (case or_else first_action first_wait of
               Some a \<Rightarrow> a | None \<Rightarrow> \<lparr>pa_instance = None, pa_action = Complete\<rparr>)) = (Inr a :: progress_error + progress_action)"
    using assms by (auto simp: next_action_def and_then_Inr Let_def split: if_splits)
  obtain fa fw where res: "res = Inr (fa, fw)"
    using r o(3) assms(2) action_loop_early by (cases res) fastforce+
  note l = action_loop_Inr [OF o(3) [unfolded res]]
  have nd: "\<forall>j \<in> set (rp_instances p). ip_previous_draining j = []"
    using r assms(2) unfolding res by (auto simp: list_ex_iff split: if_splits)
  have a: "(case or_else fa fw of Some a \<Rightarrow> a | None \<Rightarrow> \<lparr>pa_instance = None, pa_action = Complete\<rparr>) = a"
    using r nd unfolding res by (auto simp: list_ex_iff split: if_splits)
  have "fa = Some a" using a l assms(2) by (cases fa; cases fw) (auto simp: or_else_def)
  then obtain i ob where io: "(i, ob) \<in> set (zip (rp_instances p) obs)" "loop_action capacity i ob a" using l by auto
  have o1: "list_all2 (\<lambda>j ob. instance_observation p j previous candidate now_ms = Inr ob) (rp_instances p) obs"
    using o(1) by (simp add: try_map_Inr)
  have "\<forall>ob \<in> set obs. candidate_terminal ob = {}"
    using conjunct1 [OF l] list_all2_lengthD [OF o1] by (fastforce simp: set_zip in_set_conv_nth)
  from that [OF g nd o1 o(2) this io] show thesis .
qed

text \<open>C36: the stack-wide start budget.  When the scheduler starts candidate replicas, then the live
  replicas of the previous generation, the candidates authorised so far and the new ones together
  number at most the larger of the two generations plus the surge of all instances, which is at most
  320, and no drain is outstanding.\<close>

theorem stack_start_bounded:
  assumes "next_action c sc p previous candidate now_ms =
    Inr \<lparr>pa_instance = Some name, pa_action = StartCandidate ordinals\<rparr>"
  shows "sum_list (map (\<lambda>i. card (live_ordinals (ip_name i) previous) + card (ip_candidate_enabled i)) (rp_instances p))
      + length ordinals \<le> max (previous_total p) (candidate_total p) + surge_total p \<and>
    max (previous_total p) (candidate_total p) + surge_total p \<le> 320 \<and>
    (\<forall>i \<in> set (rp_instances p). ip_previous_draining i = [])"
proof -
  let ?a = "\<lparr>pa_instance = Some name, pa_action = StartCandidate ordinals\<rparr>"
  obtain obs capacity i ob where o: "validate_progress c p = Inr ()"
    "\<forall>j \<in> set (rp_instances p). ip_previous_draining j = []"
    "list_all2 (\<lambda>j ob. instance_observation p j previous candidate now_ms = Inr ob) (rp_instances p) obs"
    "stack_start_capacity p obs = Inr capacity" "\<forall>ob \<in> set obs. candidate_terminal ob = {}"
    "loop_action capacity i ob ?a"
    by (rule next_action_selected [OF assms]) auto
  have "length ordinals \<le> capacity" using o(6) by (auto simp: loop_action_def)
  moreover have "map (\<lambda>i. card (live_ordinals (ip_name i) previous) + card (ip_candidate_enabled i)) (rp_instances p) =
      map (\<lambda>ob. card (previous_active ob) + card (candidate_active ob)) obs"
    using o(3,5)
  proof (induction rule: list_all2_induct)
    case (Cons j js b bs)
    then show ?case using instance_observation_Inr(1,4) [OF Cons.hyps(1)] by simp
  qed simp
  ultimately show ?thesis
    using stack_start_capacity_Inr [OF o(1,4)] validate_progress_totals(1-3) [OF o(1)] o(2)
    by (simp add: observed_active_def)
qed

section \<open>Decisions are accepted\<close>

lemma update_first_moved:
  assumes "find (\<lambda>i. ip_name i = name) xs = Some i" and "instance_moved i (f i)"
  shows "list_all2 instance_moved xs (update_first name f xs)"
  using assms by (induction xs) (auto simp: list_all2_same split: if_splits)

lemma find_named:
  assumes "sorted_wrt (<) (map ip_name xs)" and "i \<in> set xs"
  shows "find (\<lambda>j. ip_name j = ip_name i) xs = Some i"
  using assms by (induction xs) auto

lemma validate_instance_Inr:
  "validate_instance_progress i = Inr () \<longleftrightarrow> valid_name (ip_name i) \<and>
     max (ip_previous_replicas i) (ip_candidate_replicas i) \<noteq> 0 \<and> ip_previous_replicas i \<le> MAX_STACK_REPLICAS \<and>
     ip_candidate_replicas i \<le> MAX_STACK_REPLICAS \<and>
     validate_policy (ip_policy i) (max (ip_previous_replicas i) (ip_candidate_replicas i)) = Inr () \<and>
     (\<forall>k \<in> ip_candidate_enabled i. k \<noteq> 0 \<and> k \<le> ip_candidate_replicas i) \<and>
     (\<forall>(k, d) \<in> set (ip_previous_draining i). k \<noteq> 0 \<and> k \<le> ip_previous_replicas i \<and>
       di_requested_at d \<noteq> 0 \<and> di_requested_at d \<le> di_deadline_at d)"
  unfolding validate_instance_progress_def Let_def and_then_Inr
  by (auto simp: list_ex_iff not_less not_le)

lemma bt_insert_all_entries:
  "(k, v) \<in> set (fold (\<lambda>k m. bt_insert k d m) ks m) \<Longrightarrow> k \<in> set ks \<and> v = d \<or> (k, v) \<in> set m"
  by (induction ks arbitrary: m) (auto dest: bt_insert_entries)

text \<open>The instance a selected action is for, with what the action says about it.\<close>

lemma selected_instance:
  assumes "next_action c sc p previous candidate now_ms = Inr a"
    and "(\<exists>ks. pa_action a = StartCandidate ks) \<or> (\<exists>ks t. pa_action a = DrainPrevious ks t)"
  obtains i where "find (\<lambda>j. ip_name j = ip_name i) (rp_instances p) = Some i" "pa_instance a = Some (ip_name i)"
    "validate_instance_progress i = Inr ()" "ip_previous_draining i = []"
    "\<And>ks. pa_action a = StartCandidate ks \<Longrightarrow>
       ks \<noteq> [] \<and> set ks \<subseteq> {1 .. ip_candidate_replicas i} - ip_candidate_enabled i"
    "\<And>ks t. pa_action a = DrainPrevious ks t \<Longrightarrow> ks \<noteq> [] \<and> set ks \<subseteq> {1 .. ip_previous_replicas i}"
proof -
  obtain obs capacity i ob where o: "validate_progress c p = Inr ()"
    "\<forall>j \<in> set (rp_instances p). ip_previous_draining j = []"
    "list_all2 (\<lambda>j ob. instance_observation p j previous candidate now_ms = Inr ob) (rp_instances p) obs"
    "\<forall>ob \<in> set obs. candidate_terminal ob = {}" "(i, ob) \<in> set (zip (rp_instances p) obs)" "loop_action capacity i ob a"
    by (rule next_action_selected [OF assms])
  note t = validate_progress_totals(4,5) [OF o(1)]
  have i: "i \<in> set (rp_instances p)" "ob \<in> set obs" using o(5) by (auto dest: set_zip_leftD set_zip_rightD)
  have ob: "instance_observation p i previous candidate now_ms = Inr ob"
    using o(3,5) by (auto simp: list_all2_iff)
  note seen = instance_observation_Inr [OF ob]
  have act: "candidate_active ob = ip_candidate_enabled i" using seen(4) o(4) i(2) by blast
  show thesis
  proof (rule that [of i])
    show "find (\<lambda>j. ip_name j = ip_name i) (rp_instances p) = Some i" by (rule find_named [OF t(2) i(1)])
    show "pa_instance a = Some (ip_name i)" using o(6) by (simp add: loop_action_def)
    show "validate_instance_progress i = Inr ()" "ip_previous_draining i = []" using t(1) o(2) i(1) by blast+
    show "ks \<noteq> [] \<and> set ks \<subseteq> {1 .. ip_candidate_replicas i} - ip_candidate_enabled i"
      if st: "pa_action a = StartCandidate ks" for ks
    proof -
      obtain ks0 where k: "next_rolling ob (ip_policy i) = Inr (StartCandidate ks0)" "ks = take capacity ks0" "ks \<noteq> []"
        using o(6) st by (auto simp: loop_action_def)
      have "set ks0 \<subseteq> {1 .. candidate_replicas ob} - candidate_active ob"
        by (rule start_action_Some [OF next_rolling_Start(2) [OF k(1)]]) auto
      then show ?thesis using k seen(3) act set_take_subset [of capacity ks0] by auto
    qed
    show "ks \<noteq> [] \<and> set ks \<subseteq> {1 .. ip_previous_replicas i}" if "pa_action a = DrainPrevious ks t" for ks t
    proof -
      have k: "next_rolling ob (ip_policy i) = Inr (DrainPrevious ks t)" using o(6) that by (auto simp: loop_action_def)
      have "ks \<noteq> [] \<and> set ks \<subseteq> previous_active ob"
        by (rule drain_action_Some [OF next_rolling_Drain [OF k]]) auto
      then show ?thesis using next_rolling_Drain(1) [OF k] seen(2) by (auto simp: validate_observation_Inr)
    qed
  qed
qed

definition accepted_update :: "rollout_progress codec \<Rightarrow> instance_progress list \<Rightarrow> (progress_error + unit) \<times> rollout_progress \<Rightarrow> bool" where
  "accepted_update c js res \<longleftrightarrow>
     (case res of
        (Inr _, q) \<Rightarrow> validate_progress c q = Inr () \<and> rp_instances q = js
      | (Inl e, _) \<Rightarrow> e = ActionSequenceOverflow \<or> e = ProgressTooLarge)"

lemma mark_accepted:
  assumes "codec_ok c" and "validate_progress c p = Inr ()" and "list_all2 instance_moved (rp_instances p) js"
    and "ensure_mutable p now_ms = Inr ()"
  shows "accepted_update c js (mark_progress c now_ms (p\<lparr>rp_instances := js\<rparr>))"
proof -
  have "rp_updated_at p \<le> now_ms" using assms(4) by (auto simp: ensure_mutable_def ensure_time_def and_then_Inr)
  from mark_progress_accepts [OF assms(1-3) this, of "rp_phase p"] show ?thesis
    by (auto simp: accepted_update_def split: prod.splits sum.splits)
qed

text \<open>C37: the document accepts what its scheduler decides.  Recording a start or a drain the scheduler
  returned, at the time of the decision, never meets one of the guards: it yields an acceptable
  document with exactly that intent added, unless the action counter or the byte limit of the document
  is exhausted.\<close>

theorem scheduled_action_accepted:
  assumes "codec_ok c" and "next_action c sc p previous candidate now_ms = Inr \<lparr>pa_instance = Some name, pa_action = action\<rparr>"
    and "now_ms < 2 ^ 64 - 300000"
  shows "case action of
      StartCandidate ks \<Rightarrow> accepted_update c (update_first name
        (\<lambda>i. i\<lparr>ip_candidate_enabled := ip_candidate_enabled i \<union> set ks\<rparr>) (rp_instances p))
        (enable_candidate c name ks now_ms p)
    | DrainPrevious ks t \<Rightarrow> \<exists>deadline. accepted_update c (update_first name
        (\<lambda>i. i\<lparr>ip_previous_draining := fold (\<lambda>k m. bt_insert k
           \<lparr>di_requested_at = now_ms, di_deadline_at = deadline\<rparr> m) ks (ip_previous_draining i)\<rparr>) (rp_instances p))
        (request_previous_drain c name ks now_ms p)
    | _ \<Rightarrow> True"
proof -
  let ?a = "\<lparr>pa_instance = Some name, pa_action = action\<rparr>"
  have base: "validate_progress c p = Inr ()" "ensure_mutable p now_ms = Inr ()"
    using assms(2) by (auto simp: next_action_def and_then_Inr ensure_mutable_def)
  have now: "now_ms \<noteq> 0" using base(2) by (auto simp: ensure_mutable_def ensure_time_def and_then_Inr)
  show ?thesis
  proof (cases action)
    case (StartCandidate ks)
    then obtain i where i: "find (\<lambda>j. ip_name j = name) (rp_instances p) = Some i"
      "validate_instance_progress i = Inr ()" "ks \<noteq> []" "set ks \<subseteq> {1 .. ip_candidate_replicas i} - ip_candidate_enabled i"
      by (rule_tac selected_instance [OF assms(2)]) auto
    let ?f = "\<lambda>i. i\<lparr>ip_candidate_enabled := ip_candidate_enabled i \<union> set ks\<rparr>"
    have "instance_moved i (?f i)" using i(2,4) by (auto simp: instance_moved_def validate_instance_Inr)
    from mark_accepted [OF assms(1) base(1) update_first_moved [where f = ?f, OF i(1) this] base(2)]
    show ?thesis using StartCandidate i base(2)
      by (auto simp: enable_candidate_def instance_mut_def list_ex_iff fail_if_def)
  next
    case (DrainPrevious ks t)
    then obtain i where i: "find (\<lambda>j. ip_name j = name) (rp_instances p) = Some i"
      "validate_instance_progress i = Inr ()" "ks \<noteq> []" "set ks \<subseteq> {1 .. ip_previous_replicas i}" "ip_previous_draining i = []"
      by (rule_tac selected_instance [OF assms(2)]) auto
    define d where "d = now_ms + drain_timeout_ms (ip_policy i)"
    have "drain_timeout_ms (ip_policy i) \<le> 300000"
      using i(2) by (auto simp: validate_instance_Inr validate_policy_def rolling_consts)
    then have d: "checked_add 64 now_ms (drain_timeout_ms (ip_policy i)) = Some d" using assms(3) by (simp add: d_def)
    let ?f = "\<lambda>i. i\<lparr>ip_previous_draining := fold (\<lambda>k m. bt_insert k
      \<lparr>di_requested_at = now_ms, di_deadline_at = d\<rparr> m) ks (ip_previous_draining i)\<rparr>"
    have "instance_moved i (?f i)" using i(2,4,5) now
      by (auto simp: instance_moved_def validate_instance_Inr d_def dest!: bt_insert_all_entries)
    from mark_accepted [OF assms(1) base(1) update_first_moved [where f = ?f, OF i(1) this] base(2)]
    show ?thesis using DrainPrevious i base(2) d
      by (auto simp: request_previous_drain_def instance_mut_def list_ex_iff fail_if_def simp del: checked_add_Some)
  qed simp_all
qed

section \<open>Two instances that block each other\<close>

text \<open>An instance \<^verbatim>\<open>a\<close> that grows from one to three replicas beside an instance \<^verbatim>\<open>b\<close> that shrinks from
  three to one, both under the default policy.  Two candidates of \<^verbatim>\<open>a\<close> have been started and run.\<close>

definition stall_replica :: "string \<Rightarrow> nat \<Rightarrow> replica_phase \<Rightarrow> replica_runtime" where
  "stall_replica name k phase =
     \<lparr>rr_id = ReplicaId name k, rr_desired = Running, rr_restart = OnFailure, rr_max_restarts = 3,
      rr_attempt = (if phase = RunningPhase then 1 else 0), rr_phase = phase,
      rr_run_id = (if phase = RunningPhase then Some demo_digest else None),
      rr_started_at = (if phase = RunningPhase then Some 1000 else None), rr_finished_at = None,
      rr_next_start_at = None, rr_exit_code = None, rr_detail = None, rr_probe = None\<rparr>"

definition stall_status :: "nat \<Rightarrow> replica_runtime list \<Rightarrow> runtime_status" where
  "stall_status revision rs = \<lparr>rs_format_version = 2, rs_stack = ''shop'', rs_revision = revision,
     rs_generation = demo_digest, rs_observed_at = 1000, rs_replicas = rs, rs_status_sha256 = demo_digest\<rparr>"

definition stall_previous :: runtime_status where
  "stall_previous = stall_status 1 [stall_replica ''a'' 1 RunningPhase, stall_replica ''b'' 1 RunningPhase,
     stall_replica ''b'' 2 RunningPhase, stall_replica ''b'' 3 RunningPhase]"

definition stall_candidate :: runtime_status where
  "stall_candidate = stall_status 2 [stall_replica ''a'' 1 RunningPhase, stall_replica ''a'' 2 RunningPhase,
     stall_replica ''a'' 3 Pending, stall_replica ''b'' 1 Pending]"

definition stall_instance :: "string \<Rightarrow> nat \<Rightarrow> nat \<Rightarrow> nat set \<Rightarrow> instance_progress" where
  "stall_instance name p n enabled = \<lparr>ip_name = name, ip_previous_replicas = p, ip_candidate_replicas = n,
     ip_policy = default_policy, ip_candidate_enabled = enabled, ip_previous_draining = []\<rparr>"

definition stall_progress :: rollout_progress where
  "stall_progress = \<lparr>rp_format_version = 1, rp_rollout_id = demo_digest, rp_stack = ''shop'',
     rp_phase = RollingExec, rp_previous_revision = Some 1, rp_previous_generation = Some demo_digest,
     rp_candidate_revision = 2, rp_candidate_generation = demo_digest, rp_started_at = 500,
     rp_updated_at = 1000, rp_last_progress_at = 1000, rp_action_sequence = 1,
     rp_instances = [stall_instance ''a'' 1 3 {1, 2}, stall_instance ''b'' 3 1 {}],
     rp_progress_sha256 = demo_digest\<rparr>"

lemma stall_names: "valid_name ''shop''" "valid_name ''a''" "valid_name ''b''"
  by (simp_all add: valid_name_def name_byte_def text_defs)

lemma stall_instance_sel [simp]:
  "ip_name (stall_instance name p n e) = name" "ip_previous_replicas (stall_instance name p n e) = p"
  "ip_candidate_replicas (stall_instance name p n e) = n" "ip_policy (stall_instance name p n e) = default_policy"
  "ip_candidate_enabled (stall_instance name p n e) = e" "ip_previous_draining (stall_instance name p n e) = []"
  by (simp_all add: stall_instance_def)

lemma stall_replica_sel [simp]:
  "rr_id (stall_replica name k ph) = ReplicaId name k" "rr_phase (stall_replica name k ph) = ph"
  "rr_probe (stall_replica name k ph) = None"
  "rr_started_at (stall_replica name k ph) = (if ph = RunningPhase then Some 1000 else None)"
  by (simp_all add: stall_replica_def)

lemma stall_replica_ok:
  assumes "valid_name name" and "k \<noteq> 0" and "ph = RunningPhase \<or> ph = Pending"
  shows "validate_replica (stall_replica name k ph) = Inr ()"
  using assms(3)
proof
  assume "ph = RunningPhase"
  then show ?thesis
    using assms(1,2) by (simp add: stall_replica_def validate_replica_iff phase_fields_inconsistent_def
        active_phase_def policy_phase_is_valid_def plan_consts planned_stopped_def)
next
  assume "ph = Pending"
  then show ?thesis
    using assms(1,2) by (simp add: stall_replica_def validate_replica_iff phase_fields_inconsistent_def
        active_phase_def policy_phase_is_valid_def plan_consts planned_stopped_def)
qed

lemma stall_status_ok:
  assumes "\<forall>r \<in> set rs. validate_replica r = Inr ()" and "sorted_wrt (<) (map rr_id rs)" and "length rs \<le> 4"
    and "revision \<noteq> 0"
  shows "validate_status demo_codec (stall_status revision rs) = Inr ()"
  using assms stall_names(1)
  by (simp add: validate_status_iff identity_ok_def stall_status_def status_sha256_def demo_codec_def
      plan_consts supervisor_consts)

lemma stall_previous_ok: "validate_status demo_codec stall_previous = Inr ()"
  unfolding stall_previous_def
  by (rule stall_status_ok) (simp_all add: stall_replica_ok stall_names less_replica_id_def)

lemma stall_candidate_ok: "validate_status demo_codec stall_candidate = Inr ()"
  unfolding stall_candidate_def
  by (rule stall_status_ok) (simp_all add: stall_replica_ok stall_names less_replica_id_def)

lemma stall_instances_ok:
  "validate_instance_progress (stall_instance ''a'' 1 3 {1, 2}) = Inr ()"
  "validate_instance_progress (stall_instance ''b'' 3 1 {}) = Inr ()"
  by (simp_all add: validate_instance_Inr stall_names validate_policy_def default_policy_def rolling_consts)

lemma stall_progress_ok: "validate_progress demo_codec stall_progress = Inr ()"
proof -
  have "progress_step (None, 0, 0, 0) (stall_instance ''a'' 1 3 {1, 2}) = Inr (Some ''a'', 1, 3, 1)"
    "progress_step (Some ''a'', 1, 3, 1) (stall_instance ''b'' 3 1 {}) = Inr (Some ''b'', 4, 4, 2)"
    using stall_instances_ok by (simp_all add: progress_step_def checked_add_def default_policy_def)
  then have "try_fold progress_step (None, 0, 0, 0) (rp_instances stall_progress) = Inr (Some ''b'', 4, 4, 2)"
    by (simp add: stall_progress_def)
  moreover have "progress_identity_ok stall_progress"
    by (simp add: progress_identity_ok_def stall_progress_def stall_names progress_consts plan_consts)
  moreover have "is_digest (rp_progress_sha256 stall_progress)"
    "progress_sha256 demo_codec stall_progress = Inr (rp_progress_sha256 stall_progress)"
    by (simp_all add: stall_progress_def progress_sha256_def demo_codec_def)
  ultimately show ?thesis unfolding validate_progress_iff by (auto simp: plan_consts)
qed

definition stall_observation :: "nat \<Rightarrow> nat \<Rightarrow> nat set \<Rightarrow> nat set \<Rightarrow> nat \<Rightarrow> rolling_observation" where
  "stall_observation p n previous candidate elapsed =
     \<lparr>previous_replicas = p, candidate_replicas = n, previous_active = previous, previous_ready = previous,
      candidate_active = candidate, candidate_ready = candidate, candidate_available = candidate,
      candidate_terminal = {}, elapsed_since_progress_ms = elapsed\<rparr>"

lemma stall_sees:
  assumes "3000 \<le> now_ms"
  shows "instance_observation stall_progress (stall_instance ''a'' 1 3 {1, 2}) (Some stall_previous) (Some stall_candidate) now_ms
      = Inr (stall_observation 1 3 {1} {1, 2} (now_ms - 1000))"
    "instance_observation stall_progress (stall_instance ''b'' 3 1 {}) (Some stall_previous) (Some stall_candidate) now_ms
      = Inr (stall_observation 3 1 {1, 2, 3} {} (now_ms - 1000))"
proof -
  have t: "2000 \<le> now_ms - 1000" using assms by simp
  show "instance_observation stall_progress (stall_instance ''a'' 1 3 {1, 2}) (Some stall_previous) (Some stall_candidate) now_ms
      = Inr (stall_observation 1 3 {1} {1, 2} (now_ms - 1000))"
    "instance_observation stall_progress (stall_instance ''b'' 3 1 {}) (Some stall_previous) (Some stall_candidate) now_ms
      = Inr (stall_observation 3 1 {1, 2, 3} {} (now_ms - 1000))"
    using t
    by (simp_all add: Let_def instance_observation_def replicas_of_def stall_previous_def stall_candidate_def stall_status_def
      observe_previous_def observe_candidate_def replica_ready_def stall_progress_def stall_observation_def
      default_policy_def rollout_consts or_else_def insert_commute)
qed

lemma stall_decides:
  assumes "elapsed < 300000"
  shows "next_rolling (stall_observation 1 3 {1} {1, 2} elapsed) default_policy = Inr (StartCandidate [3])"
    "next_rolling (stall_observation 3 1 {1, 2, 3} {} elapsed) default_policy = Inr (StartCandidate [1])"
proof -
  have v: "validate_observation (stall_observation 1 3 {1} {1, 2} elapsed) default_policy = Inr ()"
    "validate_observation (stall_observation 3 1 {1, 2, 3} {} elapsed) default_policy = Inr ()"
    by (simp_all add: validate_observation_Inr stall_observation_def policy_replicas_def validate_policy_def
        default_policy_def rolling_consts)
  show "next_rolling (stall_observation 1 3 {1} {1, 2} elapsed) default_policy = Inr (StartCandidate [3])"
    "next_rolling (stall_observation 3 1 {1, 2, 3} {} elapsed) default_policy = Inr (StartCandidate [1])"
    using assms unfolding next_rolling_def v
    by (simp_all add: stall_observation_def default_policy_def start_action_def or_else_def upt_rec)
qed

lemma stall_gives_up:
  assumes "300000 \<le> elapsed"
  shows "next_rolling (stall_observation 1 3 {1} {1, 2} elapsed) default_policy = Inr (Rollback ProgressDeadline)"
proof -
  have v: "validate_observation (stall_observation 1 3 {1} {1, 2} elapsed) default_policy = Inr ()"
    by (simp add: validate_observation_Inr stall_observation_def policy_replicas_def validate_policy_def
        default_policy_def rolling_consts)
  show ?thesis using assms unfolding next_rolling_def v by (simp add: stall_observation_def default_policy_def)
qed

lemma stall_capacity:
  "stack_start_capacity stall_progress [stall_observation 1 3 {1} {1, 2} e, stall_observation 3 1 {1, 2, 3} {} e] = Inr 0"
  by (simp add: stack_start_capacity_def stall_progress_def stall_observation_def checked_add_def sum_u16_def
      wrapping_add_def default_policy_def progress_consts plan_consts)

lemma stall_next_action:
  assumes "3000 \<le> now_ms"
  shows "next_action demo_codec demo_codec stall_progress (Some stall_previous) (Some stall_candidate) now_ms =
    Inr (if now_ms < 301000 then \<lparr>pa_instance = Some ''a'', pa_action = Wait AvailabilityBudget\<rparr>
         else \<lparr>pa_instance = Some ''a'', pa_action = Rollback ProgressDeadline\<rparr>)"
proof -
  have inst: "rp_instances stall_progress = [stall_instance ''a'' 1 3 {1, 2}, stall_instance ''b'' 3 1 {}]"
    by (simp add: stall_progress_def)
  have obs: "try_map (\<lambda>i. instance_observation stall_progress i (Some stall_previous) (Some stall_candidate) now_ms)
      (rp_instances stall_progress) =
      Inr [stall_observation 1 3 {1} {1, 2} (now_ms - 1000), stall_observation 3 1 {1, 2, 3} {} (now_ms - 1000)]"
    unfolding inst by (simp add: stall_sees [OF assms, simplified])
  have run: "validate_runtime demo_codec stall_progress (Some stall_previous) (rp_previous_revision stall_progress)
      (rp_previous_generation stall_progress) = Inr ()"
    "validate_runtime demo_codec stall_progress (Some stall_candidate) (Some (rp_candidate_revision stall_progress))
      (Some (rp_candidate_generation stall_progress)) = Inr ()"
    by (simp_all add: validate_runtime_def stall_previous_ok stall_candidate_ok)
      (simp_all add: stall_previous_def stall_candidate_def stall_status_def stall_progress_def)
  have g: "ensure_time stall_progress now_ms = Inr ()" "rp_phase stall_progress = RollingExec"
    using assms by (simp_all add: ensure_time_def stall_progress_def)
  have "action_loop 0 (zip (rp_instances stall_progress)
      [stall_observation 1 3 {1} {1, 2} (now_ms - 1000), stall_observation 3 1 {1, 2, 3} {} (now_ms - 1000)]) None None =
      Inr (if now_ms < 301000 then Inr (None, Some (instance_wait ''a'' AvailabilityBudget))
        else Inl \<lparr>pa_instance = Some ''a'', pa_action = Rollback ProgressDeadline\<rparr>)"
    using stall_decides [of "now_ms - 1000", simplified] stall_gives_up [of "now_ms - 1000", simplified]
    unfolding inst by (simp add: or_else_def)
  then show ?thesis
    unfolding next_action_def stall_progress_ok g run obs
    by (simp add: stall_capacity [simplified] obs [simplified] g) (simp add: inst or_else_def)
qed

text \<open>C38: start-first instances can block each other.  In this rollout every started replica is ready
  and available and no drain is outstanding.  The three surplus replicas of \<^verbatim>\<open>b\<close> could be drained, and
  the scheduler of \<^verbatim>\<open>b\<close> alone allows two of them to go; but both instances insist on a start first and the
  stack-wide capacity is used up, so the decision is to wait until the progress deadline and then to
  roll back.\<close>

theorem start_first_rollout_stalls:
  assumes "3000 \<le> now_ms"
  shows "next_action demo_codec demo_codec stall_progress (Some stall_previous) (Some stall_candidate) now_ms =
      Inr (if now_ms < 301000 then \<lparr>pa_instance = Some ''a'', pa_action = Wait AvailabilityBudget\<rparr>
           else \<lparr>pa_instance = Some ''a'', pa_action = Rollback ProgressDeadline\<rparr>) \<and>
    drain_action (stall_observation 3 1 {1, 2, 3} {} (now_ms - 1000)) default_policy = Some (DrainPrevious [1, 2] 30000)"
proof
  have "sorted_list_of_set {1, 2, 3 :: nat} = [1, 2, 3]" by code_simp
  then show "drain_action (stall_observation 3 1 {1, 2, 3} {} (now_ms - 1000)) default_policy = Some (DrainPrevious [1, 2] 30000)"
    by (simp add: drain_action_def stall_observation_def default_policy_def)
qed (rule stall_next_action [OF assms])

theorem start_first_rollout_stalls_witness:
  "next_action demo_codec demo_codec stall_progress (Some stall_previous) (Some stall_candidate) 300000 =
     Inr \<lparr>pa_instance = Some ''a'', pa_action = Wait AvailabilityBudget\<rparr>"
  using start_first_rollout_stalls [of 300000] by simp

text \<open>With \<^verbatim>\<open>b\<close> alone the same state is answered by a start.\<close>

definition alone_progress :: rollout_progress where
  "alone_progress = stall_progress\<lparr>rp_instances := [stall_instance ''b'' 3 1 {}]\<rparr>"

lemma alone_progress_ok: "validate_progress demo_codec alone_progress = Inr ()"
proof -
  have "progress_step (None, 0, 0, 0) (stall_instance ''b'' 3 1 {}) = Inr (Some ''b'', 3, 1, 1)"
    using stall_instances_ok(2) by (simp add: progress_step_def checked_add_def default_policy_def)
  then have "try_fold progress_step (None, 0, 0, 0) (rp_instances alone_progress) = Inr (Some ''b'', 3, 1, 1)"
    by (simp add: alone_progress_def)
  moreover have "progress_identity_ok alone_progress"
    by (simp add: progress_identity_ok_def alone_progress_def stall_progress_def stall_names progress_consts plan_consts)
  moreover have "is_digest (rp_progress_sha256 alone_progress)"
    "progress_sha256 demo_codec alone_progress = Inr (rp_progress_sha256 alone_progress)"
    by (simp_all add: alone_progress_def stall_progress_def progress_sha256_def demo_codec_def)
  ultimately show ?thesis unfolding validate_progress_iff by (auto simp: plan_consts)
qed

lemma alone_starts:
  "next_action demo_codec demo_codec alone_progress (Some stall_previous) None 3000 =
     Inr \<lparr>pa_instance = Some ''b'', pa_action = StartCandidate [1]\<rparr>"
proof -
  have ob: "instance_observation alone_progress (stall_instance ''b'' 3 1 {}) (Some stall_previous) None 3000
      = Inr (stall_observation 3 1 {1, 2, 3} {} 2000)"
    by (simp add: instance_observation_def replicas_of_def stall_previous_def stall_status_def
        observe_previous_def replica_ready_def stall_observation_def alone_progress_def stall_progress_def insert_commute)
  have cap: "stack_start_capacity alone_progress [stall_observation 3 1 {1, 2, 3} {} 2000] = Inr 1"
    by (simp add: stack_start_capacity_def alone_progress_def stall_observation_def checked_add_def sum_u16_def
        wrapping_add_def default_policy_def progress_consts plan_consts)
  have g: "ensure_time alone_progress 3000 = Inr ()" "rp_phase alone_progress = RollingExec"
    "rp_instances alone_progress = [stall_instance ''b'' 3 1 {}]"
    by (simp_all add: ensure_time_def alone_progress_def stall_progress_def)
  have run: "validate_runtime demo_codec alone_progress (Some stall_previous) (rp_previous_revision alone_progress)
      (rp_previous_generation alone_progress) = Inr ()"
    by (simp add: validate_runtime_def stall_previous_ok)
      (simp add: stall_previous_def stall_status_def alone_progress_def stall_progress_def)
  show ?thesis
    unfolding next_action_def alone_progress_ok g run
    using ob cap stall_decides(2) [of 2000]
    by (simp add: validate_runtime_def or_else_def g)
qed

theorem stack_start_bounded_witness:
  "card (live_ordinals ''b'' (Some stall_previous)) + 1 \<le> (4 :: nat)"
  using stack_start_bounded [OF alone_starts]
  by (simp add: alone_progress_def total_defs default_policy_def)

theorem scheduled_action_accepted_witness:
  "accepted_update demo_codec [stall_instance ''b'' 3 1 {1}] (enable_candidate demo_codec ''b'' [1] 3000 alone_progress)"
  using scheduled_action_accepted [OF demo_codec_ok alone_starts]
  by (simp add: alone_progress_def stall_instance_def)

end
