(* ===== verification/Routing.thy ===== *)
theory Routing
  imports Rollout_Progress Network_Http
begin

text \<open>
  Routing snapshots (\<^verbatim>\<open>RouteTarget\<close> and \<^verbatim>\<open>RoutingSnapshot\<close> of
  \<^verbatim>\<open>crates/cartridge-engine/src/routing.rs\<close>), which replicas of a generation may receive traffic, and the
  invocation envelopes of \<^verbatim>\<open>invocation.rs\<close>.  The operations on the store are in \<open>Engine_Routing\<close>,
  their properties in \<open>Engine_Routes\<close>.
\<close>

section \<open>Snapshots\<close>

definition ENGINE_ROUTING_FORMAT_VERSION :: nat where "ENGINE_ROUTING_FORMAT_VERSION = 1"
definition MAX_ENGINE_ROUTING_BYTES :: nat where "MAX_ENGINE_ROUTING_BYTES = 1024 * 1024"

record route_target =
  tg_instance :: string
  tg_ordinal :: nat
  tg_revision :: nat
  tg_generation :: string
  tg_run_id :: string
  tg_ready_at :: nat

record routing_snapshot =
  rg_format_version :: nat
  rg_stack :: string
  rg_routing_epoch :: string
  rg_sequence :: nat
  rg_published_at :: nat
  rg_rollout_id :: "string option"
  rg_targets :: "route_target list"
  rg_routing_sha256 :: string

datatype routing_error =
    RoutingIdentityInvalid | RoutingNotSorted | RouteTargetInvalid | RoutingNotSerializable | ReadyWithoutRunId

text \<open>The derived \<^verbatim>\<open>Ord\<close> of \<^verbatim>\<open>RouteTarget\<close> compares its fields in order; \<open>target_identity\<close> is the triple the
  validator collects.\<close>

definition target_key :: "route_target \<Rightarrow> string \<times> nat \<times> nat \<times> string \<times> string \<times> nat" where
  "target_key t = (tg_instance t, tg_ordinal t, tg_revision t, tg_generation t, tg_run_id t, tg_ready_at t)"

definition target_identity :: "route_target \<Rightarrow> string \<times> string \<times> nat" where
  "target_identity t = (tg_generation t, tg_instance t, tg_ordinal t)"

definition validate_route_target :: "route_target \<Rightarrow> routing_error + unit" where
  "validate_route_target t =
     fail_if (\<not> valid_name (tg_instance t) \<or> tg_ordinal t = 0 \<or> tg_ordinal t > MAX_STACK_REPLICAS \<or>
       tg_revision t = 0 \<or> \<not> is_digest (tg_generation t) \<or> \<not> is_digest (tg_run_id t) \<or> tg_ready_at t = 0)
     RouteTargetInvalid"

definition routing_sha256 :: "routing_snapshot codec \<Rightarrow> routing_snapshot \<Rightarrow> routing_error + string" where
  "routing_sha256 c s =
     and_then (ok_or (to_vec c (s\<lparr>rg_routing_sha256 := []\<rparr>)) RoutingNotSerializable) (\<lambda>b. Inr (sha256hex c b))"

definition routing_step ::
    "route_target option \<times> (string \<times> string \<times> nat) set \<Rightarrow> route_target
      \<Rightarrow> routing_error + route_target option \<times> (string \<times> string \<times> nat) set" where
  "routing_step acc t =
     (case acc of (previous, identities) \<Rightarrow>
      and_then (validate_route_target t) (\<lambda>_.
      and_then (fail_if ((case previous of None \<Rightarrow> False | Some v \<Rightarrow> target_key v \<ge> target_key t) \<or>
          target_identity t \<in> identities) RoutingNotSorted) (\<lambda>_.
      Inr (Some t, insert (target_identity t) identities))))"

definition validate_snapshot :: "routing_snapshot codec \<Rightarrow> routing_snapshot \<Rightarrow> routing_error + unit" where
  "validate_snapshot c s =
     and_then (fail_if (rg_format_version s \<noteq> ENGINE_ROUTING_FORMAT_VERSION \<or> \<not> valid_name (rg_stack s) \<or>
         \<not> is_digest (rg_routing_epoch s) \<or> rg_sequence s = 0 \<or> rg_published_at s = 0 \<or>
         (case rg_rollout_id s of None \<Rightarrow> False | Some i \<Rightarrow> \<not> is_digest i) \<or>
         length (rg_targets s) > MAX_STACK_TOTAL_ACTIVE_REPLICAS \<or> \<not> is_digest (rg_routing_sha256 s))
       RoutingIdentityInvalid) (\<lambda>_.
     and_then (routing_sha256 c s) (\<lambda>d.
     and_then (fail_if (d \<noteq> rg_routing_sha256 s) RoutingIdentityInvalid) (\<lambda>_.
     and_then (try_fold routing_step (None, {}) (rg_targets s)) (\<lambda>_. Inr ()))))"

definition refresh_snapshot :: "routing_snapshot codec \<Rightarrow> routing_snapshot \<Rightarrow> routing_error + routing_snapshot" where
  "refresh_snapshot c s =
     (let s1 = s\<lparr>rg_targets := sort_key target_key (rg_targets s)\<rparr> in
      and_then (routing_sha256 c s1) (\<lambda>d.
      let s2 = s1\<lparr>rg_routing_sha256 := d\<rparr> in
      and_then (validate_snapshot c s2) (\<lambda>_. Inr s2)))"

section \<open>Which replicas are routed\<close>

datatype generation_role = DesiredRole | RolloutCandidate | RolloutPrevious

datatype route_controls =
    RouteAll
  | RouteOnly "replica_id set"
  | RouteExcept "replica_id set"
  | RouteNone

definition progress_candidate_enabled :: "rollout_progress \<Rightarrow> replica_id set" where
  "progress_candidate_enabled p =
     (\<Union>i \<in> set (rp_instances p). (\<lambda>k. ReplicaId (ip_name i) k) ` ip_candidate_enabled i)"

definition progress_previous_draining :: "rollout_progress \<Rightarrow> replica_id set" where
  "progress_previous_draining p =
     (\<Union>i \<in> set (rp_instances p). (\<lambda>k. ReplicaId (ip_name i) k) ` set (map fst (ip_previous_draining i)))"

definition live_phase :: "execution_phase \<Rightarrow> bool" where
  "live_phase ph \<longleftrightarrow> ph = RollingExec \<or> ph = PausedExec \<or> ph = CompletingExec"

definition routing_controls :: "generation_role \<Rightarrow> rollout_progress option \<Rightarrow> route_controls" where
  "routing_controls role progress =
     (case role of
        DesiredRole \<Rightarrow> RouteAll
      | RolloutCandidate \<Rightarrow>
          (case progress of None \<Rightarrow> RouteNone | Some p \<Rightarrow>
             if live_phase (rp_phase p) then RouteOnly (progress_candidate_enabled p) else RouteNone)
      | RolloutPrevious \<Rightarrow>
          (case progress of None \<Rightarrow> RouteAll | Some p \<Rightarrow>
             if live_phase (rp_phase p) then RouteExcept (progress_previous_draining p) else RouteAll))"

definition matches_controls :: "route_controls \<Rightarrow> replica_id \<Rightarrow> bool" where
  "matches_controls controls rid =
     (case controls of RouteAll \<Rightarrow> True | RouteOnly ids \<Rightarrow> rid \<in> ids | RouteExcept ids \<Rightarrow> rid \<notin> ids | RouteNone \<Rightarrow> False)"

definition route_ready_at :: "replica_runtime \<Rightarrow> nat option" where
  "route_ready_at r =
     (case rr_probe r of
        Some p \<Rightarrow> if pr_phase p = ProbeReady then pr_ready_at p else None
      | None \<Rightarrow> rr_started_at r)"

definition route_of :: "nat \<Rightarrow> string \<Rightarrow> replica_runtime \<Rightarrow> string \<Rightarrow> nat \<Rightarrow> route_target" where
  "route_of revision generation r run_id ready_at =
     \<lparr>tg_instance = rid_instance (rr_id r), tg_ordinal = rid_ordinal (rr_id r), tg_revision = revision,
      tg_generation = generation, tg_run_id = run_id, tg_ready_at = ready_at\<rparr>"

definition append_ready_target ::
    "nat \<Rightarrow> string \<Rightarrow> route_controls \<Rightarrow> route_target list \<Rightarrow> replica_runtime \<Rightarrow> routing_error + route_target list" where
  "append_ready_target revision generation controls targets r =
     (if rr_desired r \<noteq> Running \<or> rr_phase r \<noteq> RunningPhase \<or> \<not> matches_controls controls (rr_id r) then Inr targets
      else
        and_then (ok_or (rr_run_id r) ReadyWithoutRunId) (\<lambda>run_id.
        case route_ready_at r of
          None \<Rightarrow> Inr targets
        | Some ready_at \<Rightarrow> Inr (targets @ [route_of revision generation r run_id ready_at])))"

definition append_ready_targets ::
    "nat \<Rightarrow> string \<Rightarrow> route_controls \<Rightarrow> route_target list \<Rightarrow> runtime_status \<Rightarrow> routing_error + route_target list" where
  "append_ready_targets revision generation controls targets s =
     try_fold (append_ready_target revision generation controls) targets (rs_replicas s)"

section \<open>Invocations\<close>

definition ENGINE_INVOCATION_FORMAT_VERSION :: nat where "ENGINE_INVOCATION_FORMAT_VERSION = 1"
definition MAX_SERVICE_TIMEOUT_MS :: nat where "MAX_SERVICE_TIMEOUT_MS = 30 * 1000"

record invocation_request =
  iq_format_version :: nat
  iq_stack :: string
  iq_routing_epoch :: string
  iq_routing_sequence :: nat
  iq_target :: route_target
  iq_issued_at :: nat
  iq_deadline_at :: nat
  iq_request :: service_request

record invocation_response =
  iv_format_version :: nat
  iv_stack :: string
  iv_target :: route_target
  iv_request_id :: string
  iv_responded_at :: nat
  iv_response :: service_response

datatype invocation_error =
    InvocationRequestInvalid | InvocationResponseInvalid | InvocationServiceInvalid http_error

definition validate_invocation_request :: "invocation_request \<Rightarrow> invocation_error + unit" where
  "validate_invocation_request q =
     and_then (fail_if (iq_format_version q \<noteq> ENGINE_INVOCATION_FORMAT_VERSION \<or> \<not> valid_name (iq_stack q) \<or>
         \<not> is_digest (iq_routing_epoch q) \<or> iq_routing_sequence q = 0 \<or> iq_issued_at q = 0 \<or>
         iq_deadline_at q \<le> iq_issued_at q \<or> iq_deadline_at q - iq_issued_at q > MAX_SERVICE_TIMEOUT_MS)
       InvocationRequestInvalid) (\<lambda>_.
     map_err InvocationServiceInvalid (validate_service_request (iq_request q)))"

definition validate_invocation_response :: "invocation_response \<Rightarrow> invocation_error + unit" where
  "validate_invocation_response p =
     and_then (fail_if (iv_format_version p \<noteq> ENGINE_INVOCATION_FORMAT_VERSION \<or> \<not> valid_name (iv_stack p) \<or>
         \<not> is_digest (iv_request_id p) \<or> iv_responded_at p = 0) InvocationResponseInvalid) (\<lambda>_.
     map_err InvocationServiceInvalid (validate_service_response (iv_response p)))"

end
