(* ===== verification/Engine_Store.thy ===== *)
theory Engine_Store
  imports Routing
begin

text \<open>
  The engine store (\<^verbatim>\<open>EngineStore\<close> of \<^verbatim>\<open>crates/cartridge-engine/src/lib.rs\<close>, \<^verbatim>\<open>rollout.rs\<close> and
  \<^verbatim>\<open>rollout_progress.rs\<close>): the directory of a stack as a record of its files, the store as the map from
  stack names to directories, and the operations on it.

  A file holds the document that was written to it; reading checks its size and validates it as the code
  does.  Replacing a file is one step: the backup file of \<^verbatim>\<open>write_replace_atomic\<close> and its recovery make a
  crash in between leave the old or the new document.  A crash between two writes of one operation is
  covered by the states in between, which the operations return when a later step fails.  Symbolic links,
  foreign files and I/O errors are not modelled.  The clock reading inside \<^verbatim>\<open>EngineEvent::new\<close> is the
  argument \<open>clock\<close>.
\<close>

section \<open>State\<close>

definition MAX_ENGINE_STACKS :: nat where "MAX_ENGINE_STACKS = 1024"
definition MAX_RUNTIME_STATUS_BYTES :: nat where "MAX_RUNTIME_STATUS_BYTES = 1024 * 1024"

record stack_dir =
  sd_events :: "event_file list"
  sd_rollout :: "rollout_record option"
  sd_archive :: "(string, rollout_record) btree"
  sd_progress :: "rollout_progress option"
  sd_runtime :: "runtime_status option"
  sd_generations :: "(string, runtime_status) btree"
  sd_routes :: "routing_snapshot option"

type_synonym engine_store = "(string, stack_dir) btree"

record engine_env = rollout_env +
  progress_codec :: "rollout_progress codec"
  runtime_codec :: "runtime_status codec"
  report_codec :: "health_report codec"
  routing_codec :: "routing_snapshot codec"
  backoff_hash :: "bytes \<Rightarrow> bytes"

definition jenv :: "engine_env \<Rightarrow> journal_env" where "jenv env = journal_env.truncate env"
definition renv :: "engine_env \<Rightarrow> rollout_env" where "renv env = rollout_env.truncate env"

datatype store_error =
    StackNameInvalid | JournalFailed journal_error | RolloutFailed rollout_error | ProgressFailed progress_error
  | RuntimeFailed supervisor_error | HealthFailed health_error | StorePlanInvalid plan_error
  | InsecureUnconfirmed | StackLimitReached | StackLimitExceeded | UnsafeDirectory | StackNotKnown
  | RemovedCannotStop | ActiveStackWithoutPlan | ActiveRollout | RolloutFileTooLarge | RolloutForeign
  | RolloutIdentityMalformed | NoRolloutCheckpoint | RolloutIdentityMismatch | AlreadyActiveRollout
  | CandidateAlreadyDesired | NotPreparedForActivation | NotActiveForCommit | HealthNotReady
  | NoObservedRuntime | NotStableYet | CannotRollBack | ActiveNotArchivable | ArchiveUnexpected
  | ArchiveCountOverflow | ArchiveBytesOverflow | ArchiveCollision | HistoryLimit | ProgressFileTooLarge
  | ProgressForeign | ProgressWithoutCheckpoint | ProgressMismatch | ProgressOfAnother | ActiveProgressKept
  | GenerationInvalid | PreviousRevisionMissing | PreviousTargetPlanMissing | TargetInvalid
  | RuntimeTooLarge | RemovedRuntime | NoRuntimeGeneration | GenerationNotAuthorized | HealthInventoryTooLarge
  | RoutingFailed routing_error | RoutingFileTooLarge | PublicationInvalid | RoutingSequenceOverflow
  | PublicationTimeBackwards | RoutingForeign | RoutesOutdated | RoutingWithoutCheckpoint | RoutingMismatch
  | RoutingWithoutRollout | RoutingOfAnother | RouteLimitExceeded | NotRoutable | InvocationGenerationUnknown
  | InvocationInstanceUnknown | ServeNotGranted | InvocationIdentityInvalid | InvocationReplicaOutside

text \<open>State-passing results: \<open>act_then\<close> is the \<^verbatim>\<open>?\<close> operator on a step that may change the store.\<close>

type_synonym 'a act = "engine_store \<Rightarrow> (store_error + 'a) \<times> engine_store"

definition act_then :: "'a act \<Rightarrow> ('a \<Rightarrow> 'b act) \<Rightarrow> 'b act" where
  "act_then m f st = (case m st of (Inl e, st') \<Rightarrow> (Inl e, st') | (Inr x, st') \<Rightarrow> f x st')"

definition pure_act :: "store_error + 'a \<Rightarrow> 'a act" where
  "pure_act r st = (r, st)"

definition query :: "(engine_store \<Rightarrow> store_error + 'a) \<Rightarrow> 'a act" where
  "query f st = (f st, st)"

definition empty_dir :: stack_dir where
  "empty_dir = \<lparr>sd_events = [], sd_rollout = None, sd_archive = [], sd_progress = None, sd_runtime = None,
     sd_generations = [], sd_routes = None\<rparr>"

definition dir_of :: "engine_store \<Rightarrow> string \<Rightarrow> stack_dir" where
  "dir_of st stack = (case bt_get st stack of None \<Rightarrow> empty_dir | Some d \<Rightarrow> d)"

definition set_dir :: "string \<Rightarrow> (stack_dir \<Rightarrow> stack_dir) \<Rightarrow> engine_store \<Rightarrow> engine_store" where
  "set_dir stack f st = bt_insert stack (f (dir_of st stack)) st"

section \<open>Journals\<close>

definition store_events :: "engine_env \<Rightarrow> engine_store \<Rightarrow> string \<Rightarrow> store_error + engine_event list" where
  "store_events env st stack =
     and_then (fail_if (\<not> valid_name stack) StackNameInvalid) (\<lambda>_.
     map_err JournalFailed (read_events (jenv env) (sd_events (dir_of st stack)) stack))"

definition latest :: "engine_env \<Rightarrow> engine_store \<Rightarrow> string \<Rightarrow> store_error + engine_event option" where
  "latest env st stack = and_then (store_events env st stack) (\<lambda>es. Inr (last_event es))"

definition list_step :: "string list \<Rightarrow> string \<Rightarrow> store_error + string list" where
  "list_step names name =
     and_then (fail_if (\<not> valid_name name) UnsafeDirectory) (\<lambda>_.
     and_then (fail_if (length (names @ [name]) > MAX_ENGINE_STACKS) StackLimitExceeded) (\<lambda>_.
     Inr (names @ [name])))"

definition store_list :: "engine_env \<Rightarrow> engine_store \<Rightarrow> store_error + stack_status list" where
  "store_list env st =
     and_then (try_fold list_step [] (map fst st)) (\<lambda>names.
     and_then (try_map (latest env st) names) (\<lambda>es. Inr (map event_status (somes es))))"

definition create_stack_events :: "string \<Rightarrow> unit act" where
  "create_stack_events stack st =
     (if \<not> valid_name stack then (Inl StackNameInvalid, st) else (Inr (), set_dir stack (\<lambda>d. d) st))"

definition append_step :: "engine_env \<Rightarrow> engine_event \<Rightarrow> unit act" where
  "append_step env e st =
     (case append_event (jenv env) e (sd_events (dir_of st (ev_stack e))) of
        Inl x \<Rightarrow> (Inl (JournalFailed x), st)
      | Inr files \<Rightarrow> (Inr (), set_dir (ev_stack e) (\<lambda>d. d\<lparr>sd_events := files\<rparr>) st))"

definition append :: "engine_env \<Rightarrow> engine_event \<Rightarrow> unit act" where
  "append env e =
     act_then (pure_act (map_err JournalFailed (validate_event (jenv env) e))) (\<lambda>_.
     act_then (create_stack_events (ev_stack e)) (\<lambda>_.
     append_step env e))"

section \<open>Rollout checkpoints\<close>

definition read_rollout_file :: "engine_env \<Rightarrow> rollout_record \<Rightarrow> store_error + rollout_record" where
  "read_rollout_file env r =
     and_then (ok_or (to_vec (record_codec env) r) RolloutFileTooLarge) (\<lambda>b.
     and_then (fail_if (length b > MAX_ROLLOUT_BYTES) RolloutFileTooLarge) (\<lambda>_.
     and_then (map_err RolloutFailed (validate_rollout (renv env) r)) (\<lambda>_. Inr r)))"

definition write_rollout_file :: "engine_env \<Rightarrow> string \<Rightarrow> rollout_record \<Rightarrow> unit act" where
  "write_rollout_file env stack r st =
     (case and_then (map_err RolloutFailed (validate_rollout (renv env) r)) (\<lambda>_.
           and_then (ok_or (to_vec (record_codec env) r) (RolloutFailed RolloutNotSerializable)) (\<lambda>b.
           fail_if (length b > MAX_ROLLOUT_BYTES) RolloutFileTooLarge)) of
        Inl e \<Rightarrow> (Inl e, st)
      | Inr _ \<Rightarrow> (Inr (), set_dir stack (\<lambda>d. d\<lparr>sd_rollout := Some r\<rparr>) st))"

definition rollout :: "engine_env \<Rightarrow> string \<Rightarrow> rollout_record option act" where
  "rollout env stack =
     act_then (pure_act (fail_if (\<not> valid_name stack) StackNameInvalid)) (\<lambda>_.
     act_then (query (\<lambda>st. Inr (sd_rollout (dir_of st stack)))) (\<lambda>file.
     case file of
       None \<Rightarrow> pure_act (Inr None)
     | Some f \<Rightarrow>
         act_then (pure_act (read_rollout_file env f)) (\<lambda>r.
         act_then (pure_act (fail_if (ro_stack r \<noteq> stack) RolloutForeign)) (\<lambda>_.
         act_then (query (\<lambda>st. latest env st (ro_stack r))) (\<lambda>current.
         act_then (pure_act (map_err RolloutFailed (recover_rollout_checkpoint (renv env) r current))) (\<lambda>(changed, r').
         if changed then act_then (write_rollout_file env stack r') (\<lambda>_. pure_act (Inr (Some r')))
         else pure_act (Inr (Some r'))))))))"

definition ensure_no_active_rollout :: "engine_env \<Rightarrow> string \<Rightarrow> unit act" where
  "ensure_no_active_rollout env stack =
     act_then (rollout env stack) (\<lambda>r.
     pure_act (fail_if (case r of None \<Rightarrow> False | Some v \<Rightarrow> rollout_active v) ActiveRollout))"

definition require_rollout :: "engine_env \<Rightarrow> string \<Rightarrow> string \<Rightarrow> rollout_record act" where
  "require_rollout env stack identity =
     act_then (pure_act (fail_if (\<not> is_digest identity) RolloutIdentityMalformed)) (\<lambda>_.
     act_then (rollout env stack) (\<lambda>found.
     act_then (pure_act (ok_or found NoRolloutCheckpoint)) (\<lambda>r.
     act_then (pure_act (fail_if (ro_rollout_id r \<noteq> identity) RolloutIdentityMismatch)) (\<lambda>_.
     pure_act (Inr r)))))"

section \<open>Desired state\<close>

record apply_report =
  ar_changed :: bool
  ar_status :: stack_status

definition already_applied :: "stack_plan \<Rightarrow> engine_event option \<Rightarrow> bool" where
  "already_applied plan previous =
     (case previous of None \<Rightarrow> False | Some e \<Rightarrow> ev_kind e = ApplyEvent \<and>
       (case ev_plan e of None \<Rightarrow> False | Some p \<Rightarrow> pl_plan_sha256 p = pl_plan_sha256 plan))"

definition stack_limit_reached :: "engine_env \<Rightarrow> engine_event option \<Rightarrow> unit act" where
  "stack_limit_reached env previous =
     (if previous = None
      then act_then (query (store_list env)) (\<lambda>ss.
        pure_act (fail_if (length ss \<ge> MAX_ENGINE_STACKS) StackLimitReached))
      else pure_act (Inr ()))"

definition append_next ::
    "engine_env \<Rightarrow> nat \<Rightarrow> engine_event option \<Rightarrow> event_kind \<Rightarrow> stack_plan option \<Rightarrow> engine_event act" where
  "append_next env clock previous kind plan =
     act_then (pure_act (map_err JournalFailed (next_event (jenv env) clock previous kind plan))) (\<lambda>e.
     act_then (append env e) (\<lambda>_. pure_act (Inr e)))"

definition apply_plan :: "engine_env \<Rightarrow> nat \<Rightarrow> stack_plan \<Rightarrow> bool \<Rightarrow> apply_report act" where
  "apply_plan env clock plan allow_insecure =
     act_then (pure_act (map_err StorePlanInvalid (validate_plan (plan_codec env) (version_valid env) plan))) (\<lambda>_.
     act_then (ensure_no_active_rollout env (pl_stack plan)) (\<lambda>_.
     act_then (pure_act (fail_if (ss_sandbox (pl_security plan) = Disabled \<and> \<not> allow_insecure) InsecureUnconfirmed)) (\<lambda>_.
     act_then (query (\<lambda>st. latest env st (pl_stack plan))) (\<lambda>previous.
     act_then (stack_limit_reached env previous) (\<lambda>_.
     case previous of
       Some e \<Rightarrow>
         if already_applied plan previous then pure_act (Inr \<lparr>ar_changed = False, ar_status = event_status e\<rparr>)
         else act_then (append_next env clock previous ApplyEvent (Some plan)) (\<lambda>e'.
           pure_act (Inr \<lparr>ar_changed = True, ar_status = event_status e'\<rparr>))
     | None \<Rightarrow> act_then (append_next env clock previous ApplyEvent (Some plan)) (\<lambda>e'.
           pure_act (Inr \<lparr>ar_changed = True, ar_status = event_status e'\<rparr>)))))))"

definition known_latest :: "engine_env \<Rightarrow> string \<Rightarrow> engine_event act" where
  "known_latest env stack =
     act_then (query (\<lambda>st. latest env st stack)) (\<lambda>previous. pure_act (ok_or previous StackNotKnown))"

definition stop_stack :: "engine_env \<Rightarrow> nat \<Rightarrow> string \<Rightarrow> apply_report act" where
  "stop_stack env clock stack =
     act_then (ensure_no_active_rollout env stack) (\<lambda>_.
     act_then (known_latest env stack) (\<lambda>previous.
     if ev_kind previous = RemoveEvent then pure_act (Inl RemovedCannotStop)
     else if ev_kind previous = StopEvent
     then pure_act (Inr \<lparr>ar_changed = False, ar_status = event_status previous\<rparr>)
     else
       act_then (pure_act (ok_or (ev_plan previous) ActiveStackWithoutPlan)) (\<lambda>p.
       act_then (pure_act (map_err StorePlanInvalid (stopped_plan (plan_codec env) (version_valid env) p))) (\<lambda>plan.
       act_then (append_next env clock (Some previous) StopEvent (Some plan)) (\<lambda>e.
       pure_act (Inr \<lparr>ar_changed = True, ar_status = event_status e\<rparr>))))))"

definition remove_stack :: "engine_env \<Rightarrow> nat \<Rightarrow> string \<Rightarrow> apply_report act" where
  "remove_stack env clock stack =
     act_then (ensure_no_active_rollout env stack) (\<lambda>_.
     act_then (known_latest env stack) (\<lambda>previous.
     if ev_kind previous = RemoveEvent
     then pure_act (Inr \<lparr>ar_changed = False, ar_status = event_status previous\<rparr>)
     else act_then (append_next env clock (Some previous) RemoveEvent None) (\<lambda>e.
       pure_act (Inr \<lparr>ar_changed = True, ar_status = event_status e\<rparr>))))"

definition store_status :: "engine_env \<Rightarrow> engine_store \<Rightarrow> string \<Rightarrow> store_error + stack_status" where
  "store_status env st stack =
     and_then (latest env st stack) (\<lambda>e. ok_or (map_option event_status e) StackNotKnown)"

definition desired_plan ::
    "engine_env \<Rightarrow> engine_store \<Rightarrow> string \<Rightarrow> store_error + (nat \<times> string \<times> stack_plan) option" where
  "desired_plan env st stack =
     and_then (latest env st stack) (\<lambda>current.
     case current of None \<Rightarrow> Inl StackNotKnown
     | Some e \<Rightarrow> Inr (map_option (\<lambda>p. (ev_revision e, ev_sha256 e, p)) (ev_plan e)))"

section \<open>Rollout progress files\<close>

definition validate_progress_against_rollout ::
    "engine_env \<Rightarrow> rollout_progress \<Rightarrow> rollout_record \<Rightarrow> store_error + unit" where
  "validate_progress_against_rollout env p r =
     and_then (map_err RolloutFailed (validate_rollout (renv env) r)) (\<lambda>_.
     fail_if (rp_rollout_id p \<noteq> ro_rollout_id r \<or> rp_stack p \<noteq> ro_stack r \<or>
         rp_previous_revision p \<noteq> ro_previous_revision r \<or> rp_previous_generation p \<noteq> ro_previous_generation r \<or>
         Some (rp_candidate_revision p) \<noteq> ro_activated_revision r \<or>
         Some (rp_candidate_generation p) \<noteq> ro_activated_generation r) ProgressMismatch)"

definition read_progress_file :: "engine_env \<Rightarrow> rollout_progress \<Rightarrow> store_error + rollout_progress" where
  "read_progress_file env p =
     and_then (ok_or (to_vec (progress_codec env) p) ProgressFileTooLarge) (\<lambda>b.
     and_then (fail_if (length b > MAX_ROLLOUT_PROGRESS_BYTES) ProgressFileTooLarge) (\<lambda>_.
     and_then (map_err ProgressFailed (validate_progress (progress_codec env) p)) (\<lambda>_. Inr p)))"

definition write_progress_file :: "engine_env \<Rightarrow> string \<Rightarrow> rollout_progress \<Rightarrow> unit act" where
  "write_progress_file env stack p st =
     (case and_then (map_err ProgressFailed (validate_progress (progress_codec env) p)) (\<lambda>_.
           and_then (ok_or (to_vec (progress_codec env) p) (ProgressFailed ProgressNotSerializable)) (\<lambda>b.
           fail_if (length b > MAX_ROLLOUT_PROGRESS_BYTES) ProgressFileTooLarge)) of
        Inl e \<Rightarrow> (Inl e, st)
      | Inr _ \<Rightarrow> (Inr (), set_dir stack (\<lambda>d. d\<lparr>sd_progress := Some p\<rparr>) st))"

definition store_rollout_progress :: "engine_env \<Rightarrow> string \<Rightarrow> rollout_progress option act" where
  "store_rollout_progress env stack =
     act_then (pure_act (fail_if (\<not> valid_name stack) StackNameInvalid)) (\<lambda>_.
     act_then (query (\<lambda>st. Inr (sd_progress (dir_of st stack)))) (\<lambda>file.
     case file of
       None \<Rightarrow> pure_act (Inr None)
     | Some f \<Rightarrow>
         act_then (pure_act (read_progress_file env f)) (\<lambda>p.
         act_then (pure_act (fail_if (rp_stack p \<noteq> stack) ProgressForeign)) (\<lambda>_.
         act_then (rollout env stack) (\<lambda>found.
         act_then (pure_act (ok_or found ProgressWithoutCheckpoint)) (\<lambda>r.
         act_then (pure_act (validate_progress_against_rollout env p r)) (\<lambda>_.
         pure_act (Inr (Some p)))))))))"

definition begin_rollout_progress :: "engine_env \<Rightarrow> string \<Rightarrow> string \<Rightarrow> nat \<Rightarrow> rollout_progress act" where
  "begin_rollout_progress env stack identity now_ms =
     act_then (store_rollout_progress env stack) (\<lambda>existing.
     case existing of
       Some p \<Rightarrow> if rp_rollout_id p = identity then pure_act (Inr p) else pure_act (Inl ProgressOfAnother)
     | None \<Rightarrow>
         act_then (rollout env stack) (\<lambda>found.
         act_then (pure_act (ok_or found NoRolloutCheckpoint)) (\<lambda>r.
         act_then (pure_act (fail_if (ro_rollout_id r \<noteq> identity) RolloutIdentityMismatch)) (\<lambda>_.
         act_then (pure_act (map_err ProgressFailed (from_rollout (renv env) (progress_codec env) r now_ms))) (\<lambda>p.
         act_then (write_progress_file env stack p) (\<lambda>_. pure_act (Inr p)))))))"

definition save_rollout_progress :: "engine_env \<Rightarrow> rollout_progress \<Rightarrow> unit act" where
  "save_rollout_progress env p =
     act_then (pure_act (map_err ProgressFailed (validate_progress (progress_codec env) p))) (\<lambda>_.
     act_then (rollout env (rp_stack p)) (\<lambda>found.
     act_then (pure_act (ok_or found ProgressWithoutCheckpoint)) (\<lambda>r.
     act_then (pure_act (validate_progress_against_rollout env p r)) (\<lambda>_.
     write_progress_file env (rp_stack p) p))))"

definition remove_terminal_rollout_progress :: "engine_env \<Rightarrow> rollout_record \<Rightarrow> unit act" where
  "remove_terminal_rollout_progress env r =
     act_then (pure_act (fail_if (\<not> rollout_terminal r) ActiveProgressKept)) (\<lambda>_.
     act_then (pure_act (fail_if (\<not> valid_name (ro_stack r)) StackNameInvalid)) (\<lambda>_.
     act_then (query (\<lambda>st. Inr (sd_progress (dir_of st (ro_stack r))))) (\<lambda>file.
     case file of
       None \<Rightarrow> pure_act (Inr ())
     | Some f \<Rightarrow>
         act_then (pure_act (read_progress_file env f)) (\<lambda>p.
         act_then (pure_act (validate_progress_against_rollout env p r)) (\<lambda>_.
         (\<lambda>st. (Inr (), set_dir (ro_stack r) (\<lambda>d. d\<lparr>sd_progress := None\<rparr>) st)))))))"

section \<open>Archived rollouts\<close>

definition archive_entry :: "engine_env \<Rightarrow> nat \<times> nat \<Rightarrow> string \<times> rollout_record \<Rightarrow> store_error + nat \<times> nat" where
  "archive_entry env acc f =
     (case acc of (count, total_bytes) \<Rightarrow> case f of (identity, r) \<Rightarrow>
      and_then (ok_or (to_vec (record_codec env) r) ArchiveUnexpected) (\<lambda>b.
      if is_digest identity \<and> length b \<le> MAX_ROLLOUT_BYTES then
        and_then (ok_or (checked_add 64 count 1) ArchiveCountOverflow) (\<lambda>n.
        and_then (ok_or (checked_add 64 total_bytes (length b)) ArchiveBytesOverflow) (\<lambda>m. Inr (n, m)))
      else Inl ArchiveUnexpected))"

definition archive_rollout :: "engine_env \<Rightarrow> rollout_record \<Rightarrow> unit act" where
  "archive_rollout env r st =
     (let files = sd_archive (dir_of st (ro_stack r)) in
      case and_then (fail_if (\<not> rollout_terminal r) ActiveNotArchivable) (\<lambda>_.
           and_then (try_fold (archive_entry env) (0, 0) files) (\<lambda>(count, total_bytes).
           case bt_get files (ro_rollout_id r) of
             Some f \<Rightarrow>
               and_then (read_rollout_file env f) (\<lambda>f'.
               and_then (fail_if (f' \<noteq> r) ArchiveCollision) (\<lambda>_. Inr False))
           | None \<Rightarrow>
               and_then (ok_or (to_vec (record_codec env) r) (RolloutFailed RolloutNotSerializable)) (\<lambda>b.
               and_then (fail_if (count \<ge> MAX_ROLLOUT_HISTORY \<or>
                   (case checked_add 64 total_bytes (length b) of None \<Rightarrow> True
                    | Some n \<Rightarrow> n > MAX_ROLLOUT_HISTORY_BYTES)) HistoryLimit) (\<lambda>_. Inr True)))) of
        Inl e \<Rightarrow> (Inl e, st)
      | Inr write \<Rightarrow> (Inr (), if write
          then set_dir (ro_stack r) (\<lambda>d. d\<lparr>sd_archive := bt_insert (ro_rollout_id r) r (sd_archive d)\<rparr>) st else st))"

section \<open>Observed state\<close>

definition read_runtime_status :: "engine_env \<Rightarrow> runtime_status \<Rightarrow> store_error + runtime_status" where
  "read_runtime_status env s =
     and_then (ok_or (to_vec (runtime_codec env) s) RuntimeTooLarge) (\<lambda>b.
     and_then (fail_if (length b > MAX_RUNTIME_STATUS_BYTES) RuntimeTooLarge) (\<lambda>_.
     and_then (map_err RuntimeFailed (validate_status (runtime_codec env) s)) (\<lambda>_. Inr s)))"

definition against :: "engine_env \<Rightarrow> runtime_status \<Rightarrow> stack_plan \<Rightarrow> nat \<Rightarrow> string \<Rightarrow> store_error + unit" where
  "against env s plan revision generation =
     map_err RuntimeFailed (validate_against (plan_codec env) (runtime_codec env) (version_valid env) s plan revision generation)"

definition store_runtime_status :: "engine_env \<Rightarrow> engine_store \<Rightarrow> string \<Rightarrow> store_error + runtime_status option" where
  "store_runtime_status env st stack =
     and_then (desired_plan env st stack) (\<lambda>desired.
     case desired of
       None \<Rightarrow> Inr None
     | Some (revision, generation, plan) \<Rightarrow>
         and_then (fail_if (\<not> valid_name stack \<or> \<not> is_digest generation) GenerationInvalid) (\<lambda>_.
         case bt_get (sd_generations (dir_of st stack)) generation of
           Some f \<Rightarrow>
             and_then (read_runtime_status env f) (\<lambda>s.
             and_then (against env s plan revision generation) (\<lambda>_. Inr (Some s)))
         | None \<Rightarrow>
             (case sd_runtime (dir_of st stack) of
                None \<Rightarrow> Inr None
              | Some f \<Rightarrow>
                  and_then (read_runtime_status env f) (\<lambda>s.
                  if rs_revision s \<noteq> revision \<or> rs_generation s \<noteq> generation then Inr None
                  else and_then (against env s plan revision generation) (\<lambda>_. Inr (Some s))))))"

definition store_health :: "engine_env \<Rightarrow> engine_store \<Rightarrow> string \<Rightarrow> nat \<Rightarrow> store_error + health_report" where
  "store_health env st stack now_ms =
     and_then (store_status env st stack) (\<lambda>status.
     and_then (store_runtime_status env st stack) (\<lambda>runtime.
     map_err HealthFailed (from_status (report_codec env) (runtime_codec env) status runtime now_ms)))"

definition health_all :: "engine_env \<Rightarrow> engine_store \<Rightarrow> nat \<Rightarrow> store_error + health_report list" where
  "health_all env st now_ms =
     and_then (store_list env st) (\<lambda>statuses.
     and_then (fail_if (length statuses > MAX_ENGINE_HEALTH_REPORTS) HealthInventoryTooLarge) (\<lambda>_.
     and_then (try_map (\<lambda>status.
         and_then (store_runtime_status env st (st_stack status)) (\<lambda>runtime.
         map_err HealthFailed (from_status (report_codec env) (runtime_codec env) status runtime now_ms))) statuses) (\<lambda>reports.
     let sorted_reports = sort_key hr_stack reports in
     and_then (map_err HealthFailed (validate_health_reports (report_codec env) sorted_reports)) (\<lambda>_.
     Inr sorted_reports))))"

definition save_runtime_status :: "engine_env \<Rightarrow> runtime_status \<Rightarrow> unit act" where
  "save_runtime_status env s st =
     (case and_then (map_err RuntimeFailed (validate_status (runtime_codec env) s)) (\<lambda>_.
           and_then (desired_plan env st (rs_stack s)) (\<lambda>desired.
           and_then (ok_or desired RemovedRuntime) (\<lambda>(revision, generation, plan).
           and_then (against env s plan revision generation) (\<lambda>_.
           and_then (ok_or (to_vec (runtime_codec env) s) (RuntimeFailed StatusNotSerializable)) (\<lambda>b.
           fail_if (length b > MAX_RUNTIME_STATUS_BYTES) RuntimeTooLarge))))) of
        Inl e \<Rightarrow> (Inl e, st)
      | Inr _ \<Rightarrow> (Inr (), set_dir (rs_stack s) (\<lambda>d. d\<lparr>sd_runtime := Some s\<rparr>) st))"

text \<open>The status kept from a file if it belongs to the generation, a fresh one otherwise.\<close>

definition kept_or_fresh ::
    "engine_env \<Rightarrow> runtime_status option \<Rightarrow> stack_plan \<Rightarrow> nat \<Rightarrow> string \<Rightarrow> nat \<Rightarrow> store_error + runtime_status" where
  "kept_or_fresh env file plan revision generation now_ms =
     (let fresh = map_err RuntimeFailed
        (from_plan (plan_codec env) (runtime_codec env) (version_valid env) plan revision generation now_ms)
      in case file of
           None \<Rightarrow> fresh
         | Some f \<Rightarrow> and_then (read_runtime_status env f) (\<lambda>s.
             if against env s plan revision generation = Inr () then Inr s else fresh))"

definition recovered :: "engine_env \<Rightarrow> nat \<Rightarrow> runtime_status \<Rightarrow> store_error + runtime_status" where
  "recovered env now_ms s =
     (case recover_interrupted (runtime_codec env) (backoff_hash env) now_ms s of
        (Inl e, _) \<Rightarrow> Inl (RuntimeFailed e) | (Inr _, s') \<Rightarrow> Inr s')"

definition prepare_runtime_status :: "engine_env \<Rightarrow> string \<Rightarrow> nat \<Rightarrow> runtime_status act" where
  "prepare_runtime_status env stack now_ms =
     act_then (query (\<lambda>st. desired_plan env st stack)) (\<lambda>desired.
     act_then (pure_act (ok_or desired NoRuntimeGeneration)) (\<lambda>(revision, generation, plan).
     act_then (query (\<lambda>st. kept_or_fresh env (sd_runtime (dir_of st stack)) plan revision generation now_ms)) (\<lambda>s.
     act_then (pure_act (recovered env now_ms s)) (\<lambda>s'.
     act_then (save_runtime_status env s') (\<lambda>_. pure_act (Inr s'))))))"

section \<open>Rollouts\<close>

definition prepare_fresh :: "engine_env \<Rightarrow> stack_plan \<Rightarrow> nat \<Rightarrow> rollout_record act" where
  "prepare_fresh env plan now_ms =
     act_then (query (\<lambda>st. latest env st (pl_stack plan))) (\<lambda>previous.
     act_then (stack_limit_reached env previous) (\<lambda>_.
     act_then (pure_act (fail_if (already_applied plan previous) CandidateAlreadyDesired)) (\<lambda>_.
     act_then (pure_act (map_err RolloutFailed (new_rollout (renv env) plan previous now_ms))) (\<lambda>r.
     act_then (write_rollout_file env (pl_stack plan) r) (\<lambda>_. pure_act (Inr r))))))"

definition still_committed :: "engine_env \<Rightarrow> stack_plan \<Rightarrow> rollout_record \<Rightarrow> bool act" where
  "still_committed env plan current =
     (if ro_phase current = Committed \<and> pl_plan_sha256 (ro_candidate_plan current) = pl_plan_sha256 plan
      then act_then (query (\<lambda>st. latest env st (pl_stack plan))) (\<lambda>e.
        pure_act (Inr (ensure_matches_activation current e = Inr ())))
      else pure_act (Inr False))"

definition prepare_rollout :: "engine_env \<Rightarrow> stack_plan \<Rightarrow> bool \<Rightarrow> nat \<Rightarrow> rollout_record act" where
  "prepare_rollout env plan allow_insecure now_ms =
     act_then (pure_act (map_err StorePlanInvalid (validate_plan (plan_codec env) (version_valid env) plan))) (\<lambda>_.
     act_then (pure_act (fail_if (ss_sandbox (pl_security plan) = Disabled \<and> \<not> allow_insecure) InsecureUnconfirmed)) (\<lambda>_.
     act_then (rollout env (pl_stack plan)) (\<lambda>existing.
     case existing of
       None \<Rightarrow> prepare_fresh env plan now_ms
     | Some current \<Rightarrow>
         if rollout_active current then
           (if ro_phase current = Prepared \<and> pl_plan_sha256 (ro_candidate_plan current) = pl_plan_sha256 plan
            then pure_act (Inr current) else pure_act (Inl AlreadyActiveRollout))
         else
           act_then (still_committed env plan current) (\<lambda>committed.
           if committed then pure_act (Inr current)
           else
             act_then (remove_terminal_rollout_progress env current) (\<lambda>_.
             act_then (archive_rollout env current) (\<lambda>_. prepare_fresh env plan now_ms))))))"

definition activate_rollout :: "engine_env \<Rightarrow> nat \<Rightarrow> string \<Rightarrow> string \<Rightarrow> nat \<Rightarrow> rollout_record act" where
  "activate_rollout env clock stack identity now_ms =
     act_then (require_rollout env stack identity) (\<lambda>r.
     if ro_phase r = Activated then pure_act (Inr r)
     else if ro_phase r \<noteq> Prepared then pure_act (Inl NotPreparedForActivation)
     else
       act_then (pure_act (map_err RolloutFailed (ensure_time_advances r now_ms))) (\<lambda>_.
       act_then (query (\<lambda>st. latest env st stack)) (\<lambda>previous.
       act_then (pure_act (map_err RolloutFailed (ensure_matches_previous r previous))) (\<lambda>_.
       act_then (append_next env clock previous ApplyEvent (Some (ro_candidate_plan r))) (\<lambda>e.
       act_then (pure_act (map_err RolloutFailed (refresh_rollout (renv env) (activated_by e now_ms r)))) (\<lambda>r'.
       act_then (write_rollout_file env stack r') (\<lambda>_. pure_act (Inr r'))))))))"

definition replica_stable :: "nat \<Rightarrow> replica_runtime \<Rightarrow> bool" where
  "replica_stable now_ms r =
     (case rr_phase r of
        RunningPhase \<Rightarrow>
          (case (case rr_probe r of None \<Rightarrow> rr_started_at r | Some p \<Rightarrow> pr_ready_at p) of
             None \<Rightarrow> False | Some started \<Rightarrow> now_ms - started \<ge> ROLLOUT_STABILITY_WINDOW_MS)
      | Succeeded \<Rightarrow> True
      | StoppedPhase \<Rightarrow> rr_desired r = Stopped
      | _ \<Rightarrow> False)"

definition committed_with :: "string \<Rightarrow> nat \<Rightarrow> rollout_record \<Rightarrow> rollout_record" where
  "committed_with digest now_ms r =
     r\<lparr>ro_phase := Committed, ro_updated_at := now_ms, ro_health_report_sha256 := Some digest\<rparr>"

definition commit_rollout :: "engine_env \<Rightarrow> string \<Rightarrow> string \<Rightarrow> nat \<Rightarrow> rollout_record act" where
  "commit_rollout env stack identity now_ms =
     act_then (require_rollout env stack identity) (\<lambda>r.
     if ro_phase r = Committed then pure_act (Inr r)
     else if ro_phase r \<noteq> Activated then pure_act (Inl NotActiveForCommit)
     else
       act_then (pure_act (map_err RolloutFailed (ensure_time_advances r now_ms))) (\<lambda>_.
       act_then (query (\<lambda>st. latest env st stack)) (\<lambda>current.
       act_then (pure_act (map_err RolloutFailed (ensure_matches_activation r current))) (\<lambda>_.
       act_then (query (\<lambda>st. store_health env st stack now_ms)) (\<lambda>h.
       let stopped_candidate = hr_state h = StoppedState \<and> hr_desired_replicas h = 0 \<and>
             list_all (\<lambda>i. pi_desired i = Stopped) (pl_instances (ro_candidate_plan r)) in
       act_then (pure_act (fail_if (\<not> health_ready h \<and> \<not> stopped_candidate) HealthNotReady)) (\<lambda>_.
       act_then
         (if hr_state h = HealthyState then
            act_then (query (\<lambda>st. store_runtime_status env st stack)) (\<lambda>runtime.
            act_then (pure_act (ok_or runtime NoObservedRuntime)) (\<lambda>s.
            pure_act (fail_if (\<not> list_all (replica_stable now_ms) (rs_replicas s)) NotStableYet)))
          else pure_act (Inr ())) (\<lambda>_.
       act_then (pure_act (map_err RolloutFailed
         (refresh_rollout (renv env) (committed_with (hr_report_sha256 h) now_ms r)))) (\<lambda>r'.
       act_then (write_rollout_file env stack r') (\<lambda>_. pure_act (Inr r'))))))))))"

definition cancelled_at :: "nat \<Rightarrow> rollout_record \<Rightarrow> rollout_record" where
  "cancelled_at now_ms r = r\<lparr>ro_phase := Cancelled, ro_updated_at := now_ms\<rparr>"

definition rollback_rollout :: "engine_env \<Rightarrow> nat \<Rightarrow> string \<Rightarrow> string \<Rightarrow> nat \<Rightarrow> rollout_record act" where
  "rollback_rollout env clock stack identity now_ms =
     act_then (require_rollout env stack identity) (\<lambda>r.
     if ro_phase r = Cancelled \<or> ro_phase r = RolledBack then pure_act (Inr r)
     else
       act_then (pure_act (map_err RolloutFailed (ensure_time_advances r now_ms))) (\<lambda>_.
       if ro_phase r = Prepared then
         act_then (query (\<lambda>st. latest env st stack)) (\<lambda>current.
         act_then (pure_act (map_err RolloutFailed (ensure_matches_previous r current))) (\<lambda>_.
         act_then (pure_act (map_err RolloutFailed (refresh_rollout (renv env) (cancelled_at now_ms r)))) (\<lambda>r'.
         act_then (write_rollout_file env stack r') (\<lambda>_. pure_act (Inr r')))))
       else if ro_phase r \<noteq> Activated \<and> ro_phase r \<noteq> Committed then pure_act (Inl CannotRollBack)
       else
         act_then (query (\<lambda>st. latest env st stack)) (\<lambda>current.
         act_then (pure_act (map_err RolloutFailed (ensure_matches_activation r current))) (\<lambda>_.
         act_then (pure_act (map_err RolloutFailed (rollback_target r))) (\<lambda>(kind, plan).
         act_then (append_next env clock current kind plan) (\<lambda>e.
         act_then (pure_act (map_err RolloutFailed (refresh_rollout (renv env) (rolled_back_by e now_ms r)))) (\<lambda>r'.
         act_then (write_rollout_file env stack r') (\<lambda>_. pure_act (Inr r')))))))))"

section \<open>Authorised generations\<close>

record engine_generation_target =
  gt_stack :: string
  gt_revision :: nat
  gt_generation :: string
  gt_role :: generation_role
  gt_rollout_id :: "string option"
  gt_plan :: stack_plan

definition validate_target :: "engine_env \<Rightarrow> engine_generation_target \<Rightarrow> store_error + unit" where
  "validate_target env t =
     and_then (map_err StorePlanInvalid (validate_plan (plan_codec env) (version_valid env) (gt_plan t))) (\<lambda>_.
     let rollout_identity_valid = (case gt_role t of
           DesiredRole \<Rightarrow> gt_rollout_id t = None
         | _ \<Rightarrow> (case gt_rollout_id t of None \<Rightarrow> False | Some v \<Rightarrow> is_digest v))
     in fail_if (\<not> valid_name (gt_stack t) \<or> gt_revision t = 0 \<or> \<not> is_digest (gt_generation t) \<or>
          pl_stack (gt_plan t) \<noteq> gt_stack t \<or> \<not> rollout_identity_valid) TargetInvalid)"

definition desired_target ::
    "string \<Rightarrow> string \<Rightarrow> nat \<Rightarrow> stack_plan \<Rightarrow> rollout_record option \<Rightarrow> engine_generation_target" where
  "desired_target stack generation revision plan r =
     (let active = (case r of Some v \<Rightarrow>
            if ro_phase v = Activated \<and> ro_activated_generation v = Some generation then Some v else None
          | None \<Rightarrow> None)
      in \<lparr>gt_stack = stack, gt_revision = revision, gt_generation = generation,
          gt_role = (if active \<noteq> None then RolloutCandidate else DesiredRole),
          gt_rollout_id = map_option ro_rollout_id active, gt_plan = plan\<rparr>)"

definition previous_target ::
    "string \<Rightarrow> string \<Rightarrow> rollout_record option \<Rightarrow> store_error + engine_generation_target option" where
  "previous_target stack generation r =
     (case r of None \<Rightarrow> Inr None | Some v \<Rightarrow>
        if ro_phase v = Activated \<and> ro_previous_state v = Some Applied \<and> ro_previous_generation v = Some generation then
          and_then (ok_or (ro_previous_revision v) PreviousRevisionMissing) (\<lambda>revision.
          and_then (ok_or (ro_previous_plan v) PreviousTargetPlanMissing) (\<lambda>plan.
          Inr (Some \<lparr>gt_stack = stack, gt_revision = revision, gt_generation = generation,
            gt_role = RolloutPrevious, gt_rollout_id = Some (ro_rollout_id v), gt_plan = plan\<rparr>)))
        else Inr None)"

definition target_for ::
    "string \<Rightarrow> string \<Rightarrow> (nat \<times> string \<times> stack_plan) option \<Rightarrow> rollout_record option \<Rightarrow> store_error + engine_generation_target option" where
  "target_for stack generation desired r =
     (case desired of
        Some (revision, current, plan) \<Rightarrow>
          if current = generation then Inr (Some (desired_target stack generation revision plan r))
          else previous_target stack generation r
      | None \<Rightarrow> previous_target stack generation r)"

definition generation_target :: "engine_env \<Rightarrow> string \<Rightarrow> string \<Rightarrow> engine_generation_target option act" where
  "generation_target env stack generation =
     act_then (pure_act (fail_if (\<not> valid_name stack \<or> \<not> is_digest generation) GenerationInvalid)) (\<lambda>_.
     act_then (query (\<lambda>st. desired_plan env st stack)) (\<lambda>desired.
     act_then (rollout env stack) (\<lambda>r.
     act_then (pure_act (target_for stack generation desired r)) (\<lambda>found.
     case found of
       None \<Rightarrow> pure_act (Inr None)
     | Some t \<Rightarrow> act_then (pure_act (validate_target env t)) (\<lambda>_. pure_act (Inr (Some t)))))))"

text \<open>\<^verbatim>\<open>generation_targets\<close>: the desired generation and, during a rollout, the previous one, in order of
  their digests without repetition.\<close>

fun dedup_targets :: "engine_generation_target list \<Rightarrow> engine_generation_target list" where
  "dedup_targets (a # b # ts) =
     (if gt_generation a = gt_generation b then dedup_targets (a # ts) else a # dedup_targets (b # ts))"
| "dedup_targets ts = ts"

definition generation_targets :: "engine_env \<Rightarrow> string \<Rightarrow> engine_generation_target list act" where
  "generation_targets env stack =
     act_then (pure_act (fail_if (\<not> valid_name stack) StackNameInvalid)) (\<lambda>_.
     act_then (query (\<lambda>st. desired_plan env st stack)) (\<lambda>desired.
     act_then (case desired of None \<Rightarrow> pure_act (Inr None)
       | Some (_, generation, _) \<Rightarrow> generation_target env stack generation) (\<lambda>first.
     act_then (rollout env stack) (\<lambda>r.
     act_then (case r of None \<Rightarrow> pure_act (Inr None)
       | Some v \<Rightarrow>
           if ro_phase v = Activated \<and> ro_previous_state v = Some Applied then
             (case ro_previous_generation v of None \<Rightarrow> pure_act (Inr None)
              | Some generation \<Rightarrow> generation_target env stack generation)
           else pure_act (Inr None)) (\<lambda>second.
     pure_act (Inr (dedup_targets (sort_key gt_generation (somes [first, second])))))))))"

definition save_runtime_status_for_generation :: "engine_env \<Rightarrow> runtime_status \<Rightarrow> unit act" where
  "save_runtime_status_for_generation env s =
     act_then (pure_act (map_err RuntimeFailed (validate_status (runtime_codec env) s))) (\<lambda>_.
     act_then (generation_target env (rs_stack s) (rs_generation s)) (\<lambda>found.
     act_then (pure_act (ok_or found GenerationNotAuthorized)) (\<lambda>t.
     act_then (pure_act (against env s (gt_plan t) (gt_revision t) (gt_generation t))) (\<lambda>_.
     act_then (pure_act (ok_or (to_vec (runtime_codec env) s) (RuntimeFailed StatusNotSerializable))) (\<lambda>b.
     act_then (pure_act (fail_if (length b > MAX_RUNTIME_STATUS_BYTES) RuntimeTooLarge)) (\<lambda>_.
     (\<lambda>st. (Inr (), set_dir (rs_stack s)
       (\<lambda>d. d\<lparr>sd_generations := bt_insert (rs_generation s) s (sd_generations d)\<rparr>) st))))))))"

definition runtime_status_for_generation :: "engine_env \<Rightarrow> string \<Rightarrow> string \<Rightarrow> runtime_status option act" where
  "runtime_status_for_generation env stack generation =
     act_then (generation_target env stack generation) (\<lambda>found.
     case found of None \<Rightarrow> pure_act (Inr None) | Some t \<Rightarrow>
       act_then (query (\<lambda>st. Inr (bt_get (sd_generations (dir_of st stack)) generation))) (\<lambda>file.
       case file of None \<Rightarrow> pure_act (Inr None) | Some f \<Rightarrow>
         act_then (pure_act (read_runtime_status env f)) (\<lambda>s.
         act_then (pure_act (against env s (gt_plan t) (gt_revision t) (gt_generation t))) (\<lambda>_.
         pure_act (Inr (Some s))))))"

definition prepare_runtime_status_for_generation ::
    "engine_env \<Rightarrow> string \<Rightarrow> string \<Rightarrow> nat \<Rightarrow> runtime_status act" where
  "prepare_runtime_status_for_generation env stack generation now_ms =
     act_then (generation_target env stack generation) (\<lambda>found.
     act_then (pure_act (ok_or found GenerationNotAuthorized)) (\<lambda>t.
     act_then (query (\<lambda>st.
       (let own = bt_get (sd_generations (dir_of st stack)) generation;
            file = (if own = None then sd_runtime (dir_of st stack) else own)
        in kept_or_fresh env file (gt_plan t) (gt_revision t) (gt_generation t) now_ms))) (\<lambda>s.
     act_then (pure_act (recovered env now_ms s)) (\<lambda>s'.
     act_then (save_runtime_status_for_generation env s') (\<lambda>_. pure_act (Inr s'))))))"

end
