(* ===== verification/Decimal.thy ===== *)
theory Decimal
  imports Prelude
begin

text \<open>
  The decimal printing of unsigned integers (\<^verbatim>\<open>Display\<close> of \<^verbatim>\<open>u16\<close> and \<^verbatim>\<open>usize\<close>), which the engine and the
  resolver put into names.  Shown here: it is injective and prints digits only.
\<close>

fun decimal :: "nat \<Rightarrow> string" where
  "decimal n = (if n < 10 then [char_of (48 + n)] else decimal (n div 10) @ [char_of (48 + n mod 10)])"

declare decimal.simps [simp del]

lemma decimal_digits: "c \<in> set (decimal n) \<Longrightarrow> c \<noteq> CHR ''-''"
proof (induction n rule: decimal.induct)
  case (1 n)
  have "char_of (48 + k) \<noteq> CHR ''-''" if "k < 10" for k :: nat
  proof
    assume "char_of (48 + k) = CHR ''-''"
    then have "of_char (char_of (48 + k) :: char) = (of_char CHR ''-'' :: nat)" by simp
    with that show False by simp
  qed
  then have digit: "char_of (48 + n) \<noteq> CHR ''-''" if "n < 10" using that by blast
  have low: "char_of (48 + n mod 10) \<noteq> CHR ''-''" using \<open>\<And>k. k < 10 \<Longrightarrow> char_of (48 + k) \<noteq> CHR ''-''\<close> [of "n mod 10"] by simp
  show ?case
  proof (cases "n < 10")
    case True
    with "1.prems" digit show ?thesis by (simp add: decimal.simps [of n])
  next
    case False
    then have "c \<in> set (decimal (n div 10)) \<or> c = char_of (48 + n mod 10)"
      using "1.prems" by (simp add: decimal.simps [of n]) blast
    with "1.IH" [OF False] low show ?thesis by metis
  qed
qed

lemma decimal_inject: "decimal m = decimal n \<Longrightarrow> m = n"
proof (induction m arbitrary: n rule: decimal.induct)
  case (1 m)
  have inj: "char_of (48 + a) = (char_of (48 + b) :: char) \<Longrightarrow> a = b" if "a < 10" "b < 10" for a b :: nat
  proof -
    assume "char_of (48 + a) = (char_of (48 + b) :: char)"
    then have "of_char (char_of (48 + a) :: char) = (of_char (char_of (48 + b) :: char) :: nat)" by simp
    with that show "a = b" by simp
  qed
  have long: "decimal k \<noteq> []" for k by (subst decimal.simps) simp
  consider "m < 10" "n < 10" | "m < 10" "\<not> n < 10" | "\<not> m < 10" "n < 10" | "\<not> m < 10" "\<not> n < 10" by blast
  then show ?case
  proof cases
    case 1
    with \<open>decimal m = decimal n\<close> inj show ?thesis by (simp add: decimal.simps)
  next
    case 2
    with \<open>decimal m = decimal n\<close> long [of "n div 10"] show ?thesis by (auto simp: decimal.simps [of m] decimal.simps [of n])
  next
    case 3
    with \<open>decimal m = decimal n\<close> long [of "m div 10"] show ?thesis by (auto simp: decimal.simps [of m] decimal.simps [of n])
  next
    case 4
    then have "decimal (m div 10) = decimal (n div 10)" "char_of (48 + m mod 10) = (char_of (48 + n mod 10) :: char)"
      using \<open>decimal m = decimal n\<close> by (simp_all add: decimal.simps [of m] decimal.simps [of n])
    with 4 "1.IH" inj have "m div 10 = n div 10" "m mod 10 = n mod 10" by auto
    then show ?thesis by (metis div_mult_mod_eq)
  qed
qed

end
