(* ===== verification/Engine_Routing.thy ===== *)
theory Engine_Routing
  imports Engine_Store Decimal
begin

text \<open>
  Routing on the engine store (\<^verbatim>\<open>EngineStore\<close> of \<^verbatim>\<open>crates/cartridge-engine/src/routing.rs\<close> and
  \<^verbatim>\<open>invocation.rs\<close>): collecting the routable replicas of the authorised generations, publishing and reading the
  routing snapshot of a stack, and the channel directory of a replica.  The random epoch of a first
  publication is the argument \<open>epoch\<close>.
\<close>

section \<open>Targets\<close>

fun act_fold :: "('a \<Rightarrow> 'b \<Rightarrow> 'a act) \<Rightarrow> 'a \<Rightarrow> 'b list \<Rightarrow> 'a act" where
  "act_fold f acc [] = pure_act (Inr acc)"
| "act_fold f acc (x # xs) = act_then (f acc x) (\<lambda>acc'. act_fold f acc' xs)"

definition active_routing_progress :: "engine_env \<Rightarrow> string \<Rightarrow> rollout_progress option act" where
  "active_routing_progress env stack =
     act_then (rollout env stack) (\<lambda>r.
     if (case r of None \<Rightarrow> False | Some v \<Rightarrow> ro_phase v = Activated) then store_rollout_progress env stack
     else pure_act (Inr None))"

definition generation_routes ::
    "engine_env \<Rightarrow> string \<Rightarrow> rollout_progress option \<Rightarrow> route_target list \<Rightarrow> engine_generation_target \<Rightarrow> route_target list act" where
  "generation_routes env stack progress targets g =
     act_then (runtime_status_for_generation env stack (gt_generation g)) (\<lambda>runtime.
     case runtime of
       None \<Rightarrow> pure_act (Inr targets)
     | Some s \<Rightarrow> pure_act (map_err RoutingFailed (append_ready_targets (gt_revision g) (gt_generation g)
         (routing_controls (gt_role g) progress) targets s)))"

definition routing_targets ::
    "engine_env \<Rightarrow> string \<Rightarrow> rollout_progress option \<Rightarrow> (string option \<times> route_target list) act" where
  "routing_targets env stack progress =
     act_then (rollout env stack) (\<lambda>r.
     let active = (case r of None \<Rightarrow> None | Some v \<Rightarrow> if ro_phase v = Activated then Some v else None) in
     act_then (case progress of
         None \<Rightarrow> pure_act (Inr ())
       | Some p \<Rightarrow>
           act_then (pure_act (ok_or active RoutingWithoutRollout)) (\<lambda>a.
           pure_act (fail_if (ro_rollout_id a \<noteq> rp_rollout_id p \<or> rp_stack p \<noteq> stack) RoutingOfAnother))) (\<lambda>_.
     act_then (generation_targets env stack) (\<lambda>gs.
     act_then (act_fold (generation_routes env stack progress) [] gs) (\<lambda>targets.
     act_then (pure_act (fail_if (length targets > MAX_STACK_TOTAL_ACTIVE_REPLICAS) RouteLimitExceeded)) (\<lambda>_.
     pure_act (Inr (map_option ro_rollout_id active, sort_key target_key targets)))))))"

section \<open>Snapshots\<close>

definition read_routing_file :: "engine_env \<Rightarrow> routing_snapshot \<Rightarrow> store_error + routing_snapshot" where
  "read_routing_file env s =
     and_then (ok_or (to_vec (routing_codec env) s) RoutingFileTooLarge) (\<lambda>b.
     and_then (fail_if (length b > MAX_ENGINE_ROUTING_BYTES) RoutingFileTooLarge) (\<lambda>_.
     and_then (map_err RoutingFailed (validate_snapshot (routing_codec env) s)) (\<lambda>_. Inr s)))"

definition write_routing_file :: "engine_env \<Rightarrow> string \<Rightarrow> routing_snapshot \<Rightarrow> unit act" where
  "write_routing_file env stack s st =
     (case and_then (map_err RoutingFailed (validate_snapshot (routing_codec env) s)) (\<lambda>_.
           and_then (ok_or (to_vec (routing_codec env) s) (RoutingFailed RoutingNotSerializable)) (\<lambda>b.
           fail_if (length b > MAX_ENGINE_ROUTING_BYTES) RoutingFileTooLarge)) of
        Inl e \<Rightarrow> (Inl e, st)
      | Inr _ \<Rightarrow> (Inr (), set_dir stack (\<lambda>d. d\<lparr>sd_routes := Some s\<rparr>) st))"

text \<open>A snapshot that cannot be read is removed, so that a fresh epoch is published.\<close>

definition routing_snapshot_for_publish :: "engine_env \<Rightarrow> string \<Rightarrow> routing_snapshot option act" where
  "routing_snapshot_for_publish env stack st =
     (case sd_routes (dir_of st stack) of
        None \<Rightarrow> (Inr None, st)
      | Some f \<Rightarrow>
          (case read_routing_file env f of
             Inr s \<Rightarrow> (Inr (Some s), st)
           | Inl _ \<Rightarrow> (Inr None, set_dir stack (\<lambda>d. d\<lparr>sd_routes := None\<rparr>) st)))"

definition next_snapshot ::
    "string \<Rightarrow> string \<Rightarrow> routing_snapshot option \<Rightarrow> nat \<Rightarrow> nat \<Rightarrow> string option \<Rightarrow> route_target list \<Rightarrow> routing_snapshot" where
  "next_snapshot epoch stack previous number now_ms active_id targets =
     \<lparr>rg_format_version = ENGINE_ROUTING_FORMAT_VERSION, rg_stack = stack,
      rg_routing_epoch = (case previous of None \<Rightarrow> epoch | Some v \<Rightarrow> rg_routing_epoch v),
      rg_sequence = number, rg_published_at = now_ms, rg_rollout_id = active_id, rg_targets = targets,
      rg_routing_sha256 = []\<rparr>"

definition publish_changed ::
    "engine_env \<Rightarrow> string \<Rightarrow> string \<Rightarrow> routing_snapshot option \<Rightarrow> nat \<Rightarrow> string option \<Rightarrow> route_target list
      \<Rightarrow> routing_snapshot act" where
  "publish_changed env epoch stack previous now_ms active_id targets =
     act_then (pure_act (case previous of None \<Rightarrow> Inr 1
       | Some v \<Rightarrow> ok_or (checked_add 64 (rg_sequence v) 1) RoutingSequenceOverflow)) (\<lambda>number.
     act_then (pure_act (fail_if (case previous of None \<Rightarrow> False | Some v \<Rightarrow> now_ms < rg_published_at v)
       PublicationTimeBackwards)) (\<lambda>_.
     act_then (pure_act (map_err RoutingFailed (refresh_snapshot (routing_codec env)
       (next_snapshot epoch stack previous number now_ms active_id targets)))) (\<lambda>s.
     act_then (write_routing_file env stack s) (\<lambda>_. pure_act (Inr s)))))"

definition publish_inner ::
    "engine_env \<Rightarrow> string \<Rightarrow> string \<Rightarrow> rollout_progress option \<Rightarrow> nat \<Rightarrow> routing_snapshot act" where
  "publish_inner env epoch stack progress now_ms =
     act_then (pure_act (fail_if (\<not> valid_name stack \<or> now_ms = 0) PublicationInvalid)) (\<lambda>_.
     act_then (query (\<lambda>st. store_status env st stack)) (\<lambda>_.
     act_then (routing_snapshot_for_publish env stack) (\<lambda>previous.
     act_then (routing_targets env stack progress) (\<lambda>(active_id, targets).
     case previous of
       Some v \<Rightarrow> if rg_rollout_id v = active_id \<and> rg_targets v = targets then pure_act (Inr v)
         else publish_changed env epoch stack previous now_ms active_id targets
     | None \<Rightarrow> publish_changed env epoch stack previous now_ms active_id targets))))"

definition publish_routing_snapshot :: "engine_env \<Rightarrow> string \<Rightarrow> string \<Rightarrow> nat \<Rightarrow> routing_snapshot act" where
  "publish_routing_snapshot env epoch stack now_ms =
     act_then (active_routing_progress env stack) (\<lambda>progress. publish_inner env epoch stack progress now_ms)"

definition publish_routing_snapshot_for_progress ::
    "engine_env \<Rightarrow> string \<Rightarrow> rollout_progress \<Rightarrow> nat \<Rightarrow> routing_snapshot act" where
  "publish_routing_snapshot_for_progress env epoch p now_ms =
     act_then (pure_act (map_err ProgressFailed (validate_progress (progress_codec env) p))) (\<lambda>_.
     act_then (rollout env (rp_stack p)) (\<lambda>found.
     act_then (pure_act (ok_or found RoutingWithoutCheckpoint)) (\<lambda>r.
     act_then (pure_act (fail_if (ro_phase r \<noteq> Activated \<or> ro_rollout_id r \<noteq> rp_rollout_id p \<or>
         ro_previous_revision r \<noteq> rp_previous_revision p \<or> ro_previous_generation r \<noteq> rp_previous_generation p \<or>
         ro_activated_revision r \<noteq> Some (rp_candidate_revision p) \<or>
         ro_activated_generation r \<noteq> Some (rp_candidate_generation p)) RoutingMismatch)) (\<lambda>_.
     publish_inner env epoch (rp_stack p) (Some p) now_ms))))"

definition store_routing_snapshot :: "engine_env \<Rightarrow> string \<Rightarrow> routing_snapshot option act" where
  "store_routing_snapshot env stack =
     act_then (pure_act (fail_if (\<not> valid_name stack) StackNameInvalid)) (\<lambda>_.
     act_then (query (\<lambda>st. store_status env st stack)) (\<lambda>_.
     act_then (query (\<lambda>st. Inr (sd_routes (dir_of st stack)))) (\<lambda>file.
     case file of
       None \<Rightarrow> pure_act (Inr None)
     | Some f \<Rightarrow>
         act_then (pure_act (read_routing_file env f)) (\<lambda>s.
         act_then (pure_act (fail_if (rg_stack s \<noteq> stack) RoutingForeign)) (\<lambda>_.
         act_then (active_routing_progress env stack) (\<lambda>progress.
         act_then (routing_targets env stack progress) (\<lambda>(active_id, expected).
         act_then (pure_act (fail_if (rg_rollout_id s \<noteq> active_id \<or> rg_targets s \<noteq> expected) RoutesOutdated)) (\<lambda>_.
         pure_act (Inr (Some s))))))))))"

definition route_target_is_ready :: "engine_env \<Rightarrow> string \<Rightarrow> route_target \<Rightarrow> bool act" where
  "route_target_is_ready env stack target =
     act_then (pure_act (map_err RoutingFailed (validate_route_target target))) (\<lambda>_.
     act_then (active_routing_progress env stack) (\<lambda>progress.
     act_then (routing_targets env stack progress) (\<lambda>(_, targets).
     pure_act (Inr (target \<in> set targets)))))"

section \<open>Invocation channels\<close>

text \<open>The path of a channel below the store, component by component.\<close>

definition channel_path :: "string \<Rightarrow> string \<Rightarrow> replica_id \<Rightarrow> string \<Rightarrow> string list" where
  "channel_path stack generation rid run_id =
     [''stacks'', stack, ''invocations'', generation, rid_instance rid @ ''-'' @ decimal (rid_ordinal rid), run_id]"

definition serving_instance ::
    "engine_env \<Rightarrow> string \<Rightarrow> string \<Rightarrow> string \<Rightarrow> planned_instance act" where
  "serving_instance env stack generation name =
     act_then (generation_target env stack generation) (\<lambda>found.
     act_then (pure_act (ok_or found InvocationGenerationUnknown)) (\<lambda>g.
     pure_act (ok_or (find (\<lambda>i. pi_name i = name) (pl_instances (gt_plan g))) InvocationInstanceUnknown)))"

definition replica_invocation_directory ::
    "engine_env \<Rightarrow> string \<Rightarrow> string \<Rightarrow> replica_id \<Rightarrow> string \<Rightarrow> string list act" where
  "replica_invocation_directory env stack generation rid run_id =
     act_then (pure_act (fail_if (\<not> valid_name stack \<or> \<not> is_digest generation \<or> \<not> valid_name (rid_instance rid) \<or>
         rid_ordinal rid = 0 \<or> rid_ordinal rid > MAX_STACK_REPLICAS \<or> \<not> is_digest run_id) InvocationIdentityInvalid)) (\<lambda>_.
     act_then (serving_instance env stack generation (rid_instance rid)) (\<lambda>i.
     act_then (pure_act (fail_if (rid_ordinal rid > pi_replicas i) InvocationReplicaOutside)) (\<lambda>_.
     act_then (pure_act (fail_if (Serve \<notin> pi_allowed i) ServeNotGranted)) (\<lambda>_.
     pure_act (Inr (channel_path stack generation rid run_id))))))"

definition invocation_directory :: "engine_env \<Rightarrow> string \<Rightarrow> route_target \<Rightarrow> string list act" where
  "invocation_directory env stack target =
     act_then (route_target_is_ready env stack target) (\<lambda>ready.
     act_then (pure_act (fail_if (\<not> ready) NotRoutable)) (\<lambda>_.
     act_then (serving_instance env stack (tg_generation target) (tg_instance target)) (\<lambda>i.
     act_then (pure_act (fail_if (Serve \<notin> pi_allowed i) ServeNotGranted)) (\<lambda>_.
     replica_invocation_directory env stack (tg_generation target)
       (ReplicaId (tg_instance target) (tg_ordinal target)) (tg_run_id target)))))"

end
