(* ===== verification/Engine_Runs.thy ===== *)
theory Engine_Runs
  imports Engine_Routing
begin

text \<open>
  What the operations of the engine store keep.  The interface \<open>file_relation\<close> is a reflexive and
  transitive relation between stores that replacing a document respects; the operations that append no event
  are composed of such writes, so they respect it, whether they succeed or fail.  \<open>route_relation\<close> extends it by
  the publication of routes and \<open>store_relation\<close> by the appends, so every operation respects it.  Four relations
  are put in: the journals only grow, the other stacks are left alone, a well-formed store stays well
  formed, and published routes only advance.
\<close>

section \<open>Elementary facts\<close>

lemma env_sel [simp]:
  "plan_codec (jenv env) = plan_codec env" "event_codec (jenv env) = event_codec env"
  "version_valid (jenv env) = version_valid env"
  "plan_codec (renv env) = plan_codec env" "version_valid (renv env) = version_valid env"
  "record_codec (renv env) = record_codec env" "identity_codec (renv env) = identity_codec env"
  by (simp_all add: jenv_def renv_def journal_env.defs rollout_env.defs)

lemma act_simps [simp]:
  "act_then (pure_act (Inl e)) f = pure_act (Inl e)"
  "act_then (pure_act (Inr x)) f = f x"
  by (simp_all add: act_then_def pure_act_def fun_eq_iff)

lemma act_then_Inr:
  "act_then m f st = (Inr y, st') \<longleftrightarrow> (\<exists>x st1. m st = (Inr x, st1) \<and> f x st1 = (Inr y, st'))"
  by (auto simp: act_then_def split: prod.splits sum.splits)

lemma pure_act_Inr [simp]: "pure_act r st = (Inr y, st') \<longleftrightarrow> r = Inr y \<and> st' = st"
  by (auto simp: pure_act_def)

lemma query_Inr [simp]: "query f st = (Inr y, st') \<longleftrightarrow> f st = Inr y \<and> st' = st"
  by (auto simp: query_def)

lemma dir_of_set_dir [simp]:
  "bt_ok st \<Longrightarrow> dir_of (set_dir stack f st) other = (if other = stack then f (dir_of st stack) else dir_of st other)"
  by (simp add: dir_of_def set_dir_def)

lemma bt_ok_set_dir [simp]: "bt_ok st \<Longrightarrow> bt_ok (set_dir stack f st)"
  by (simp add: set_dir_def)

section \<open>What the readers return\<close>

lemma next_event_Inr:
  assumes "next_event env clock previous kind plan = Inr e"
  shows "validate_event env e = Inr ()" "ev_kind e = kind" "ev_plan e = plan" "ev_created_at e = clock"
    "ev_previous_sha256 e = (case previous of None \<Rightarrow> [] | Some v \<Rightarrow> ev_sha256 v)"
    "ev_revision e = (case previous of None \<Rightarrow> 1 | Some v \<Rightarrow> wrapping_add 64 (ev_revision v) 1)"
    "Some (ev_stack e) = (case plan of Some p \<Rightarrow> Some (pl_stack p) | None \<Rightarrow> map_option ev_stack previous)"
  using assms by (auto simp: next_event_def new_event_def Let_def and_then_Inr)

lemma validate_rollout_Inr:
  assumes "validate_rollout env r = Inr ()"
  shows "pl_stack (ro_candidate_plan r) = ro_stack r" "valid_name (ro_stack r)" "is_digest (ro_rollout_id r)"
    "validate_plan (plan_codec env) (version_valid env) (ro_candidate_plan r) = Inr ()"
    "validate_previous env r = Inr ()" "validate_phase r = Inr ()" "record_sha256 env r = Inr (ro_record_sha256 r)"
  using assms by (auto simp: validate_rollout_def and_then_Inr)

lemma validate_previous_plan:
  assumes "validate_previous env r = Inr ()" and "ro_previous_plan r = Some p"
  shows "pl_stack p = ro_stack r"
  using assms by (auto simp: validate_previous_def and_then_Inr split: option.splits if_splits stack_state.splits)

lemma refresh_rollout_Inr:
  assumes "refresh_rollout env r = Inr r'"
  shows "validate_rollout env r' = Inr ()" "\<exists>d. r' = r\<lparr>ro_record_sha256 := d\<rparr>"
  using assms by (auto simp: refresh_rollout_def Let_def and_then_Inr)

lemma recover_Inr:
  assumes "recover_rollout_checkpoint env r current = Inr (changed, r')" and "validate_rollout env r = Inr ()"
  shows "validate_rollout env r' = Inr ()" "ro_stack r' = ro_stack r"
proof -
  show "validate_rollout env r' = Inr ()"
    using assms by (auto simp: recover_rollout_checkpoint_def and_then_Inr
        split: rollout_phase.splits if_splits dest: refresh_rollout_Inr(1))
  show "ro_stack r' = ro_stack r"
    using assms by (auto simp: recover_rollout_checkpoint_def and_then_Inr activated_by_def rolled_back_by_def
        split: rollout_phase.splits if_splits dest!: refresh_rollout_Inr(2))
qed

lemma write_rollout_file_Inr:
  assumes "write_rollout_file env stack r st = (Inr (), st')"
  shows "read_rollout_file env r = Inr r" "st' = set_dir stack (\<lambda>d. d\<lparr>sd_rollout := Some r\<rparr>) st"
  using assms by (auto simp: write_rollout_file_def read_rollout_file_def and_then_Inr split: sum.splits)

lemma read_rollout_file_Inr:
  "read_rollout_file env f = Inr r \<Longrightarrow> r = f \<and> validate_rollout (renv env) f = Inr ()"
  by (auto simp: read_rollout_file_def and_then_Inr)

lemma rollout_cases:
  assumes "rollout env stack st = (Inr found, st1)"
  obtains (none) "valid_name stack" "sd_rollout (dir_of st stack) = None" "found = None" "st1 = st"
  | (some) f current changed r where "valid_name stack" "sd_rollout (dir_of st stack) = Some f"
    "read_rollout_file env f = Inr f" "ro_stack f = stack" "latest env st stack = Inr current"
    "recover_rollout_checkpoint (renv env) f current = Inr (changed, r)" "found = Some r"
    "if changed then write_rollout_file env stack r st = (Inr (), st1) else st1 = st"
proof (cases "sd_rollout (dir_of st stack)")
  case None
  with assms none show thesis by (auto simp: rollout_def act_then_Inr)
next
  case (Some f)
  then obtain g current changed r where x: "valid_name stack" "read_rollout_file env f = Inr g" "ro_stack g = stack"
    "latest env st (ro_stack g) = Inr current" "recover_rollout_checkpoint (renv env) g current = Inr (changed, r)"
    "(if changed then act_then (write_rollout_file env stack r) (\<lambda>_. pure_act (Inr (Some r))) else pure_act (Inr (Some r))) st
      = (Inr found, st1)"
    using assms by (auto simp: rollout_def act_then_Inr)
  have g: "g = f" using read_rollout_file_Inr [OF x(2)] by simp
  show thesis
    by (rule some [OF x(1) Some]) (use x g in \<open>auto simp: act_then_Inr split: if_splits\<close>)
qed

lemma rollout_Inr:
  assumes "rollout env stack st = (Inr (Some r), st1)"
  shows "ro_stack r = stack" "validate_rollout (renv env) r = Inr ()" "read_rollout_file env r = Inr r"
proof -
  obtain f current changed where f: "read_rollout_file env f = Inr f" "ro_stack f = stack"
    "recover_rollout_checkpoint (renv env) f current = Inr (changed, r)"
    "if changed then write_rollout_file env stack r st = (Inr (), st1) else st1 = st"
    by (rule rollout_cases [OF assms]) auto
  have v: "validate_rollout (renv env) f = Inr ()" using read_rollout_file_Inr [OF f(1)] by simp
  show "ro_stack r = stack" "validate_rollout (renv env) r = Inr ()" using recover_Inr [OF f(3) v] f(2) by simp_all
  show "read_rollout_file env r = Inr r"
  proof (cases changed)
    case True
    then show ?thesis using write_rollout_file_Inr(1) f(4) by simp
  next
    case False
    then have "r = f"
      using f(3) by (auto simp: recover_rollout_checkpoint_def and_then_Inr split: rollout_phase.splits if_splits)
    with f(1) show ?thesis by simp
  qed
qed

lemma require_rollout_Inr:
  assumes "require_rollout env stack identity st = (Inr r, st1)"
  shows "rollout env stack st = (Inr (Some r), st1)" "ro_rollout_id r = identity" "ro_stack r = stack"
    "validate_rollout (renv env) r = Inr ()"
proof -
  show r: "rollout env stack st = (Inr (Some r), st1)" "ro_rollout_id r = identity"
    using assms by (auto simp: require_rollout_def act_then_Inr)
  show "ro_stack r = stack" "validate_rollout (renv env) r = Inr ()" using rollout_Inr [OF r(1)] by simp_all
qed

lemma require_rollout_stack:
  assumes "require_rollout env stack identity st = (Inr r, st1)"
  shows "ro_stack r = stack \<and> pl_stack (ro_candidate_plan r) = stack \<and>
    (\<forall>p. ro_previous_plan r = Some p \<longrightarrow> pl_stack p = stack)"
  using require_rollout_Inr(3,4) [OF assms] validate_rollout_Inr(1,5) validate_previous_plan by metis

lemma latest_Inr:
  assumes "latest env st stack = Inr (Some e)"
  shows "ev_stack e = stack" "validate_event (jenv env) e = Inr ()"
proof -
  obtain es n where "read_events_with_size (jenv env) (sd_events (dir_of st stack)) stack = Inr (es, n)"
    and "last_event es = Some e"
    using assms by (auto simp: latest_def store_events_def read_events_def and_then_Inr)
  with read_events_Inr(4) show "ev_stack e = stack" "validate_event (jenv env) e = Inr ()"
    by (auto simp: last_event_def split: if_splits)
qed

lemma validate_event_plan:
  "validate_event env e = Inr () \<Longrightarrow> ev_plan e = Some p \<Longrightarrow> pl_stack p = ev_stack e"
  by (drule validate_event_Inr(6)) (auto simp: event_plan_ok_def and_then_Inr split: event_kind.splits)

lemma stopped_plan_stack: "stopped_plan c v p = Inr q \<Longrightarrow> pl_stack q = pl_stack p"
  by (auto simp: stopped_plan_def Let_def and_then_Inr)

lemma recover_stack:
  "recover_rollout_checkpoint env r current = Inr (changed, r') \<Longrightarrow> ro_stack r' = ro_stack r"
  by (auto simp: recover_rollout_checkpoint_def and_then_Inr activated_by_def rolled_back_by_def
      split: rollout_phase.splits if_splits dest!: refresh_rollout_Inr(2))

lemma refresh_stack: "refresh_rollout env r = Inr r' \<Longrightarrow> ro_stack r' = ro_stack r"
  by (auto dest!: refresh_rollout_Inr(2))

lemma moved_stack [simp]:
  "ro_stack (activated_by e t r) = ro_stack r" "ro_stack (rolled_back_by e t r) = ro_stack r"
  "ro_stack (cancelled_at t r) = ro_stack r" "ro_stack (committed_with d t r) = ro_stack r"
  by (simp_all add: activated_by_def rolled_back_by_def cancelled_at_def committed_with_def)

lemma new_rollout_stack: "new_rollout env plan previous now_ms = Inr r \<Longrightarrow> ro_stack r = pl_stack plan"
  by (auto simp: new_rollout_def Let_def and_then_Inr dest!: refresh_stack)

lemma refresh_progress_stack: "refresh_progress c p = (res, q) \<Longrightarrow> rp_stack q = rp_stack p"
  by (auto simp: refresh_progress_def Let_def split: sum.splits)

lemma sealed_progress_stack:
  "(case refresh_progress c v of (res, p) \<Rightarrow> and_then res (\<lambda>_. Inr p)) = Inr q \<Longrightarrow> rp_stack q = rp_stack v"
  by (cases "refresh_progress c v") (auto simp: and_then_Inr dest: refresh_progress_stack)

lemma from_rollout_stack: "from_rollout env c r now_ms = Inr p \<Longrightarrow> rp_stack p = ro_stack r"
  by (auto simp: from_rollout_def Let_def and_then_Inr dest!: sealed_progress_stack)

lemma rollback_target_Inr:
  assumes "rollback_target r = Inr (kind, plan)"
  shows "plan = None \<and> kind = RemoveEvent \<and> ro_previous_state r \<in> {None, Some Removed} \<or>
    plan = ro_previous_plan r \<and> plan \<noteq> None \<and>
      (kind = ApplyEvent \<and> ro_previous_state r = Some Applied \<or> kind = StopEvent \<and> ro_previous_state r = Some StoppedStack)"
  using assms by (auto simp: rollback_target_def and_then_Inr split: option.splits stack_state.splits)

lemma known_latest_Inr:
  "known_latest env s st = (Inr e, st1) \<Longrightarrow> ev_stack e = s \<and> (\<forall>p. ev_plan e = Some p \<longrightarrow> pl_stack p = s)"
  using latest_Inr validate_event_plan by (fastforce simp: known_latest_def act_then_Inr)

lemma recovered_stack: "recovered env now_ms s = Inr s' \<Longrightarrow> rs_stack s' = rs_stack s"
  by (auto simp: recovered_def recover_interrupted_def observe_def refresh_def Let_def
      split: prod.splits sum.splits if_splits)

lemma from_plan_stack: "from_plan pc c v plan revision generation now_ms = Inr s \<Longrightarrow> rs_stack s = pl_stack plan"
  by (auto simp: from_plan_def refresh_def Let_def and_then_Inr split: sum.splits)

lemma against_stack: "against env s plan revision generation = Inr () \<Longrightarrow> rs_stack s = pl_stack plan"
  by (auto simp: against_def dest: validate_against_Inr(2))

lemma kept_or_fresh_stack:
  "kept_or_fresh env file plan revision generation now_ms = Inr s \<Longrightarrow> rs_stack s = pl_stack plan"
  by (auto simp: kept_or_fresh_def Let_def and_then_Inr
      split: option.splits if_splits dest: from_plan_stack against_stack)

lemma desired_plan_stack: "desired_plan env st s = Inr (Some (revision, generation, plan)) \<Longrightarrow> pl_stack plan = s"
  using validate_event_plan [OF latest_Inr(2)] latest_Inr(1)
  by (fastforce simp: desired_plan_def and_then_Inr split: option.splits)

lemma validate_target_stack: "validate_target env t = Inr () \<Longrightarrow> pl_stack (gt_plan t) = gt_stack t"
  by (auto simp: validate_target_def Let_def and_then_Inr)

lemma previous_target_stack: "previous_target s generation r = Inr (Some t) \<Longrightarrow> gt_stack t = s"
  by (auto simp: previous_target_def and_then_Inr split: option.splits if_splits)

lemma target_for_stack: "target_for s generation desired r = Inr (Some t) \<Longrightarrow> gt_stack t = s"
  by (auto simp: target_for_def desired_target_def Let_def split: option.splits if_splits dest: previous_target_stack)

lemma generation_target_stack:
  assumes "generation_target env s generation st = (Inr (Some t), st1)"
  shows "pl_stack (gt_plan t) = s"
proof -
  obtain desired r where "target_for s generation desired r = Inr (Some t)" "validate_target env t = Inr ()"
    using assms by (auto simp: generation_target_def act_then_Inr split: option.splits)
  then show ?thesis using target_for_stack validate_target_stack by fastforce
qed

section \<open>Relations every operation respects\<close>

text \<open>The changes to the files of one stack, other than an appended event: every document written is one
  its reader accepts and belongs to the stack.\<close>

inductive file_update :: "engine_env \<Rightarrow> string \<Rightarrow> (stack_dir \<Rightarrow> stack_dir) \<Rightarrow> bool" for env stack where
  update_created: "valid_name stack \<Longrightarrow> file_update env stack (\<lambda>d. d)"
| update_rollout: "read_rollout_file env r = Inr r \<Longrightarrow> ro_stack r = stack \<Longrightarrow>
    file_update env stack (\<lambda>d. d\<lparr>sd_rollout := Some r\<rparr>)"
| update_archive: "read_rollout_file env r = Inr r \<Longrightarrow> ro_stack r = stack \<Longrightarrow> rollout_terminal r \<Longrightarrow>
    file_update env stack (\<lambda>d. d\<lparr>sd_archive := bt_insert (ro_rollout_id r) r (sd_archive d)\<rparr>)"
| update_progress: "read_progress_file env p = Inr p \<Longrightarrow> rp_stack p = stack \<Longrightarrow>
    file_update env stack (\<lambda>d. d\<lparr>sd_progress := Some p\<rparr>)"
| update_no_progress: "valid_name stack \<Longrightarrow> file_update env stack (\<lambda>d. d\<lparr>sd_progress := None\<rparr>)"
| update_runtime: "read_runtime_status env s = Inr s \<Longrightarrow> rs_stack s = stack \<Longrightarrow>
    file_update env stack (\<lambda>d. d\<lparr>sd_runtime := Some s\<rparr>)"
| update_generation: "read_runtime_status env s = Inr s \<Longrightarrow> rs_stack s = stack \<Longrightarrow>
    file_update env stack (\<lambda>d. d\<lparr>sd_generations := bt_insert (rs_generation s) s (sd_generations d)\<rparr>)"

lemma file_update_events: "file_update env stack f \<Longrightarrow> sd_events (f d) = sd_events d"
  by (induction rule: file_update.induct) simp_all

lemma file_update_routes: "file_update env stack f \<Longrightarrow> sd_routes (f d) = sd_routes d"
  by (induction rule: file_update.induct) simp_all

locale file_relation =
  fixes env :: engine_env
    and stack :: string
    and R :: "engine_store \<Rightarrow> engine_store \<Rightarrow> bool"
  assumes refl: "bt_ok st \<Longrightarrow> R st st"
    and trans: "R a b \<Longrightarrow> R b c \<Longrightarrow> R a c"
    and file_write: "bt_ok st \<Longrightarrow> file_update env stack f \<Longrightarrow> R st (set_dir stack f st)"
begin

definition keeps :: "'a act \<Rightarrow> bool" where
  "keeps m \<longleftrightarrow> (\<forall>st. bt_ok st \<longrightarrow> bt_ok (snd (m st)) \<and> R st (snd (m st)))"

lemma keepsD: "keeps m \<Longrightarrow> bt_ok st \<Longrightarrow> m st = (r, st') \<Longrightarrow> bt_ok st' \<and> R st st'"
  unfolding keeps_def by (metis snd_conv)

lemma keeps_then:
  assumes "keeps m" and "\<And>x. \<exists>st st1. bt_ok st \<and> m st = (Inr x, st1) \<Longrightarrow> keeps (f x)"
  shows "keeps (act_then m f)"
  unfolding keeps_def
proof (intro allI impI)
  fix st :: engine_store
  assume st: "bt_ok st"
  obtain r st1 where m: "m st = (r, st1)" by (cases "m st")
  note k = keepsD [OF assms(1) st m]
  show "bt_ok (snd (act_then m f st)) \<and> R st (snd (act_then m f st))"
  proof (cases r)
    case (Inl e)
    with m k show ?thesis by (simp add: act_then_def)
  next
    case (Inr x)
    obtain r' st2 where f: "f x st1 = (r', st2)" by (cases "f x st1")
    have "keeps (f x)" using assms(2) st m Inr by blast
    from keepsD [OF this conjunct1 [OF k] f] k m Inr f show ?thesis
      by (auto simp: act_then_def intro: trans)
  qed
qed

lemma keeps_pure: "keeps (pure_act r)"
  by (simp add: keeps_def pure_act_def refl)

lemma keeps_query: "keeps (query f)"
  by (simp add: keeps_def query_def refl)

lemma written: "s = stack \<Longrightarrow> bt_ok st \<Longrightarrow> file_update env stack f \<Longrightarrow> R st (set_dir s f st)"
  using file_write by simp

lemma keeps_write: "s = stack \<Longrightarrow> file_update env stack f \<Longrightarrow> keeps (\<lambda>st. (r, set_dir s f st))"
  by (simp add: keeps_def written)

lemma keeps_write_rollout: "s = stack \<Longrightarrow> ro_stack r = stack \<Longrightarrow> keeps (write_rollout_file env s r)"
  by (auto simp: keeps_def write_rollout_file_def refl read_rollout_file_def and_then_Inr
      intro!: written update_rollout split: sum.splits)

lemma keeps_write_progress: "s = stack \<Longrightarrow> rp_stack p = stack \<Longrightarrow> keeps (write_progress_file env s p)"
  by (auto simp: keeps_def write_progress_file_def refl read_progress_file_def and_then_Inr
      intro!: written update_progress split: sum.splits)

lemma keeps_rollout: "s = stack \<Longrightarrow> keeps (rollout env s)"
  unfolding rollout_def
  by (intro keeps_then keeps_pure keeps_query)
    (auto intro!: keeps_then keeps_pure keeps_query keeps_write_rollout split: option.splits prod.splits dest: recover_stack)

lemma keeps_no_active: "s = stack \<Longrightarrow> keeps (ensure_no_active_rollout env s)"
  unfolding ensure_no_active_rollout_def by (intro keeps_then keeps_pure keeps_rollout)

lemma keeps_require: "s = stack \<Longrightarrow> keeps (require_rollout env s identity)"
  unfolding require_rollout_def by (intro keeps_then keeps_pure keeps_rollout)

lemma keeps_limit: "keeps (stack_limit_reached env previous)"
  unfolding stack_limit_reached_def by (auto intro!: keeps_then keeps_pure keeps_query)

lemma keeps_known: "keeps (known_latest env s)"
  unfolding known_latest_def by (intro keeps_then keeps_pure keeps_query)

lemma keeps_remove_progress: "ro_stack r = stack \<Longrightarrow> keeps (remove_terminal_rollout_progress env r)"
  unfolding remove_terminal_rollout_progress_def
  by (intro keeps_then keeps_pure keeps_query)
    (auto intro!: keeps_then keeps_pure keeps_write update_no_progress split: option.splits)

lemma keeps_archive:
  "ro_stack r = stack \<Longrightarrow> read_rollout_file env r = Inr r \<Longrightarrow> keeps (archive_rollout env r)"
  by (auto simp: keeps_def archive_rollout_def Let_def refl and_then_Inr
      intro!: written update_archive split: sum.splits)

lemma keeps_progress: "s = stack \<Longrightarrow> keeps (store_rollout_progress env s)"
  unfolding store_rollout_progress_def
  by (intro keeps_then keeps_pure keeps_query)
    (auto intro!: keeps_then keeps_pure keeps_rollout split: option.splits)

lemma keeps_begin_progress: "s = stack \<Longrightarrow> keeps (begin_rollout_progress env s identity now_ms)"
  unfolding begin_rollout_progress_def
  by (intro keeps_then keeps_progress)
    (auto intro!: keeps_then keeps_pure keeps_rollout keeps_write_progress split: option.splits
      dest!: rollout_Inr(1) from_rollout_stack)

lemma keeps_save_progress: "rp_stack p = stack \<Longrightarrow> keeps (save_rollout_progress env p)"
  unfolding save_rollout_progress_def by (intro keeps_then keeps_pure keeps_rollout keeps_write_progress)

lemma keeps_prepare_fresh: "pl_stack plan = stack \<Longrightarrow> keeps (prepare_fresh env plan now_ms)"
  unfolding prepare_fresh_def
  by (intro keeps_then keeps_pure keeps_query keeps_limit keeps_write_rollout) (auto dest!: new_rollout_stack)

lemma keeps_still_committed: "keeps (still_committed env plan current)"
  unfolding still_committed_def by (auto intro!: keeps_then keeps_pure keeps_query)

lemma keeps_prepare: "pl_stack plan = stack \<Longrightarrow> keeps (prepare_rollout env plan allow_insecure now_ms)"
  unfolding prepare_rollout_def
  by (intro keeps_then keeps_pure keeps_rollout)
    (auto intro!: keeps_then keeps_pure keeps_prepare_fresh keeps_still_committed keeps_remove_progress keeps_archive
      split: option.split dest: rollout_Inr(1,3))

lemma keeps_commit: "s = stack \<Longrightarrow> keeps (commit_rollout env s identity now_ms)"
  unfolding commit_rollout_def Let_def
  by (intro keeps_then keeps_require)
    (auto intro!: keeps_then keeps_pure keeps_query keeps_write_rollout dest!: require_rollout_stack refresh_stack)

lemma keeps_target: "s = stack \<Longrightarrow> keeps (generation_target env s generation)"
  unfolding generation_target_def Let_def
  by (intro keeps_then keeps_pure keeps_query keeps_rollout)
    (auto intro!: keeps_then keeps_pure split: option.splits prod.splits)

lemma keeps_targets: "s = stack \<Longrightarrow> keeps (generation_targets env s)"
  unfolding generation_targets_def
  by (intro keeps_then keeps_pure keeps_query keeps_rollout)
    (auto intro!: keeps_pure keeps_target split: option.splits prod.splits)

lemma keeps_save_runtime: "rs_stack s = stack \<Longrightarrow> keeps (save_runtime_status env s)"
  by (auto simp: keeps_def save_runtime_status_def refl read_runtime_status_def and_then_Inr
      intro!: written update_runtime split: sum.splits)

lemma keeps_save_generation: "rs_stack s = stack \<Longrightarrow> keeps (save_runtime_status_for_generation env s)"
  unfolding save_runtime_status_for_generation_def
  by (intro keeps_then keeps_pure keeps_target keeps_write update_generation)
    (auto simp: read_runtime_status_def)

lemma keeps_prepare_runtime: "s = stack \<Longrightarrow> keeps (prepare_runtime_status env s now_ms)"
  unfolding prepare_runtime_status_def
  by (intro keeps_then keeps_pure keeps_query)
    (auto intro!: keeps_then keeps_pure keeps_query keeps_save_runtime
      dest!: desired_plan_stack kept_or_fresh_stack recovered_stack)

lemma keeps_runtime_for: "s = stack \<Longrightarrow> keeps (runtime_status_for_generation env s generation)"
  unfolding runtime_status_for_generation_def
  by (intro keeps_then keeps_target)
    (auto intro!: keeps_then keeps_pure keeps_query split: option.splits)

lemma keeps_prepare_runtime_for:
  "s = stack \<Longrightarrow> keeps (prepare_runtime_status_for_generation env s generation now_ms)"
  unfolding prepare_runtime_status_for_generation_def Let_def
  by (intro keeps_then keeps_pure keeps_query keeps_target keeps_save_generation)
    (auto dest!: generation_target_stack kept_or_fresh_stack recovered_stack)

lemma keeps_act_fold: "(\<And>acc x. keeps (f acc x)) \<Longrightarrow> keeps (act_fold f acc xs)"
  by (induction xs arbitrary: acc) (auto intro: keeps_then keeps_pure)

lemma keeps_routing_progress: "s = stack \<Longrightarrow> keeps (active_routing_progress env s)"
  unfolding active_routing_progress_def by (auto intro!: keeps_then keeps_pure keeps_rollout keeps_progress)

lemma keeps_generation_routes: "s = stack \<Longrightarrow> keeps (generation_routes env s progress targets g)"
  unfolding generation_routes_def by (auto intro!: keeps_then keeps_pure keeps_runtime_for split: option.splits)

lemma keeps_routing_targets: "s = stack \<Longrightarrow> keeps (routing_targets env s progress)"
  unfolding routing_targets_def Let_def
  by (auto intro!: keeps_then keeps_pure keeps_rollout keeps_targets keeps_act_fold keeps_generation_routes split: option.splits)

lemma keeps_routing_snapshot: "s = stack \<Longrightarrow> keeps (store_routing_snapshot env s)"
  unfolding store_routing_snapshot_def
  by (auto intro!: keeps_then keeps_pure keeps_query keeps_routing_progress keeps_routing_targets split: option.splits prod.splits)

lemma keeps_route_ready: "s = stack \<Longrightarrow> keeps (route_target_is_ready env s target)"
  unfolding route_target_is_ready_def
  by (auto intro!: keeps_then keeps_pure keeps_routing_progress keeps_routing_targets split: prod.splits)

lemma keeps_serving: "s = stack \<Longrightarrow> keeps (serving_instance env s generation name)"
  unfolding serving_instance_def by (auto intro!: keeps_then keeps_pure keeps_target)

lemma keeps_replica_invocation: "s = stack \<Longrightarrow> keeps (replica_invocation_directory env s generation rid run_id)"
  unfolding replica_invocation_directory_def by (auto intro!: keeps_then keeps_pure keeps_serving)

lemma keeps_invocation: "s = stack \<Longrightarrow> keeps (invocation_directory env s target)"
  unfolding invocation_directory_def
  by (auto intro!: keeps_then keeps_pure keeps_route_ready keeps_serving keeps_replica_invocation)

end

text \<open>None of these operations touches the routing snapshot.\<close>

interpretation unrouted: file_relation env stack "\<lambda>st st'. sd_routes (dir_of st' stack) = sd_routes (dir_of st stack)" for env stack
  by unfold_locales (auto simp: file_update_routes)

text \<open>A snapshot that continues the published one: same epoch, larger number, not earlier.\<close>

definition routes_follow :: "routing_snapshot \<Rightarrow> routing_snapshot \<Rightarrow> bool" where
  "routes_follow v s \<longleftrightarrow> rg_routing_epoch s = rg_routing_epoch v \<and> rg_sequence v < rg_sequence s \<and>
     rg_published_at v \<le> rg_published_at s"

locale route_relation = file_relation +
  assumes published: "bt_ok st \<Longrightarrow> read_routing_file env s = Inr s \<Longrightarrow> rg_stack s = stack \<Longrightarrow>
      (\<forall>v. sd_routes (dir_of st stack) = Some v \<longrightarrow> routes_follow v s) \<Longrightarrow>
      R st (set_dir stack (\<lambda>d. d\<lparr>sd_routes := Some s\<rparr>) st)"
    and unpublished: "bt_ok st \<Longrightarrow> sd_routes (dir_of st stack) = Some f \<Longrightarrow> read_routing_file env f = Inl err \<Longrightarrow>
      valid_name stack \<Longrightarrow> R st (set_dir stack (\<lambda>d. d\<lparr>sd_routes := None\<rparr>) st)"
begin

lemma snapshot_for_publish:
  assumes "bt_ok st" and "valid_name stack" and "routing_snapshot_for_publish env stack st = (r, st1)"
  shows "\<exists>previous. r = Inr previous \<and> bt_ok st1 \<and> R st st1 \<and> sd_routes (dir_of st1 stack) = previous"
  using assms by (auto simp: routing_snapshot_for_publish_def refl unpublished read_routing_file_def and_then_Inr
      split: option.splits sum.splits)

lemma written_snapshot:
  assumes "bt_ok st" and "refresh_snapshot (routing_codec env) (next_snapshot epoch stack previous number now_ms i targets) = Inr s"
    and "sd_routes (dir_of st stack) = previous"
    and "\<forall>v. previous = Some v \<longrightarrow> rg_sequence v < number \<and> rg_published_at v \<le> now_ms"
  shows "bt_ok (snd (write_routing_file env stack s st)) \<and> R st (snd (write_routing_file env stack s st))"
proof -
  have s: "rg_stack s = stack" "\<forall>v. previous = Some v \<longrightarrow> routes_follow v s"
    using assms(2,4) by (auto simp: refresh_snapshot_def Let_def and_then_Inr next_snapshot_def routes_follow_def)
  show ?thesis
  proof (cases "fst (write_routing_file env stack s st)")
    case (Inl e)
    with assms(1) show ?thesis by (auto simp: write_routing_file_def refl split: sum.splits)
  next
    case (Inr u)
    then have "read_routing_file env s = Inr s" "snd (write_routing_file env stack s st) = set_dir stack (\<lambda>d. d\<lparr>sd_routes := Some s\<rparr>) st"
      by (auto simp: write_routing_file_def read_routing_file_def and_then_Inr split: sum.splits)
    with published [OF assms(1) this(1) s(1)] s(2) assms(1,3) show ?thesis by simp
  qed
qed

lemma keeps_publish_changed:
  assumes "bt_ok st" and "sd_routes (dir_of st stack) = previous"
  shows "bt_ok (snd (publish_changed env epoch stack previous now_ms i targets st)) \<and>
    R st (snd (publish_changed env epoch stack previous now_ms i targets st))"
proof (cases "case previous of None \<Rightarrow> Inr 1 | Some v \<Rightarrow> ok_or (checked_add 64 (rg_sequence v) 1) RoutingSequenceOverflow")
  case (Inl e)
  with assms(1) show ?thesis by (simp add: publish_changed_def pure_act_def refl)
next
  case number: (Inr number)
  then have n: "\<forall>v. previous = Some v \<longrightarrow> rg_sequence v < number" by (auto split: option.splits)
  show ?thesis
  proof (cases "(case previous of None \<Rightarrow> False | Some v \<Rightarrow> now_ms < rg_published_at v)")
    case True
    with number assms(1) show ?thesis by (simp add: publish_changed_def pure_act_def refl)
  next
    case False
    then have n2: "\<forall>v. previous = Some v \<longrightarrow> rg_sequence v < number \<and> rg_published_at v \<le> now_ms"
      using n by (auto split: option.splits)
    show ?thesis
    proof (cases "refresh_snapshot (routing_codec env) (next_snapshot epoch stack previous number now_ms i targets)")
      case (Inl e)
      with number False assms(1) show ?thesis by (simp add: publish_changed_def pure_act_def refl)
    next
      case (Inr s)
      have "snd (act_then (write_routing_file env stack s) (\<lambda>_. pure_act (Inr s)) st) = snd (write_routing_file env stack s st)"
        by (simp add: act_then_def pure_act_def split: prod.splits sum.splits)
      with written_snapshot [OF assms(1) Inr assms(2) n2] number False Inr show ?thesis by (simp add: publish_changed_def)
    qed
  qed
qed

lemma keeps_publish_inner:
  assumes "s = stack"
  shows "keeps (publish_inner env epoch s progress now_ms)"
  unfolding keeps_def
proof (intro allI impI)
  fix st :: engine_store
  assume ok: "bt_ok st"
  show "bt_ok (snd (publish_inner env epoch s progress now_ms st)) \<and> R st (snd (publish_inner env epoch s progress now_ms st))"
  proof (cases "valid_name stack \<and> now_ms \<noteq> 0 \<and> (\<exists>x. store_status env st stack = Inr x)")
    case False
    then show ?thesis
      using ok assms by (cases "store_status env st stack")
        (auto simp: publish_inner_def act_then_def query_def pure_act_def fail_if_def refl)
  next
    case True
    obtain r st1 where p: "routing_snapshot_for_publish env stack st = (r, st1)" by (cases "routing_snapshot_for_publish env stack st")
    obtain previous where previous: "r = Inr previous" and k1: "bt_ok st1" "R st st1" "sd_routes (dir_of st1 stack) = previous"
      using snapshot_for_publish [OF ok _ p] True by blast
    obtain r2 st2 where t: "routing_targets env stack progress st1 = (r2, st2)" by (cases "routing_targets env stack progress st1")
    note k2 = keepsD [OF keeps_routing_targets [OF HOL.refl] k1(1) t]
    have routes: "sd_routes (dir_of st2 stack) = previous"
      using unrouted.keepsD [OF unrouted.keeps_routing_targets [OF HOL.refl] k1(1) t] k1(3) by simp
    have "snd (publish_inner env epoch s progress now_ms st) = st2 \<or>
      (\<exists>i targets. snd (publish_inner env epoch s progress now_ms st) = snd (publish_changed env epoch stack previous now_ms i targets st2))"
      using True assms p previous t
      by (cases r2; cases previous; auto simp: publish_inner_def act_then_def query_def pure_act_def split: if_splits; blast)
    then show ?thesis
    proof (elim disjE exE)
      assume "snd (publish_inner env epoch s progress now_ms st) = st2"
      then show ?thesis using k1 k2 trans by auto
    next
      fix i targets
      assume e: "snd (publish_inner env epoch s progress now_ms st) = snd (publish_changed env epoch stack previous now_ms i targets st2)"
      show ?thesis unfolding e using keeps_publish_changed [OF conjunct1 [OF k2] routes] k1(2) k2 trans by blast
    qed
  qed
qed

lemma keeps_publish: "s = stack \<Longrightarrow> keeps (publish_routing_snapshot env epoch s now_ms)"
  unfolding publish_routing_snapshot_def by (auto intro!: keeps_then keeps_routing_progress keeps_publish_inner)

lemma keeps_publish_progress: "rp_stack p = stack \<Longrightarrow> keeps (publish_routing_snapshot_for_progress env epoch p now_ms)"
  unfolding publish_routing_snapshot_for_progress_def
  by (auto intro!: keeps_then keeps_pure keeps_rollout keeps_publish_inner)

end

locale store_relation = route_relation +
  assumes appended: "bt_ok st \<Longrightarrow> ev_stack e = stack \<Longrightarrow>
      append_event (jenv env) e (sd_events (dir_of st stack)) = Inr files \<Longrightarrow>
      R st (set_dir stack (\<lambda>d. d\<lparr>sd_events := files\<rparr>) st)"
begin

lemma keeps_append: "ev_stack e = stack \<Longrightarrow> keeps (append env e)"
  unfolding append_def
  by (intro keeps_then keeps_pure)
    (auto simp: keeps_def create_stack_events_def append_step_def refl appended
      intro!: written update_created split: sum.splits)

lemma keeps_append_next:
  assumes "case plan of Some p \<Rightarrow> pl_stack p = stack | None \<Rightarrow> (\<exists>v. previous = Some v \<and> ev_stack v = stack)"
  shows "keeps (append_next env clock previous kind plan)"
  unfolding append_next_def
proof (intro keeps_then keeps_pure keeps_append)
  fix e
  assume "\<exists>st st1. bt_ok st \<and> pure_act (map_err JournalFailed (next_event (jenv env) clock previous kind plan)) st = (Inr e, st1)"
  then have "next_event (jenv env) clock previous kind plan = Inr e" by auto
  from next_event_Inr(7) [OF this] assms show "ev_stack e = stack" by (auto split: option.splits)
qed

lemma keeps_apply: "pl_stack plan = stack \<Longrightarrow> keeps (apply_plan env clock plan allow_insecure)"
  unfolding apply_plan_def
  by (auto intro!: keeps_then keeps_pure keeps_query keeps_limit keeps_no_active keeps_append_next split: option.splits)

lemma keeps_stop: "keeps (stop_stack env clock stack)"
  unfolding stop_stack_def
  by (auto intro!: keeps_then keeps_pure keeps_no_active keeps_known keeps_append_next
      dest!: known_latest_Inr stopped_plan_stack)

lemma keeps_remove: "keeps (remove_stack env clock stack)"
  unfolding remove_stack_def
  by (auto intro!: keeps_then keeps_pure keeps_no_active keeps_known keeps_append_next dest!: known_latest_Inr)

lemma keeps_activate: "s = stack \<Longrightarrow> keeps (activate_rollout env clock s identity now_ms)"
  unfolding activate_rollout_def
  by (intro keeps_then keeps_require)
    (auto intro!: keeps_then keeps_pure keeps_query keeps_append_next keeps_write_rollout
      dest!: require_rollout_stack refresh_stack)

lemma keeps_rollback: "s = stack \<Longrightarrow> keeps (rollback_rollout env clock s identity now_ms)"
  unfolding rollback_rollout_def
  by (intro keeps_then keeps_require)
    (auto intro!: keeps_then keeps_pure keeps_query keeps_append_next keeps_write_rollout
      dest!: require_rollout_stack rollback_target_Inr refresh_stack split: option.splits
      simp: ensure_matches_activation_def matches_candidate_def dest: latest_Inr(1))

end

section \<open>Calls\<close>

datatype engine_call =
    CallApply nat stack_plan bool
  | CallStop nat string
  | CallRemove nat string
  | CallRollout string
  | CallPrepare stack_plan bool nat
  | CallActivate nat string string nat
  | CallCommit string string nat
  | CallRollback nat string string nat
  | CallBeginProgress string string nat
  | CallSaveProgress rollout_progress
  | CallTargets string
  | CallSaveRuntime runtime_status
  | CallSaveGeneration runtime_status
  | CallPrepareRuntime string nat
  | CallRuntimeFor string string
  | CallPrepareRuntimeFor string string nat
  | CallPublish string string nat
  | CallPublishProgress string rollout_progress nat
  | CallRoutes string
  | CallRouteReady string route_target
  | CallReplicaInvocation string string replica_id string
  | CallInvocation string route_target

fun call_stack :: "engine_call \<Rightarrow> string" where
  "call_stack (CallApply clock plan allow) = pl_stack plan"
| "call_stack (CallStop clock s) = s"
| "call_stack (CallRemove clock s) = s"
| "call_stack (CallRollout s) = s"
| "call_stack (CallPrepare plan allow t) = pl_stack plan"
| "call_stack (CallActivate clock s i t) = s"
| "call_stack (CallCommit s i t) = s"
| "call_stack (CallRollback clock s i t) = s"
| "call_stack (CallBeginProgress s i t) = s"
| "call_stack (CallSaveProgress p) = rp_stack p"
| "call_stack (CallTargets s) = s"
| "call_stack (CallSaveRuntime s) = rs_stack s"
| "call_stack (CallSaveGeneration s) = rs_stack s"
| "call_stack (CallPrepareRuntime s t) = s"
| "call_stack (CallRuntimeFor s g) = s"
| "call_stack (CallPrepareRuntimeFor s g t) = s"
| "call_stack (CallPublish e s t) = s"
| "call_stack (CallPublishProgress e p t) = rp_stack p"
| "call_stack (CallRoutes s) = s"
| "call_stack (CallRouteReady s r) = s"
| "call_stack (CallReplicaInvocation s g i run) = s"
| "call_stack (CallInvocation s r) = s"

text \<open>The store after a call, whatever its result.\<close>

fun after_call :: "engine_env \<Rightarrow> engine_call \<Rightarrow> engine_store \<Rightarrow> engine_store" where
  "after_call env (CallApply clock plan allow) st = snd (apply_plan env clock plan allow st)"
| "after_call env (CallStop clock s) st = snd (stop_stack env clock s st)"
| "after_call env (CallRemove clock s) st = snd (remove_stack env clock s st)"
| "after_call env (CallRollout s) st = snd (rollout env s st)"
| "after_call env (CallPrepare plan allow t) st = snd (prepare_rollout env plan allow t st)"
| "after_call env (CallActivate clock s i t) st = snd (activate_rollout env clock s i t st)"
| "after_call env (CallCommit s i t) st = snd (commit_rollout env s i t st)"
| "after_call env (CallRollback clock s i t) st = snd (rollback_rollout env clock s i t st)"
| "after_call env (CallBeginProgress s i t) st = snd (begin_rollout_progress env s i t st)"
| "after_call env (CallSaveProgress p) st = snd (save_rollout_progress env p st)"
| "after_call env (CallTargets s) st = snd (generation_targets env s st)"
| "after_call env (CallSaveRuntime s) st = snd (save_runtime_status env s st)"
| "after_call env (CallSaveGeneration s) st = snd (save_runtime_status_for_generation env s st)"
| "after_call env (CallPrepareRuntime s t) st = snd (prepare_runtime_status env s t st)"
| "after_call env (CallRuntimeFor s g) st = snd (runtime_status_for_generation env s g st)"
| "after_call env (CallPrepareRuntimeFor s g t) st = snd (prepare_runtime_status_for_generation env s g t st)"
| "after_call env (CallPublish e s t) st = snd (publish_routing_snapshot env e s t st)"
| "after_call env (CallPublishProgress e p t) st = snd (publish_routing_snapshot_for_progress env e p t st)"
| "after_call env (CallRoutes s) st = snd (store_routing_snapshot env s st)"
| "after_call env (CallRouteReady s r) st = snd (route_target_is_ready env s r st)"
| "after_call env (CallReplicaInvocation s g i run) st = snd (replica_invocation_directory env s g i run st)"
| "after_call env (CallInvocation s r) st = snd (invocation_directory env s r st)"

context store_relation
begin

lemma call_kept:
  assumes "bt_ok st" and "call_stack c = stack"
  shows "bt_ok (after_call env c st) \<and> R st (after_call env c st)"
proof -
  have k: "keeps m \<Longrightarrow> bt_ok (snd (m st)) \<and> R st (snd (m st))" for m :: "'x act"
    using assms(1) by (simp add: keeps_def)
  show ?thesis
    using assms(2)
    by (cases c) (auto simp: k keeps_apply keeps_stop keeps_remove keeps_rollout keeps_prepare keeps_activate
        keeps_commit keeps_rollback keeps_begin_progress keeps_save_progress keeps_targets keeps_save_runtime
        keeps_save_generation keeps_prepare_runtime keeps_runtime_for keeps_prepare_runtime_for keeps_publish
        keeps_publish_progress keeps_routing_snapshot keeps_route_ready keeps_replica_invocation keeps_invocation)
qed

end

section \<open>Three relations\<close>

definition journal_grows :: "engine_env \<Rightarrow> engine_store \<Rightarrow> engine_store \<Rightarrow> bool" where
  "journal_grows env st st' \<longleftrightarrow> (\<forall>s es. store_events env st s = Inr es \<longrightarrow>
     (\<exists>more. store_events env st' s = Inr (es @ more)))"

definition only_stack :: "string \<Rightarrow> engine_store \<Rightarrow> engine_store \<Rightarrow> bool" where
  "only_stack stack st st' \<longleftrightarrow> (\<forall>s. s \<noteq> stack \<longrightarrow> bt_get st' s = bt_get st s)"

text \<open>A directory whose every document is accepted by its reader, belongs to the stack and is filed under
  its own identity.\<close>

definition wf_dir :: "engine_env \<Rightarrow> string \<Rightarrow> stack_dir \<Rightarrow> bool" where
  "wf_dir env stack d \<longleftrightarrow> valid_name stack \<and>
     (\<exists>es. read_events (jenv env) (sd_events d) stack = Inr es) \<and>
     (\<forall>r. sd_rollout d = Some r \<longrightarrow> read_rollout_file env r = Inr r \<and> ro_stack r = stack) \<and>
     bt_ok (sd_archive d) \<and>
     (\<forall>k r. bt_get (sd_archive d) k = Some r \<longrightarrow>
       k = ro_rollout_id r \<and> read_rollout_file env r = Inr r \<and> ro_stack r = stack \<and> rollout_terminal r) \<and>
     (\<forall>p. sd_progress d = Some p \<longrightarrow> read_progress_file env p = Inr p \<and> rp_stack p = stack) \<and>
     (\<forall>v. sd_runtime d = Some v \<longrightarrow> read_runtime_status env v = Inr v \<and> rs_stack v = stack) \<and>
     bt_ok (sd_generations d) \<and>
     (\<forall>k v. bt_get (sd_generations d) k = Some v \<longrightarrow>
       k = rs_generation v \<and> read_runtime_status env v = Inr v \<and> rs_stack v = stack) \<and>
     (\<forall>v. sd_routes d = Some v \<longrightarrow> read_routing_file env v = Inr v \<and> rg_stack v = stack)"

definition wf_store :: "engine_env \<Rightarrow> engine_store \<Rightarrow> bool" where
  "wf_store env st \<longleftrightarrow> bt_ok st \<and> (\<forall>s d. bt_get st s = Some d \<longrightarrow> wf_dir env s d)"

lemma read_no_events [simp]: "read_events env [] stack = Inr []"
  by (simp add: read_events_def read_events_with_size_def)

lemma wf_empty_dir: "valid_name stack \<Longrightarrow> wf_dir env stack empty_dir"
  by (simp add: wf_dir_def empty_dir_def)

lemma file_update_valid_name: "file_update env stack f \<Longrightarrow> valid_name stack"
  by (induction rule: file_update.induct)
    (auto simp: read_rollout_file_def read_progress_file_def read_runtime_status_def and_then_Inr
      validate_progress_iff progress_identity_ok_def validate_status_iff identity_ok_def dest: validate_rollout_Inr(2))

lemma wf_file_update: "file_update env stack f \<Longrightarrow> wf_dir env stack d \<Longrightarrow> wf_dir env stack (f d)"
  by (induction rule: file_update.induct) (auto simp: wf_dir_def)

lemma routing_file_name: "read_routing_file env v = Inr v \<Longrightarrow> valid_name (rg_stack v)"
  by (auto simp: read_routing_file_def validate_snapshot_def and_then_Inr)

lemma wf_dir_of: "wf_store env st \<Longrightarrow> valid_name stack \<Longrightarrow> wf_dir env stack (dir_of st stack)"
  by (auto simp: wf_store_def dir_of_def wf_empty_dir split: option.splits)

lemma wf_set_dir:
  assumes "wf_store env st" and "valid_name stack" and "wf_dir env stack (f (dir_of st stack))"
  shows "wf_store env (set_dir stack f st)"
  using assms by (auto simp: wf_store_def set_dir_def)

lemma appended_reads:
  assumes "append_event env e files = Inr files'" and "read_events env files (ev_stack e) = Inr es"
  shows "read_events env files' (ev_stack e) = Inr (es @ [e])" "valid_name (ev_stack e)"
proof -
  obtain n where "read_events_with_size env files (ev_stack e) = Inr (es, n)"
    using assms(2) by (auto simp: read_events_def and_then_Inr)
  note a = append_event_Inr [OF assms(1) this]
  show "read_events env files' (ev_stack e) = Inr (es @ [e])" using a(2) by (auto simp: read_events_def)
  show "valid_name (ev_stack e)" using validate_event_Inr(1) [OF a(3)] .
qed

interpretation grown: store_relation env stack "journal_grows env" for env stack
proof unfold_locales
  show "journal_grows env a c" if "journal_grows env a b" "journal_grows env b c" for a b c
    using that unfolding journal_grows_def by (metis append_assoc)
  show "journal_grows env st (set_dir stack f st)" if "bt_ok st" "file_update env stack f" for st f
    using that by (auto simp: journal_grows_def store_events_def file_update_events)
  show "journal_grows env st (set_dir stack (\<lambda>d. d\<lparr>sd_events := files\<rparr>) st)"
    if "bt_ok st" "ev_stack e = stack" "append_event (jenv env) e (sd_events (dir_of st stack)) = Inr files" for st e files
  proof -
    have "\<exists>more. store_events env (set_dir stack (\<lambda>d. d\<lparr>sd_events := files\<rparr>) st) s = Inr (es @ more)"
      if "store_events env st s = Inr es" for s es
      using that \<open>bt_ok st\<close> \<open>ev_stack e = stack\<close> appended_reads(1) [OF \<open>append_event _ _ _ = _\<close>, of es]
      by (cases "s = stack") (auto simp: store_events_def and_then_Inr)
    then show ?thesis by (simp add: journal_grows_def)
  qed
qed (auto simp: journal_grows_def store_events_def)

interpretation own: store_relation env stack "only_stack stack" for env stack
  by unfold_locales (auto simp: only_stack_def set_dir_def)

interpretation wf: store_relation env stack "\<lambda>st st'. wf_store env st \<longrightarrow> wf_store env st'" for env stack
proof unfold_locales
  show "wf_store env st \<longrightarrow> wf_store env (set_dir stack f st)" if "bt_ok st" "file_update env stack f" for st f
  proof
    assume wf: "wf_store env st"
    note v = file_update_valid_name [OF that(2)]
    show "wf_store env (set_dir stack f st)"
      by (rule wf_set_dir [where f = f, OF wf v wf_file_update [OF that(2) wf_dir_of [OF wf v]]])
  qed
  show "wf_store env st \<longrightarrow> wf_store env (set_dir stack (\<lambda>d. d\<lparr>sd_events := files\<rparr>) st)"
    if "bt_ok st" "ev_stack e = stack" "append_event (jenv env) e (sd_events (dir_of st stack)) = Inr files" for st e files
  proof
    assume wf: "wf_store env st"
    have v: "valid_name stack"
      using that(2,3) by (auto simp: append_event_def and_then_Inr dest: validate_event_Inr(1))
    note d = wf_dir_of [OF wf v]
    obtain es where "read_events (jenv env) (sd_events (dir_of st stack)) stack = Inr es" using d by (auto simp: wf_dir_def)
    with that(2,3) have "read_events (jenv env) files stack = Inr (es @ [e])" using appended_reads(1) by blast
    with d have "wf_dir env stack ((dir_of st stack)\<lparr>sd_events := files\<rparr>)" by (auto simp: wf_dir_def)
    with wf v show "wf_store env (set_dir stack (\<lambda>d. d\<lparr>sd_events := files\<rparr>) st)" by (rule wf_set_dir)
  qed
  show "wf_store env st \<longrightarrow> wf_store env (set_dir stack (\<lambda>d. d\<lparr>sd_routes := Some v\<rparr>) st)"
    if "read_routing_file env v = Inr v" "rg_stack v = stack" for st v
  proof
    assume wf: "wf_store env st"
    have n: "valid_name stack" using routing_file_name that by blast
    have "wf_dir env stack ((dir_of st stack)\<lparr>sd_routes := Some v\<rparr>)"
      using wf_dir_of [OF wf n] that by (auto simp: wf_dir_def)
    with wf n show "wf_store env (set_dir stack (\<lambda>d. d\<lparr>sd_routes := Some v\<rparr>) st)" by (rule wf_set_dir)
  qed
  show "wf_store env st \<longrightarrow> wf_store env (set_dir stack (\<lambda>d. d\<lparr>sd_routes := None\<rparr>) st)" if "valid_name stack" for st
  proof
    assume wf: "wf_store env st"
    have "wf_dir env stack ((dir_of st stack)\<lparr>sd_routes := None\<rparr>)"
      using wf_dir_of [OF wf that] by (auto simp: wf_dir_def)
    with wf that show "wf_store env (set_dir stack (\<lambda>d. d\<lparr>sd_routes := None\<rparr>) st)" by (rule wf_set_dir)
  qed
qed auto

section \<open>Sequences of calls\<close>

definition after_calls :: "engine_env \<Rightarrow> engine_call list \<Rightarrow> engine_store \<Rightarrow> engine_store" where
  "after_calls env calls st = fold (after_call env) calls st"

lemma after_calls_ok: "bt_ok st \<Longrightarrow> bt_ok (after_calls env calls st)"
  by (induction calls arbitrary: st) (simp_all add: after_calls_def own.call_kept)

lemma after_calls_grow: "bt_ok st \<Longrightarrow> journal_grows env st (after_calls env calls st)"
proof (induction calls arbitrary: st)
  case Nil
  then show ?case by (simp add: after_calls_def journal_grows_def)
next
  case (Cons c calls)
  have "bt_ok (after_call env c st) \<and> journal_grows env st (after_call env c st)"
    by (rule grown.call_kept [OF Cons.prems refl])
  with Cons.IH [of "after_call env c st"] show ?case
    using grown.trans by (fastforce simp: after_calls_def)
qed

lemma after_calls_wf: "wf_store env st \<Longrightarrow> wf_store env (after_calls env calls st)"
proof (induction calls arbitrary: st)
  case Nil
  then show ?case by (simp add: after_calls_def)
next
  case (Cons c calls)
  have "bt_ok st" using Cons.prems by (simp add: wf_store_def)
  from wf.call_kept [OF this refl, of env c] Cons show ?case by (simp add: after_calls_def)
qed

text \<open>C8: the store is well formed at any time.  After any sequence of calls, succeeding or failing, from the
  empty store every directory has a valid name and a readable journal, and every checkpoint, archived
  rollout, progress document and runtime status in it is accepted by its reader, belongs to the stack and is
  filed under its own identity; archived rollouts are terminal.\<close>

theorem store_well_formed: "wf_store env (after_calls env calls [])"
  by (rule after_calls_wf) (simp add: wf_store_def)

text \<open>C34: history is never rewritten.  Whatever calls follow, the events of a stack that were readable
  remain, unchanged and in the same order, the beginning of its journal.\<close>

theorem journals_only_grow:
  assumes "store_events env (after_calls env calls []) stack = Inr es"
  shows "\<exists>more. store_events env (after_calls env (calls @ later) []) stack = Inr (es @ more)"
proof -
  have "journal_grows env (after_calls env calls []) (after_calls env later (after_calls env calls []))"
    by (intro after_calls_grow after_calls_ok) simp
  with assms show ?thesis by (auto simp: journal_grows_def after_calls_def)
qed

text \<open>C35: stacks do not interfere.  A sequence of calls leaves the directory of every stack that none of them
  addresses exactly as it was.\<close>

theorem stacks_isolated:
  assumes "stack \<notin> call_stack ` set later"
  shows "bt_get (after_calls env (calls @ later) []) stack = bt_get (after_calls env calls []) stack"
proof -
  have "bt_get (after_calls env cs st) stack = bt_get st stack" if "bt_ok st" "stack \<notin> call_stack ` set cs" for cs st
    using that
  proof (induction cs arbitrary: st)
    case (Cons c cs)
    have "bt_ok (after_call env c st) \<and> only_stack (call_stack c) st (after_call env c st)"
      by (rule own.call_kept [OF Cons.prems(1) refl])
    with Cons.IH [of "after_call env c st"] Cons.prems(2) show ?case by (auto simp: after_calls_def only_stack_def)
  qed (simp add: after_calls_def)
  from this [OF after_calls_ok [of "[]" env calls], of later] assms show ?thesis by (simp add: after_calls_def)
qed

section \<open>Examples\<close>

definition demo_engine :: engine_env where
  "demo_engine = \<lparr>plan_codec = demo_codec, event_codec = demo_event_codec, version_valid = (\<lambda>_. True),
     record_codec = demo_codec, identity_codec = demo_codec, rollout_status_codec = demo_codec,
     progress_codec = demo_codec, runtime_codec = demo_codec, report_codec = demo_codec, routing_codec = demo_codec,
     backoff_hash = demo_hash\<rparr>"

definition demo_applied_store :: engine_store where
  "demo_applied_store = [(''shop'', empty_dir\<lparr>sd_events := [(1, demo_applied)]\<rparr>)]"

lemma demo_engine_sel [simp]:
  "jenv demo_engine = demo_env" "plan_codec demo_engine = demo_codec" "version_valid demo_engine = (\<lambda>_. True)"
  "record_codec demo_engine = demo_codec" "runtime_codec demo_engine = demo_codec" "report_codec demo_engine = demo_codec"
  by (simp_all add: demo_engine_def jenv_def journal_env.defs demo_env_def)

lemma one_dir [simp]:
  "bt_get [(stack, d)] stack = Some d" "dir_of [(stack, d)] stack = d" "dir_of [] stack = empty_dir"
  "set_dir stack f [] = [(stack, f empty_dir)]" "set_dir stack f [(stack, d)] = [(stack, f d)]"
  by (simp_all add: dir_of_def set_dir_def bt_get_def)

lemma demo_next_applied: "next_event demo_env 5 None ApplyEvent (Some demo_plan) = Inr demo_applied"
proof -
  have "event_sha256 demo_env (demo_applied\<lparr>ev_sha256 := []\<rparr>) = Inr demo_digest"
    using validate_event_Inr(5) [OF demo_events_ok(1)] by (simp add: event_sha256_def demo_applied_def)
  then show ?thesis
    using demo_events_ok(1)
    by (simp add: next_event_def new_event_def Let_def demo_applied_def demo_plan_def journal_consts)
qed

lemma demo_append_first: "append_event demo_env demo_applied [] = Inr [(1, demo_applied)]"
  using demo_events_ok(1)
  by (simp add: append_event_def read_events_with_size_def file_bytes_def demo_env_def demo_event_codec_def demo_applied_def
      journal_consts expected_revision_def expected_previous_def last_event_def checked_add_def)

lemma demo_apply:
  "apply_plan demo_engine 5 demo_plan False [] =
     (Inr \<lparr>ar_changed = True, ar_status = event_status demo_applied\<rparr>, demo_applied_store)"
proof -
  have p: "pl_stack demo_plan = ''shop''" "ss_sandbox (pl_security demo_plan) \<noteq> Disabled" "ev_stack demo_applied = ''shop''"
    by (simp_all add: demo_plan_def demo_applied_def)
  have "append_next demo_engine 5 None ApplyEvent (Some demo_plan) [] = (Inr demo_applied, demo_applied_store)"
    using demo_append_first demo_events_ok(1) demo_shop p
    by (simp add: append_next_def append_def append_step_def demo_next_applied act_then_def create_stack_events_def
        empty_dir_def demo_applied_store_def pure_act_def)
  moreover have "rollout demo_engine ''shop'' [] = (Inr None, [])"
    using demo_shop by (simp add: rollout_def act_then_def query_def pure_act_def empty_dir_def)
  moreover have "latest demo_engine [] ''shop'' = Inr None"
    using demo_shop by (simp add: latest_def store_events_def empty_dir_def last_event_def)
  moreover have "store_list demo_engine [] = Inr []" by (simp add: store_list_def somes_def)
  ultimately show ?thesis
    using demo_plan_ok p
    by (simp add: apply_plan_def ensure_no_active_rollout_def act_then_def query_def pure_act_def stack_limit_reached_def
        MAX_ENGINE_STACKS_def)
qed

theorem journals_only_grow_witness:
  "store_events demo_engine (after_calls demo_engine [CallApply 5 demo_plan False] []) ''shop'' = Inr [demo_applied] \<and>
   (\<exists>more. store_events demo_engine (after_calls demo_engine ([CallApply 5 demo_plan False] @ [CallRemove 6 ''shop'']) []) ''shop''
      = Inr ([demo_applied] @ more))"
proof -
  have "store_events demo_engine (after_calls demo_engine [CallApply 5 demo_plan False] []) ''shop'' = Inr [demo_applied]"
    using demo_shop demo_journal(1)
    by (simp add: after_calls_def demo_apply store_events_def demo_applied_store_def)
  with journals_only_grow [OF this, of "[CallRemove 6 ''shop'']"] show ?thesis by simp
qed

theorem stacks_isolated_witness:
  "bt_get (after_calls demo_engine ([CallApply 5 demo_plan False] @ [CallRemove 6 ''blog'', CallRollout ''blog'']) []) ''shop'' =
     Some (empty_dir\<lparr>sd_events := [(1, demo_applied)]\<rparr>)"
proof -
  have "''shop'' \<notin> call_stack ` set [CallRemove 6 ''blog'', CallRollout ''blog'']" by simp
  from stacks_isolated [OF this, of demo_engine "[CallApply 5 demo_plan False]"] show ?thesis
    by (simp add: after_calls_def demo_apply demo_applied_store_def)
qed

end
