(* ===== verification/Engine_Rollouts.thy ===== *)
theory Engine_Rollouts
  imports Engine_Runs
begin

text \<open>
  Rollouts on the engine store: an active rollout fences the direct changes of the desired state, applying
  a plan twice changes nothing, a crash between the journal and the checkpoint is recovered during activation
  and during the rollback of an activated rollout, a rollback restores the previous state, and a commit
  needs a healthy candidate.
\<close>

section \<open>Records that can be sealed\<close>

lemma record_sha256_seal: "record_sha256 env (r\<lparr>ro_record_sha256 := d\<rparr>) = record_sha256 env r"
  by (simp add: record_sha256_def)

interpretation record_seal: sealed_document ro_record_sha256 "\<lambda>d r. r\<lparr>ro_record_sha256 := d\<rparr>" "record_sha256 env" for env
  by unfold_locales (simp_all add: record_sha256_seal)

text \<open>What sealing needs beyond the digest, for a record that differs from an accepted one only in the
  progress of the rollout.\<close>

definition progressed :: "rollout_record \<Rightarrow> rollout_record \<Rightarrow> bool" where
  "progressed r q \<longleftrightarrow> ro_format_version q = ro_format_version r \<and> ro_rollout_id q = ro_rollout_id r \<and>
     ro_stack q = ro_stack r \<and> ro_created_at q = ro_created_at r \<and> ro_updated_at r \<le> ro_updated_at q \<and>
     ro_previous_revision q = ro_previous_revision r \<and> ro_previous_generation q = ro_previous_generation r \<and>
     ro_previous_state q = ro_previous_state r \<and> ro_previous_plan q = ro_previous_plan r \<and>
     ro_candidate_plan q = ro_candidate_plan r"

lemma refresh_progressed:
  assumes "codec_ok (record_codec env)" and "validate_rollout env r = Inr ()" and "progressed r q" and "validate_phase q = Inr ()"
  shows "case refresh_rollout env q of Inr q' \<Rightarrow> \<exists>d. q' = q\<lparr>ro_record_sha256 := d\<rparr> | Inl e \<Rightarrow> e = RolloutTooLarge"
proof (cases "record_sha256 env q")
  case (Inl e)
  obtain b where "to_vec (record_codec env) (q\<lparr>ro_record_sha256 := []\<rparr>) = Some b"
    using assms(1) by (auto simp: codec_ok_def)
  with Inl have "e = RolloutTooLarge" by (auto simp: record_sha256_def and_then_Inl)
  with Inl show ?thesis by (simp add: refresh_rollout_def record_sha256_seal)
next
  case (Inr d)
  have d: "is_digest d" using Inr assms(1) by (auto simp: record_sha256_def codec_ok_def and_then_Inr)
  let ?q = "q\<lparr>ro_record_sha256 := d\<rparr>"
  have same: "ro_stack ?q = ro_stack r" "ro_previous_revision ?q = ro_previous_revision r" "ro_previous_generation ?q = ro_previous_generation r"
    "ro_previous_state ?q = ro_previous_state r" "ro_previous_plan ?q = ro_previous_plan r"
    "ro_candidate_plan ?q = ro_candidate_plan r" "ro_created_at ?q = ro_created_at r"
    using assms(3) by (simp_all add: progressed_def)
  have "computed_rollout_id env ?q = computed_rollout_id env r" "validate_previous env ?q = validate_previous env r"
    unfolding computed_rollout_id_def validate_previous_def same by (rule refl)+
  moreover have "validate_phase ?q = validate_phase q" by (simp add: validate_phase_def)
  ultimately have "validate_rollout env ?q = Inr ()"
    using assms(2-4) d Inr by (auto simp: validate_rollout_def progressed_def and_then_Inr record_sha256_seal)
  with Inr show ?thesis by (simp add: refresh_rollout_def record_sha256_seal) blast
qed

lemma activated_phase:
  assumes "validate_phase r = Inr ()" and "ro_phase r = Prepared" and "ev_revision e > 0" and "is_digest (ev_sha256 e)"
    and "ev_revision e = (case ro_previous_revision r of None \<Rightarrow> 1 | Some n \<Rightarrow> saturating_add 64 n 1)"
  shows "validate_phase (activated_by e t r) = Inr ()"
  using assms by (auto simp: validate_phase_def valid_phase_fields_def Let_def activated_by_def
      positive_option_def digest_option_def)

lemma rolled_back_phase:
  assumes "validate_phase r = Inr ()" and "ro_phase r = Activated \<or> ro_phase r = Committed" and "is_digest (ev_sha256 e)"
    and "ro_activated_revision r = Some n" and "ev_revision e = saturating_add 64 n 1" and "ev_revision e > 0"
  shows "validate_phase (rolled_back_by e t r) = Inr ()"
  using assms by (auto simp: validate_phase_def valid_phase_fields_def Let_def rolled_back_by_def
      positive_option_def digest_option_def)

section \<open>One more event\<close>

lemma latest_last:
  assumes "latest env st stack = Inr current"
  obtains es n where "read_events_with_size (jenv env) (sd_events (dir_of st stack)) stack = Inr (es, n)"
    "current = last_event es" "valid_name stack" "length es \<le> 4096" "chained es"
proof -
  obtain es n where e: "read_events_with_size (jenv env) (sd_events (dir_of st stack)) stack = Inr (es, n)"
    "current = last_event es" "valid_name stack"
    using assms by (auto simp: latest_def store_events_def read_events_def and_then_Inr)
  show thesis using that [OF e] read_events_Inr(2,6) [OF e(1)] by (simp add: journal_consts)
qed

lemma append_next_Inr:
  assumes "bt_ok st" and "append_next env clock previous kind plan st = (Inr e, st')"
    and "latest env st stack = Inr previous" and "ev_stack e = stack"
  shows "latest env st' stack = Inr (Some e)" "validate_event (jenv env) e = Inr ()" "bt_ok st'"
    "\<exists>files. dir_of st' stack = (dir_of st stack)\<lparr>sd_events := files\<rparr>"
    "next_event (jenv env) clock previous kind plan = Inr e"
    "ev_revision e = (case previous of None \<Rightarrow> 1 | Some v \<Rightarrow> ev_revision v + 1)" "ev_revision e \<le> 4097"
proof -
  obtain es n where es: "read_events_with_size (jenv env) (sd_events (dir_of st stack)) stack = Inr (es, n)"
    "previous = last_event es" "valid_name stack" "length es \<le> 4096" "chained es"
    by (rule latest_last [OF assms(3)])
  let ?st = "set_dir stack (\<lambda>d. d) st"
  obtain files where f: "append_event (jenv env) e (sd_events (dir_of ?st stack)) = Inr files"
    and st': "st' = set_dir stack (\<lambda>d. d\<lparr>sd_events := files\<rparr>) ?st"
    and nx: "next_event (jenv env) clock previous kind plan = Inr e"
    using assms(2,4) es(3) unfolding append_next_def append_def
    by (auto simp: act_then_Inr create_stack_events_def append_step_def split: sum.splits if_splits)
  have a: "append_event (jenv env) e (sd_events (dir_of st stack)) = Inr files" using f assms(1) by simp
  have "read_events_with_size (jenv env) (sd_events (dir_of st stack)) (ev_stack e) = Inr (es, n)"
    using es(1) assms(4) by simp
  note ap = append_event_Inr [OF a this]
  show "next_event (jenv env) clock previous kind plan = Inr e" by (rule nx)
  show "validate_event (jenv env) e = Inr ()" by (rule ap(3))
  show "bt_ok st'" using st' assms(1) by simp
  show "\<exists>files. dir_of st' stack = (dir_of st stack)\<lparr>sd_events := files\<rparr>" using st' assms(1) by auto
  show "latest env st' stack = Inr (Some e)"
    using st' assms(1,4) ap(2) es(3) by (auto simp: latest_def store_events_def read_events_def last_event_def)
  show "ev_revision e \<le> 4097" using ap(4) es(4) by simp
  show "ev_revision e = (case previous of None \<Rightarrow> 1 | Some v \<Rightarrow> ev_revision v + 1)"
    using ap(4) es(2,5) by (auto simp: last_event_def chained_def last_conv_nth split: option.splits if_splits)
qed

section \<open>Reading the checkpoint\<close>

lemma rollout_eval:
  assumes "valid_name stack" and "sd_rollout (dir_of st stack) = Some f" and "read_rollout_file env f = Inr f"
    and "ro_stack f = stack" and "latest env st stack = Inr current"
  shows "rollout env stack st =
    (case recover_rollout_checkpoint (renv env) f current of
       Inl e \<Rightarrow> (Inl (RolloutFailed e), st)
     | Inr (changed, r) \<Rightarrow>
         if changed then act_then (write_rollout_file env stack r) (\<lambda>_. pure_act (Inr (Some r))) st
         else (Inr (Some r), st))"
  using assms by (auto simp: rollout_def act_then_def query_def pure_act_def map_err_def split: sum.splits)

lemma rollout_file:
  assumes "rollout env stack st = (Inr (Some r), st1)" and "bt_ok st"
  shows "sd_rollout (dir_of st1 stack) = Some r" "valid_name stack" "sd_events (dir_of st1 stack) = sd_events (dir_of st stack)"
    "bt_ok st1" "\<exists>current. latest env st stack = Inr current"
proof -
  obtain f current changed where f: "valid_name stack" "sd_rollout (dir_of st stack) = Some f" "latest env st stack = Inr current"
    "recover_rollout_checkpoint (renv env) f current = Inr (changed, r)"
    "if changed then write_rollout_file env stack r st = (Inr (), st1) else st1 = st"
    by (rule rollout_cases [OF assms(1)]) auto
  have "\<not> changed \<Longrightarrow> r = f"
    using f(4) by (auto simp: recover_rollout_checkpoint_def and_then_Inr split: rollout_phase.splits if_splits)
  then show "sd_rollout (dir_of st1 stack) = Some r" "valid_name stack" "sd_events (dir_of st1 stack) = sd_events (dir_of st stack)"
    "bt_ok st1" "\<exists>current. latest env st stack = Inr current"
    using f assms(2) by (auto dest!: write_rollout_file_Inr(2) split: if_splits)
qed

text \<open>A terminal checkpoint is left as it is, whatever the journal says.\<close>

lemma rollout_terminal_again:
  assumes "rollout env stack st = (Inr found, st1)" and "bt_ok st" and "\<forall>r. found = Some r \<longrightarrow> \<not> rollout_active r"
    and "sd_rollout (dir_of st2 stack) = sd_rollout (dir_of st1 stack)" and "latest env st2 stack = Inr current"
  shows "rollout env stack st2 = (Inr found, st2)"
proof (cases found)
  case None
  then have "valid_name stack" "sd_rollout (dir_of st1 stack) = None"
    using rollout_cases [OF assms(1)] by auto
  with None assms(4) show ?thesis by (simp add: rollout_def act_then_def query_def pure_act_def)
next
  case (Some r)
  note r = rollout_Inr [OF assms(1) [unfolded Some]] rollout_file [OF assms(1) [unfolded Some] assms(2)]
  have "recover_rollout_checkpoint (renv env) r current = Inr (False, r)"
    using assms(3) Some by (cases "ro_phase r") (auto simp: recover_rollout_checkpoint_def rollout_active_def)
  then show ?thesis
    using rollout_eval [OF r(5) _ r(3,1) assms(5)] r(4) assms(4) Some by simp
qed

section \<open>Fencing\<close>

interpretation unmoved: route_relation env stack "\<lambda>st st'. sd_events (dir_of st' stack) = sd_events (dir_of st stack)" for env stack
  by unfold_locales (auto simp: file_update_events)

lemma fenced:
  assumes "rollout env stack st = (Inr (Some r), st1)" and "rollout_active r"
  shows "ensure_no_active_rollout env stack st = (Inl ActiveRollout, st1)"
  using assms by (simp add: ensure_no_active_rollout_def act_then_def pure_act_def)

lemma wrong_identity:
  assumes "rollout env stack st = (Inr (Some r), st1)" and "identity \<noteq> ro_rollout_id r"
  shows "\<exists>e st2. require_rollout env stack identity st = (Inl e, st2) \<and> (st2 = st \<or> st2 = st1)"
  using assms by (auto simp: require_rollout_def act_then_def pure_act_def fail_if_def)

lemma failed_first: "m st = (Inl e, st1) \<Longrightarrow> act_then m f st = (Inl e, st1)"
  by (simp add: act_then_def)

text \<open>C2: an active rollout fences the desired state.  While the checkpoint of a stack is prepared or
  activated, no call adds an event to the journal of the stack, except an activation or a rollback that
  presents the identity of this rollout.\<close>

theorem active_rollout_fences:
  assumes "st = after_calls env calls []" and "rollout env stack st = (Inr (Some r), st1)" and "rollout_active r"
    and "\<forall>clock t. c \<noteq> CallActivate clock stack (ro_rollout_id r) t \<and> c \<noteq> CallRollback clock stack (ro_rollout_id r) t"
  shows "sd_events (dir_of (after_call env c st) stack) = sd_events (dir_of st stack)"
proof (cases "call_stack c = stack")
  case False
  have "bt_ok st" using after_calls_ok assms(1) by simp
  from own.call_kept [OF this refl, of env c] False show ?thesis by (simp add: only_stack_def dir_of_def)
next
  case True
  have ok: "bt_ok st" using after_calls_ok assms(1) by simp
  have k: "unmoved.keeps stack m \<Longrightarrow> sd_events (dir_of (snd (m st)) stack) = sd_events (dir_of st stack)" for m :: "'x act"
    using ok by (simp add: unmoved.keeps_def)
  note st1 = rollout_file(3) [OF assms(2) ok]
  have fence: "act_then (ensure_no_active_rollout env stack) f st = (Inl ActiveRollout, st1)" for f :: "unit \<Rightarrow> 'z act"
    by (rule failed_first) (rule fenced [OF assms(2,3)])
  have wrong: "sd_events (dir_of (snd (act_then (require_rollout env stack identity) f st)) stack) = sd_events (dir_of st stack)"
    if "identity \<noteq> ro_rollout_id r" for identity and f :: "rollout_record \<Rightarrow> 'y act"
    using wrong_identity [OF assms(2) that] st1 by (auto simp: failed_first)
  show ?thesis
  proof (cases c)
    case (CallApply clock plan allow)
    then show ?thesis
      using True st1 by (cases "validate_plan (plan_codec env) (version_valid env) plan")
        (simp_all add: apply_plan_def map_err_def fence, simp add: pure_act_def)
  next
    case (CallActivate clock s i t)
    then show ?thesis using True wrong assms(4) by (auto simp: activate_rollout_def)
  next
    case (CallRollback clock s i t)
    then show ?thesis using True wrong assms(4) by (auto simp: rollback_rollout_def)
  qed (use True st1 in \<open>auto simp: k fence stop_stack_def remove_stack_def unmoved.keeps_rollout unmoved.keeps_prepare
      unmoved.keeps_commit unmoved.keeps_begin_progress unmoved.keeps_save_progress unmoved.keeps_targets
      unmoved.keeps_save_runtime unmoved.keeps_save_generation unmoved.keeps_prepare_runtime unmoved.keeps_runtime_for
      unmoved.keeps_prepare_runtime_for unmoved.keeps_publish unmoved.keeps_publish_progress unmoved.keeps_routing_snapshot
      unmoved.keeps_route_ready unmoved.keeps_replica_invocation unmoved.keeps_invocation\<close>)
qed

section \<open>Applying a plan\<close>

lemma latest_of_events:
  "sd_events (dir_of st' stack) = sd_events (dir_of st stack) \<Longrightarrow> latest env st' stack = latest env st stack"
  by (simp add: latest_def store_events_def)

lemma no_active_Inr:
  assumes "ensure_no_active_rollout env stack st = (Inr (), st1)"
  shows "\<exists>found. rollout env stack st = (Inr found, st1) \<and> (\<forall>r. found = Some r \<longrightarrow> \<not> rollout_active r)"
  using assms by (auto simp: ensure_no_active_rollout_def act_then_Inr split: option.splits)

lemma stack_limit_Inr: "stack_limit_reached env previous st = (Inr (), st1) \<Longrightarrow> st1 = st"
  by (auto simp: stack_limit_reached_def act_then_Inr split: if_splits)

lemma apply_plan_Inr:
  assumes "apply_plan env clock plan allow st = (Inr rep, st2)" and "bt_ok st"
  obtains st1 e where "validate_plan (plan_codec env) (version_valid env) plan = Inr ()"
    "ensure_no_active_rollout env (pl_stack plan) st = (Inr (), st1)" "bt_ok st1"
    "\<not> (ss_sandbox (pl_security plan) = Disabled \<and> \<not> allow)"
    "ar_status rep = event_status e" "latest env st2 (pl_stack plan) = Inr (Some e)" "already_applied plan (Some e)"
    "sd_rollout (dir_of st2 (pl_stack plan)) = sd_rollout (dir_of st1 (pl_stack plan))"
proof -
  let ?s = "pl_stack plan"
  obtain st1 previous where a: "validate_plan (plan_codec env) (version_valid env) plan = Inr ()"
    "ensure_no_active_rollout env ?s st = (Inr (), st1)" "\<not> (ss_sandbox (pl_security plan) = Disabled \<and> \<not> allow)"
    "latest env st1 ?s = Inr previous"
    and rest: "already_applied plan previous \<and> (\<exists>e. previous = Some e \<and> ar_status rep = event_status e \<and> st2 = st1) \<or>
      (\<exists>e. append_next env clock previous ApplyEvent (Some plan) st1 = (Inr e, st2) \<and> ar_status rep = event_status e)"
    using assms(1) unfolding apply_plan_def
    by (auto simp: act_then_Inr dest!: stack_limit_Inr split: option.splits if_splits)
  have ok1: "bt_ok st1" using unmoved.keepsD [OF unmoved.keeps_no_active assms(2) a(2)] by simp
  from rest show thesis
  proof (elim disjE exE conjE)
    fix e assume "already_applied plan previous" "previous = Some e" "ar_status rep = event_status e" "st2 = st1"
    then show thesis using that a ok1 by simp
  next
    fix e assume ap: "append_next env clock previous ApplyEvent (Some plan) st1 = (Inr e, st2)" and st: "ar_status rep = event_status e"
    then have "next_event (jenv env) clock previous ApplyEvent (Some plan) = Inr e"
      by (auto simp: append_next_def act_then_Inr)
    note e = next_event_Inr [OF this]
    have stack: "ev_stack e = ?s" using e(7) by simp
    note n = append_next_Inr [OF ok1 ap a(4) stack]
    have "already_applied plan (Some e)" using e(2,3) by (simp add: already_applied_def)
    with n(1,4) show thesis using that [OF a(1,2) ok1 a(3) st n(1)] by auto
  qed
qed

lemma apply_again:
  assumes "st = after_calls env calls []" and "apply_plan env clock plan allow st = (Inr rep, st2)"
  shows "apply_plan env later plan allow st2 = (Inr (rep\<lparr>ar_changed := False\<rparr>), st2)"
    and "store_status env st2 (pl_stack plan) = Inr (ar_status rep)"
    and "\<exists>revision generation p. desired_plan env st2 (pl_stack plan) = Inr (Some (revision, generation, p)) \<and>
      pl_plan_sha256 p = pl_plan_sha256 plan"
proof -
  have ok: "bt_ok st" using after_calls_ok assms(1) by simp
  obtain st1 e where a: "validate_plan (plan_codec env) (version_valid env) plan = Inr ()"
    "ensure_no_active_rollout env (pl_stack plan) st = (Inr (), st1)" "bt_ok st1"
    "\<not> (ss_sandbox (pl_security plan) = Disabled \<and> \<not> allow)"
    "ar_status rep = event_status e" "latest env st2 (pl_stack plan) = Inr (Some e)" "already_applied plan (Some e)"
    "sd_rollout (dir_of st2 (pl_stack plan)) = sd_rollout (dir_of st1 (pl_stack plan))"
    by (rule apply_plan_Inr [OF assms(2) ok])
  obtain found where f: "rollout env (pl_stack plan) st = (Inr found, st1)" "\<forall>r. found = Some r \<longrightarrow> \<not> rollout_active r"
    using no_active_Inr [OF a(2)] by blast
  note r = rollout_terminal_again [OF f(1) ok f(2) a(8,6)]
  have "ensure_no_active_rollout env (pl_stack plan) st2 = (Inr (), st2)"
    using f(2) by (cases found) (simp_all add: ensure_no_active_rollout_def act_then_def r pure_act_def)
  then show "apply_plan env later plan allow st2 = (Inr (rep\<lparr>ar_changed := False\<rparr>), st2)"
    using a(1,4-7) by (cases rep) (auto simp: apply_plan_def act_then_def query_def pure_act_def stack_limit_reached_def)
  show "store_status env st2 (pl_stack plan) = Inr (ar_status rep)"
    using a(5,6) by (simp add: store_status_def)
  show "\<exists>revision generation p. desired_plan env st2 (pl_stack plan) = Inr (Some (revision, generation, p)) \<and>
      pl_plan_sha256 p = pl_plan_sha256 plan"
    using a(6,7) by (auto simp: desired_plan_def already_applied_def split: option.splits)
qed

text \<open>Applying is idempotent and takes effect.  After a successful apply the stack has the reported status
  and a desired plan with the digest of the applied one; applying the plan again reports the same status as
  unchanged and writes nothing.\<close>

theorem apply_idempotent:
  assumes "st = after_calls env calls []" and "apply_plan env clock plan allow st = (Inr rep, st2)"
  shows "apply_plan env later plan allow st2 = (Inr (rep\<lparr>ar_changed := False\<rparr>), st2) \<and>
    store_status env st2 (pl_stack plan) = Inr (ar_status rep) \<and>
    (\<exists>revision generation p. desired_plan env st2 (pl_stack plan) = Inr (Some (revision, generation, p)) \<and>
      pl_plan_sha256 p = pl_plan_sha256 plan)"
  using apply_again [OF assms] by blast

section \<open>Interrupted transitions\<close>

text \<open>What an activation and a rollback leave behind when they stop between their two writes: the event is
  in the journal, the checkpoint is still the old one.\<close>

definition activation_interrupted ::
    "engine_env \<Rightarrow> string \<Rightarrow> engine_store \<Rightarrow> rollout_record \<Rightarrow> engine_event \<Rightarrow> engine_store \<Rightarrow> bool" where
  "activation_interrupted env stack st r e st1 \<longleftrightarrow> (\<exists>st0 previous clock.
     rollout env stack st = (Inr (Some r), st0) \<and> ro_phase r = Prepared \<and> latest env st0 stack = Inr previous \<and>
     ensure_matches_previous r previous = Inr () \<and>
     append_next env clock previous ApplyEvent (Some (ro_candidate_plan r)) st0 = (Inr e, st1))"

definition rollback_interrupted ::
    "engine_env \<Rightarrow> string \<Rightarrow> engine_store \<Rightarrow> rollout_record \<Rightarrow> engine_event \<Rightarrow> engine_store \<Rightarrow> bool" where
  "rollback_interrupted env stack st r e st1 \<longleftrightarrow> (\<exists>st0 current kind plan clock.
     rollout env stack st = (Inr (Some r), st0) \<and> (ro_phase r = Activated \<or> ro_phase r = Committed) \<and>
     latest env st0 stack = Inr current \<and> ensure_matches_activation r current = Inr () \<and>
     rollback_target r = Inr (kind, plan) \<and> append_next env clock current kind plan st0 = (Inr e, st1))"

text \<open>The journal and the checkpoint at such a point.\<close>

definition one_behind :: "engine_env \<Rightarrow> string \<Rightarrow> rollout_record \<Rightarrow> engine_event \<Rightarrow> engine_store \<Rightarrow> bool" where
  "one_behind env stack r e st1 \<longleftrightarrow> bt_ok st1 \<and> valid_name stack \<and> sd_rollout (dir_of st1 stack) = Some r \<and>
     read_rollout_file env r = Inr r \<and> ro_stack r = stack \<and> latest env st1 stack = Inr (Some e) \<and>
     validate_event (jenv env) e = Inr () \<and> ev_revision e \<le> 4097"

lemma behind_fields:
  assumes "one_behind env stack r e st1"
  shows "validate_phase r = Inr ()" "is_digest (ev_sha256 e)" "ev_revision e > 0"
proof -
  have "read_rollout_file env r = Inr r" and e: "validate_event (jenv env) e = Inr ()" using assms by (simp_all add: one_behind_def)
  from read_rollout_file_Inr [OF this(1)] have r: "validate_rollout (renv env) r = Inr ()" by simp
  show "validate_phase r = Inr ()" by (rule validate_rollout_Inr(6) [OF r])
  show "is_digest (ev_sha256 e)" "ev_revision e > 0" using validate_event_Inr(2,4) [OF e] by simp_all
qed

lemma append_behind:
  assumes "rollout env stack st = (Inr (Some r), st0)" and "bt_ok st" and "latest env st0 stack = Inr current"
    and "append_next env clock current kind plan st0 = (Inr e, st1)" and "ev_stack e = stack"
  shows "one_behind env stack r e st1"
proof -
  note r = rollout_Inr [OF assms(1)] rollout_file [OF assms(1,2)]
  note n = append_next_Inr [OF r(7) assms(4,3,5)]
  from n(4) r(4) have "sd_rollout (dir_of st1 stack) = Some r" by auto
  with r n show ?thesis by (simp add: one_behind_def)
qed

lemma activation_behind:
  assumes "activation_interrupted env stack st r e st1" and "bt_ok st"
  shows "one_behind env stack r e st1" "ro_phase r = Prepared" "matches_candidate r (Some e)"
    "ev_revision e = (case ro_previous_revision r of None \<Rightarrow> 1 | Some n \<Rightarrow> saturating_add 64 n 1)"
proof -
  obtain st0 previous clock where a: "rollout env stack st = (Inr (Some r), st0)" "ro_phase r = Prepared"
    "latest env st0 stack = Inr previous" "ensure_matches_previous r previous = Inr ()"
    "append_next env clock previous ApplyEvent (Some (ro_candidate_plan r)) st0 = (Inr e, st1)"
    using assms(1) by (auto simp: activation_interrupted_def)
  note r = rollout_Inr [OF a(1)] rollout_file [OF a(1) assms(2)]
  have "next_event (jenv env) clock previous ApplyEvent (Some (ro_candidate_plan r)) = Inr e"
    using a(5) by (auto simp: append_next_def act_then_Inr)
  note e = next_event_Inr [OF this]
  have stack: "ev_stack e = stack" using e(7) validate_rollout_Inr(1) [OF r(2)] r(1) by simp
  show "one_behind env stack r e st1" by (rule append_behind [OF a(1) assms(2) a(3,5) stack])
  show "ro_phase r = Prepared" by (rule a(2))
  note n = append_next_Inr [OF r(7) a(5,3) stack]
  note p = validate_rollout_Inr(5) [OF r(2)]
  show "matches_candidate r (Some e)"
    using e(2,3,5) a(4) p by (auto simp: matches_candidate_def ensure_matches_previous_def unwrap_default_def validate_previous_def
        split: option.splits)
  show "ev_revision e = (case ro_previous_revision r of None \<Rightarrow> 1 | Some n \<Rightarrow> saturating_add 64 n 1)"
    using n(6,7) a(4) by (auto simp: ensure_matches_previous_def saturating_add_def split: option.splits)
qed

text \<open>How the recovery ends: with the record it computed, written, or with a size limit.\<close>

lemma recovery_written:
  assumes "codec_ok (record_codec env)" and "one_behind env stack r e st1" and "progressed r q" and "validate_phase q = Inr ()"
    and "recover_rollout_checkpoint (renv env) r (Some e) = and_then (refresh_rollout (renv env) q) (\<lambda>r'. Inr (True, r'))"
  shows "case rollout env stack st1 of
      (Inr found, st2) \<Rightarrow> \<exists>d. found = Some (q\<lparr>ro_record_sha256 := d\<rparr>) \<and>
        st2 = set_dir stack (\<lambda>dir. dir\<lparr>sd_rollout := Some (q\<lparr>ro_record_sha256 := d\<rparr>)\<rparr>) st1
    | (Inl err, st2) \<Rightarrow> st2 = st1 \<and> (err = RolloutFailed RolloutTooLarge \<or> err = RolloutFileTooLarge)"
proof -
  have b: "valid_name stack" "sd_rollout (dir_of st1 stack) = Some r" "read_rollout_file env r = Inr r" "ro_stack r = stack"
    "latest env st1 stack = Inr (Some e)" using assms(2) by (simp_all add: one_behind_def)
  have v: "validate_rollout (renv env) r = Inr ()" using read_rollout_file_Inr [OF b(3)] by simp
  have c: "codec_ok (record_codec (renv env))" using assms(1) by simp
  note f = refresh_progressed [OF c v assms(3,4)]
  note eval = rollout_eval [OF b]
  show ?thesis
  proof (cases "refresh_rollout (renv env) q")
    case (Inl x)
    with f eval assms(5) show ?thesis by simp
  next
    case (Inr q')
    obtain d where q': "q' = q\<lparr>ro_record_sha256 := d\<rparr>" using f Inr by auto
    have v': "validate_rollout (renv env) q' = Inr ()" by (rule refresh_rollout_Inr(1) [OF Inr])
    obtain bs where "to_vec (record_codec env) q' = Some bs" using assms(1) by (auto simp: codec_ok_def)
    then have "write_rollout_file env stack q' st1 =
      (if length bs > MAX_ROLLOUT_BYTES then (Inl RolloutFileTooLarge, st1)
       else (Inr (), set_dir stack (\<lambda>dir. dir\<lparr>sd_rollout := Some q'\<rparr>) st1))"
      using v' by (simp add: write_rollout_file_def)
    then show ?thesis using eval assms(5) Inr q' by (auto simp: act_then_def pure_act_def)
  qed
qed

text \<open>C39: an activation that stopped between its two writes is completed.  The next reading of the checkpoint
  returns and writes the record the activation would have written, with the revision and the generation of
  the event in the journal; only the size limits of the record can prevent it, and then nothing changes.\<close>

theorem interrupted_activation_completed:
  assumes "codec_ok (record_codec env)" and "st = after_calls env calls []" and "activation_interrupted env stack st r e st1"
  shows "case rollout env stack st1 of
      (Inr found, st2) \<Rightarrow> \<exists>t d r'. r' = (activated_by e t r)\<lparr>ro_record_sha256 := d\<rparr> \<and> found = Some r' \<and>
        st2 = set_dir stack (\<lambda>dir. dir\<lparr>sd_rollout := Some r'\<rparr>) st1
    | (Inl err, st2) \<Rightarrow> st2 = st1 \<and> (err = RolloutFailed RolloutTooLarge \<or> err = RolloutFileTooLarge)"
proof -
  have ok: "bt_ok st" using after_calls_ok assms(2) by simp
  note a = activation_behind [OF assms(3) ok]
  let ?q = "activated_by e (max (ro_updated_at r) (ev_created_at e)) r"
  note v = behind_fields [OF a(1)]
  have "progressed r ?q" by (simp add: progressed_def activated_by_def)
  moreover have "validate_phase ?q = Inr ()" by (rule activated_phase [OF v(1) a(2) v(3,2) a(4)])
  moreover have "recover_rollout_checkpoint (renv env) r (Some e) = and_then (refresh_rollout (renv env) ?q) (\<lambda>r'. Inr (True, r'))"
    using a(2,3) by (simp add: recover_rollout_checkpoint_def)
  ultimately show ?thesis
    using recovery_written [OF assms(1) a(1)] by (fastforce split: prod.splits sum.splits)
qed

lemma rollback_behind:
  assumes "rollback_interrupted env stack st r e st1" and "bt_ok st"
  shows "one_behind env stack r e st1" "ro_phase r = Activated \<or> ro_phase r = Committed" "matches_rollback r (Some e)"
    "\<exists>n. ro_activated_revision r = Some n \<and> ev_revision e = saturating_add 64 n 1 \<and> ev_revision e = n + 1"
    "rollback_target r = Inr (ev_kind e, ev_plan e)"
proof -
  obtain st0 current kind plan clock where a: "rollout env stack st = (Inr (Some r), st0)"
    "ro_phase r = Activated \<or> ro_phase r = Committed" "latest env st0 stack = Inr current"
    "ensure_matches_activation r current = Inr ()" "rollback_target r = Inr (kind, plan)"
    "append_next env clock current kind plan st0 = (Inr e, st1)"
    using assms(1) by (auto simp: rollback_interrupted_def)
  note r = rollout_Inr [OF a(1)] rollout_file [OF a(1) assms(2)]
  have "next_event (jenv env) clock current kind plan = Inr e" using a(6) by (auto simp: append_next_def act_then_Inr)
  note e = next_event_Inr [OF this]
  obtain v where v: "current = Some v" "Some (ev_revision v) = ro_activated_revision r" "Some (ev_sha256 v) = ro_activated_generation r"
    using a(4) by (auto simp: ensure_matches_activation_def split: option.splits)
  have stack: "ev_stack e = stack"
    using e(7) v(1) a(3,5) latest_Inr(1) r(1) validate_previous_plan [OF validate_rollout_Inr(5) [OF r(2)]]
    by (auto split: option.splits dest!: rollback_target_Inr)
  show "one_behind env stack r e st1" by (rule append_behind [OF a(1) assms(2) a(3,6) stack])
  show "ro_phase r = Activated \<or> ro_phase r = Committed" by (rule a(2))
  note n = append_next_Inr [OF r(7) a(6,3) stack]
  show "matches_rollback r (Some e)"
    using e(2,3,5) v a(5) by (auto simp: matches_rollback_def rollback_target_def unwrap_default_def and_then_Inr
        split: option.splits stack_state.splits dest!: sym [of "Some _"])
  show "\<exists>n. ro_activated_revision r = Some n \<and> ev_revision e = saturating_add 64 n 1 \<and> ev_revision e = n + 1"
    using n(6,7) v by (auto simp: saturating_add_def intro!: exI [of _ "ev_revision v"])
  show "rollback_target r = Inr (ev_kind e, ev_plan e)" using a(5) e(2,3) by simp
qed

text \<open>A rollback of an activated rollout that stopped between its two writes is completed in the same way.\<close>

theorem interrupted_rollback_completed:
  assumes "codec_ok (record_codec env)" and "st = after_calls env calls []" and "rollback_interrupted env stack st r e st1"
    and "ro_phase r = Activated"
  shows "case rollout env stack st1 of
      (Inr found, st2) \<Rightarrow> \<exists>t d r'. r' = (rolled_back_by e t r)\<lparr>ro_record_sha256 := d\<rparr> \<and> found = Some r' \<and>
        st2 = set_dir stack (\<lambda>dir. dir\<lparr>sd_rollout := Some r'\<rparr>) st1
    | (Inl err, st2) \<Rightarrow> st2 = st1 \<and> (err = RolloutFailed RolloutTooLarge \<or> err = RolloutFileTooLarge)"
proof -
  have ok: "bt_ok st" using after_calls_ok assms(2) by simp
  note a = rollback_behind [OF assms(3) ok]
  let ?q = "rolled_back_by e (max (ro_updated_at r) (ev_created_at e)) r"
  obtain n where n: "ro_activated_revision r = Some n" "ev_revision e = saturating_add 64 n 1" using a(4) by blast
  note v = behind_fields [OF a(1)]
  have "progressed r ?q" by (simp add: progressed_def rolled_back_by_def)
  moreover have "validate_phase ?q = Inr ()" by (rule rolled_back_phase [OF v(1) a(2) v(2) n v(3)])
  moreover have "recover_rollout_checkpoint (renv env) r (Some e) = and_then (refresh_rollout (renv env) ?q) (\<lambda>r'. Inr (True, r'))"
    using a(3) assms(4) by (simp add: recover_rollout_checkpoint_def)
  ultimately show ?thesis
    using recovery_written [OF assms(1) a(1)] by (fastforce split: prod.splits sum.splits)
qed

text \<open>C40: the rollback of a committed rollout is not completed.  If it stops between its two writes, the
  checkpoint stays committed although the desired state is the previous one again, and every later
  rollback of it is refused.\<close>

theorem interrupted_committed_rollback_stuck:
  assumes "st = after_calls env calls []" and "rollback_interrupted env stack st r e st1" and "ro_phase r = Committed"
    and "ro_updated_at r \<le> now_ms" and "0 < now_ms"
  shows "rollout env stack st1 = (Inr (Some r), st1) \<and>
    rollback_rollout env clock stack (ro_rollout_id r) now_ms st1 = (Inl (RolloutFailed NotActivatedState), st1)"
proof -
  have ok: "bt_ok st" using after_calls_ok assms(1) by simp
  note a = rollback_behind [OF assms(2) ok]
  have b: "valid_name stack" "sd_rollout (dir_of st1 stack) = Some r" "read_rollout_file env r = Inr r" "ro_stack r = stack"
    "latest env st1 stack = Inr (Some e)" using a(1) by (simp_all add: one_behind_def)
  have r: "rollout env stack st1 = (Inr (Some r), st1)"
    using rollout_eval [OF b] assms(3) by (simp add: recover_rollout_checkpoint_def)
  have "is_digest (ro_rollout_id r)" using read_rollout_file_Inr [OF b(3)] validate_rollout_Inr(3) by blast
  then have q: "require_rollout env stack (ro_rollout_id r) st1 = (Inr r, st1)"
    by (simp add: require_rollout_def act_then_def r pure_act_def)
  have "ensure_matches_activation r (Some e) = Inl NotActivatedState"
    using a(4) by (auto simp: ensure_matches_activation_def)
  then have "rollback_rollout env clock stack (ro_rollout_id r) now_ms st1 = (Inl (RolloutFailed NotActivatedState), st1)"
    using assms(3-5) b(5)
    by (simp add: rollback_rollout_def act_then_def q ensure_time_advances_def query_def pure_act_def)
  with r show ?thesis by simp
qed

section \<open>Rolling back\<close>

lemma require_same:
  assumes "require_rollout env stack identity st = (Inr r, st0)"
  shows "rollout env stack st = (Inr (Some r), st0)" "ro_rollout_id r = identity"
  using assms by (auto simp: require_rollout_def act_then_Inr)

lemma activate_Inr:
  assumes "activate_rollout env clock stack identity now_ms st = (Inr r1, st1)"
    and "rollout env stack st = (Inr (Some r), st0)" and "ro_phase r = Prepared"
  obtains previous e st' where "latest env st0 stack = Inr previous" "ensure_matches_previous r previous = Inr ()"
    "append_next env clock previous ApplyEvent (Some (ro_candidate_plan r)) st0 = (Inr e, st')"
    "refresh_rollout (renv env) (activated_by e now_ms r) = Inr r1" "write_rollout_file env stack r1 st' = (Inr (), st1)"
  using assms unfolding activate_rollout_def by (auto simp: act_then_Inr dest!: require_same(1))

lemma rollback_Inr:
  assumes "rollback_rollout env clock stack identity now_ms st = (Inr r1, st1)"
    and "rollout env stack st = (Inr (Some r), st0)" and "ro_phase r = Activated \<or> ro_phase r = Committed"
  obtains current kind plan e st' where "latest env st0 stack = Inr current" "ensure_matches_activation r current = Inr ()"
    "rollback_target r = Inr (kind, plan)" "append_next env clock current kind plan st0 = (Inr e, st')"
    "refresh_rollout (renv env) (rolled_back_by e now_ms r) = Inr r1" "write_rollout_file env stack r1 st' = (Inr (), st1)"
  using assms unfolding rollback_rollout_def by (auto simp: act_then_Inr dest!: require_same(1))

text \<open>A fresh activation is not mistaken for its own rollback.\<close>

lemma activated_stays:
  assumes "one_behind env stack r e st" and "ro_phase r = Activated" and "ensure_matches_activation r (Some e) = Inr ()"
    and "ro_activated_generation r \<noteq> ro_previous_generation r"
  shows "rollout env stack st = (Inr (Some r), st)"
proof -
  have b: "valid_name stack" "sd_rollout (dir_of st stack) = Some r" "read_rollout_file env r = Inr r" "ro_stack r = stack"
    "latest env st stack = Inr (Some e)" using assms(1) by (simp_all add: one_behind_def)
  have "is_digest (ev_sha256 e)" by (rule behind_fields(2) [OF assms(1)])
  then have "ev_sha256 e \<noteq> []" by (auto simp: is_digest_def)
  then have "\<not> matches_rollback r (Some e)"
    using assms(3,4) by (auto simp: matches_rollback_def ensure_matches_activation_def matches_candidate_def unwrap_default_def
        split: option.splits)
  then show ?thesis using rollout_eval [OF b] assms(2,3) by (simp add: recover_rollout_checkpoint_def)
qed

lemma written_behind:
  assumes "one_behind env stack r e st" and "write_rollout_file env stack q st = (Inr (), st')" and "ro_stack q = stack"
  shows "one_behind env stack q e st'"
proof -
  have "st' = set_dir stack (\<lambda>d. d\<lparr>sd_rollout := Some q\<rparr>) st" "read_rollout_file env q = Inr q"
    using write_rollout_file_Inr [OF assms(2)] by simp_all
  moreover from this(1) have "latest env st' stack = latest env st stack"
    using assms(1) by (intro latest_of_events) (simp add: one_behind_def)
  ultimately show ?thesis using assms(1,3) by (simp add: one_behind_def)
qed

lemma activation_done:
  assumes "bt_ok st" and "rollout env stack st = (Inr (Some r), st0)" and "ro_phase r = Prepared"
    and "activate_rollout env clock stack identity now_ms st = (Inr r1, st1)"
    and "ro_activated_generation r1 \<noteq> ro_previous_generation r1"
  shows "rollout env stack st1 = (Inr (Some r1), st1)" "bt_ok st1" "\<exists>e d. r1 = (activated_by e now_ms r)\<lparr>ro_record_sha256 := d\<rparr> \<and>
    ev_revision e = (case ro_previous_revision r of None \<Rightarrow> 1 | Some n \<Rightarrow> saturating_add 64 n 1)"
proof -
  obtain previous e st' where a: "latest env st0 stack = Inr previous" "ensure_matches_previous r previous = Inr ()"
    "append_next env clock previous ApplyEvent (Some (ro_candidate_plan r)) st0 = (Inr e, st')"
    "refresh_rollout (renv env) (activated_by e now_ms r) = Inr r1" "write_rollout_file env stack r1 st' = (Inr (), st1)"
    by (rule activate_Inr [OF assms(4,2,3)])
  have i: "activation_interrupted env stack st r e st'"
    using assms(2,3) a(1-3) unfolding activation_interrupted_def by blast
  note b = activation_behind [OF i assms(1)]
  obtain d where r1: "r1 = (activated_by e now_ms r)\<lparr>ro_record_sha256 := d\<rparr>" using refresh_rollout_Inr(2) [OF a(4)] by blast
  have w: "one_behind env stack r1 e st1"
    by (rule written_behind [OF b(1) a(5)]) (use b(1) in \<open>simp add: r1 activated_by_def one_behind_def\<close>)
  have "ensure_matches_activation r1 (Some e) = Inr ()"
    using b(3) by (simp add: r1 activated_by_def ensure_matches_activation_def matches_candidate_def split: option.splits)
  from activated_stays [OF w _ this assms(5)] show "rollout env stack st1 = (Inr (Some r1), st1)"
    by (simp add: r1 activated_by_def)
  show "bt_ok st1" using w by (simp add: one_behind_def)
  show "\<exists>e d. r1 = (activated_by e now_ms r)\<lparr>ro_record_sha256 := d\<rparr> \<and>
    ev_revision e = (case ro_previous_revision r of None \<Rightarrow> 1 | Some n \<Rightarrow> saturating_add 64 n 1)"
    using r1 b(4) by blast
qed

text \<open>C5: a rollback restores what was there.  Rolling back an activated rollout appends the event kind and
  the plan that were current before the activation, or a removal if the stack was unknown, two revisions
  later; the rollout ends as rolled back.  The generation of the activation must differ from the previous one,
  which a repetition of the event digest would violate.\<close>

theorem rollback_restores_previous:
  assumes "st = after_calls env calls []" and "rollout env stack st = (Inr (Some r), st0)" and "ro_phase r = Prepared"
    and "latest env st stack = Inr old"
    and "activate_rollout env clock stack (ro_rollout_id r) t st = (Inr r1, st1)"
    and "ro_activated_generation r1 \<noteq> ro_previous_generation r1"
    and "rollback_rollout env clock' stack (ro_rollout_id r) t' st1 = (Inr r2, st2)"
  shows "ro_phase r2 = RolledBack \<and> (\<exists>e. latest env st2 stack = Inr (Some e) \<and>
    (case old of
       None \<Rightarrow> ev_kind e = RemoveEvent \<and> ev_plan e = None \<and> ev_revision e = 2
     | Some b \<Rightarrow> ev_kind e = ev_kind b \<and> map_option pl_plan_sha256 (ev_plan e) = map_option pl_plan_sha256 (ev_plan b) \<and>
         ev_revision e = ev_revision b + 2))"
proof -
  have ok: "bt_ok st" using after_calls_ok assms(1) by simp
  note d = activation_done [OF ok assms(2,3,5,6)]
  obtain e1 d1 where r1: "r1 = (activated_by e1 t r)\<lparr>ro_record_sha256 := d1\<rparr>"
    and rev: "ev_revision e1 = (case ro_previous_revision r of None \<Rightarrow> 1 | Some n \<Rightarrow> saturating_add 64 n 1)" using d(3) by blast
  have ph: "ro_phase r1 = Activated \<or> ro_phase r1 = Committed" by (simp add: r1 activated_by_def)
  obtain current kind plan e st' where a: "latest env st1 stack = Inr current" "ensure_matches_activation r1 current = Inr ()"
    "rollback_target r1 = Inr (kind, plan)" "append_next env clock' current kind plan st1 = (Inr e, st')"
    "refresh_rollout (renv env) (rolled_back_by e t' r1) = Inr r2" "write_rollout_file env stack r2 st' = (Inr (), st2)"
    by (rule rollback_Inr [OF assms(7) d(1) ph])
  have i: "rollback_interrupted env stack st1 r1 e st'"
    using d(1) ph a(1-4) unfolding rollback_interrupted_def by blast
  note b = rollback_behind [OF i d(2)]
  have r2: "ro_phase r2 = RolledBack" "ro_stack r2 = ro_stack r1"
    using refresh_rollout_Inr(2) [OF a(5)] by (auto simp: rolled_back_by_def)
  have "one_behind env stack r2 e st2"
    by (rule written_behind [OF b(1) a(6)]) (use b(1) r2 in \<open>simp add: one_behind_def\<close>)
  then have l: "latest env st2 stack = Inr (Some e)" by (simp add: one_behind_def)
  have m: "ensure_matches_previous r old = Inr ()"
    using activate_Inr [OF assms(5,2,3)] latest_of_events [OF rollout_file(3) [OF assms(2) ok]] assms(4) by (metis Inr_inject)
  have p: "ro_previous_state r1 = ro_previous_state r" "ro_previous_plan r1 = ro_previous_plan r"
    "ro_activated_revision r1 = Some (ev_revision e1)" by (simp_all add: r1 activated_by_def)
  have v: "validate_previous (renv env) r = Inr ()" by (rule validate_rollout_Inr(5) [OF rollout_Inr(2) [OF assms(2)]])
  have "case old of None \<Rightarrow> ev_kind e = RemoveEvent \<and> ev_plan e = None \<and> ev_revision e = 2
     | Some b \<Rightarrow> ev_kind e = ev_kind b \<and> map_option pl_plan_sha256 (ev_plan e) = map_option pl_plan_sha256 (ev_plan b) \<and>
         ev_revision e = ev_revision b + 2"
  proof (cases old)
    case None
    then have "ro_previous_revision r = None" using m by (auto simp: ensure_matches_previous_def split: option.splits)
    moreover from this have "ro_previous_state r = None" using v by (auto simp: validate_previous_def split: option.splits)
    ultimately show ?thesis using None b(4,5) p rev by (auto simp: rollback_target_def)
  next
    case (Some q)
    then have q: "ro_previous_revision r = Some (ev_revision q)" "ro_previous_state r = Some (st_state (event_status q))"
      "map_option pl_plan_sha256 (ro_previous_plan r) = map_option pl_plan_sha256 (ev_plan q)"
      using m by (auto simp: ensure_matches_previous_def split: option.splits)
    have "ev_revision q \<le> 4096"
      by (rule latest_last [OF assms(4) [unfolded Some]])
        (auto simp: last_event_def chained_def last_conv_nth split: if_splits)
    then have "ev_revision e = ev_revision q + 2" using b(4) p(3) rev q(1) by (simp add: saturating_add_def)
    moreover have "ro_previous_state r = Some Removed \<Longrightarrow> ro_previous_plan r = None"
      using v by (auto simp: validate_previous_def split: option.splits if_splits)
    ultimately show ?thesis
      using b(5) p(1,2) q(2,3) Some
      by (cases "ev_kind q") (auto simp: rollback_target_def event_status_def state_of_kind_def and_then_Inr)
  qed
  with r2(1) l show ?thesis by blast
qed

section \<open>Committing\<close>

lemma completed_none_running:
  assumes "from_status c sc s (Some rt) now_ms = Inr h" and "hr_state h = CompletedState"
  shows "\<forall>r \<in> set (rs_replicas rt). rr_phase r \<noteq> RunningPhase"
proof -
  from from_status_Inr [OF assms(1)] obtain h0 d where
    h: "observe_runtime sc s now_ms rt (first_report s (st_desired_replicas s) (Some rt) now_ms) = Inr h0"
    "h = h0\<lparr>hr_report_sha256 := d\<rparr>" unfolding option.case by blast
  note n = observe_runtime_counts [OF h(1)]
  have "hr_running h0 = 0"
    using assms(2) h(2) n(15) by (auto simp: derived_applied_state_def first_health_state_def Let_def
        split: if_splits stack_state.splits)
  then show ?thesis using n(3) in_phase_zero by simp
qed

lemma commit_Inr:
  assumes "commit_rollout env stack identity now_ms st = (Inr r', st')"
    and "rollout env stack st = (Inr (Some r), st0)" and "ro_phase r = Activated"
  obtains current h where "latest env st0 stack = Inr current" "ensure_matches_activation r current = Inr ()"
    "store_health env st0 stack now_ms = Inr h"
    "health_ready h \<or> list_all (\<lambda>i. pi_desired i = Stopped) (pl_instances (ro_candidate_plan r))"
    "hr_state h = HealthyState \<longrightarrow> (\<exists>s. store_runtime_status env st0 stack = Inr (Some s) \<and> list_all (replica_stable now_ms) (rs_replicas s))"
    "refresh_rollout (renv env) (committed_with (hr_report_sha256 h) now_ms r) = Inr r'"
proof -
  obtain current h st1 where a: "latest env st0 stack = Inr current" "ensure_matches_activation r current = Inr ()"
    "store_health env st0 stack now_ms = Inr h"
    "health_ready h \<or> hr_state h = StoppedState \<and> hr_desired_replicas h = 0 \<and>
       list_all (\<lambda>i. pi_desired i = Stopped) (pl_instances (ro_candidate_plan r))"
    "(if hr_state h = HealthyState then
        act_then (query (\<lambda>st. store_runtime_status env st stack)) (\<lambda>runtime.
        act_then (pure_act (ok_or runtime NoObservedRuntime)) (\<lambda>s.
        pure_act (fail_if (\<not> list_all (replica_stable now_ms) (rs_replicas s)) NotStableYet)))
      else pure_act (Inr ())) st0 = (Inr (), st1)"
    "refresh_rollout (renv env) (committed_with (hr_report_sha256 h) now_ms r) = Inr r'"
    using assms unfolding commit_rollout_def Let_def by (auto simp: act_then_Inr dest!: require_same(1))
  show thesis
  proof (rule that [OF a(1-3) _ _ a(6)])
    show "health_ready h \<or> list_all (\<lambda>i. pi_desired i = Stopped) (pl_instances (ro_candidate_plan r))" using a(4) by blast
    show "hr_state h = HealthyState \<longrightarrow> (\<exists>s. store_runtime_status env st0 stack = Inr (Some s) \<and>
        list_all (replica_stable now_ms) (rs_replicas s))" using a(5) by (auto simp: act_then_Inr)
  qed
qed

text \<open>C7: a commit needs a healthy candidate.  An activated rollout becomes committed only when its
  candidate wants nothing running, or when the runtime status of exactly the activated generation shows as many
  replicas running or succeeded as are desired, none waiting or failed, every probe ready, and every running
  replica ready or started for at least two seconds.\<close>

theorem commit_needs_health:
  assumes "st = after_calls env calls []" and "rollout env stack st = (Inr (Some r), st0)" and "ro_phase r = Activated"
    and "commit_rollout env stack (ro_rollout_id r) now_ms st = (Inr r', st')"
  shows "ro_phase r' = Committed \<and> (\<exists>e. latest env st stack = Inr (Some e) \<and> ro_activated_generation r = Some (ev_sha256 e) \<and>
    (list_all (\<lambda>i. pi_desired i = Stopped) (pl_instances (ro_candidate_plan r)) \<or>
     (\<exists>s. store_runtime_status env st0 stack = Inr (Some s) \<and> rs_generation s = ev_sha256 e \<and>
       (\<forall>q \<in> set (rs_replicas s). rr_phase q \<in> {RunningPhase, Succeeded, StoppedPhase} \<and>
         (\<forall>p. rr_probe q = Some p \<longrightarrow> pr_phase p = ProbeReady) \<and>
         (rr_phase q = RunningPhase \<longrightarrow> (\<exists>since. (case rr_probe q of None \<Rightarrow> rr_started_at q | Some p \<Rightarrow> pr_ready_at p) = Some since \<and>
            since + 2000 \<le> now_ms))) \<and>
       length (filter (\<lambda>q. rr_phase q \<in> {RunningPhase, Succeeded}) (rs_replicas s)) = st_desired_replicas (event_status e))))"
proof -
  have ok: "bt_ok st" using after_calls_ok assms(1) by simp
  obtain current h where c: "latest env st0 stack = Inr current" "ensure_matches_activation r current = Inr ()"
    "store_health env st0 stack now_ms = Inr h"
    "health_ready h \<or> list_all (\<lambda>i. pi_desired i = Stopped) (pl_instances (ro_candidate_plan r))"
    "hr_state h = HealthyState \<longrightarrow> (\<exists>s. store_runtime_status env st0 stack = Inr (Some s) \<and> list_all (replica_stable now_ms) (rs_replicas s))"
    "refresh_rollout (renv env) (committed_with (hr_report_sha256 h) now_ms r) = Inr r'"
    by (rule commit_Inr [OF assms(4,2,3)])
  obtain e where e: "current = Some e" "ro_activated_generation r = Some (ev_sha256 e)"
    using c(2) by (auto simp: ensure_matches_activation_def split: option.splits)
  have l: "latest env st stack = Inr (Some e)"
    using latest_of_events [OF rollout_file(3) [OF assms(2) ok]] c(1) e(1) by simp
  have ph: "ro_phase r' = Committed" using refresh_rollout_Inr(2) [OF c(6)] by (auto simp: committed_with_def)
  show ?thesis
  proof (cases "list_all (\<lambda>i. pi_desired i = Stopped) (pl_instances (ro_candidate_plan r))")
    case True
    with ph l e(2) show ?thesis by blast
  next
    case False
    then have ready: "health_ready h" using c(4) by blast
    obtain runtime where rt: "store_runtime_status env st0 stack = Inr runtime"
      "from_status (report_codec env) (runtime_codec env) (event_status e) runtime now_ms = Inr h"
      using c(1,3) e(1) by (auto simp: store_health_def store_status_def and_then_Inr)
    obtain s where s: "runtime = Some s" "rs_generation s = st_event_sha256 (event_status e)"
      "\<forall>q \<in> set (rs_replicas s). rr_phase q \<in> {RunningPhase, Succeeded, StoppedPhase} \<and>
        (\<forall>p. rr_probe q = Some p \<longrightarrow> pr_phase p = ProbeReady)"
      "length (filter (\<lambda>q. rr_phase q \<in> {RunningPhase, Succeeded}) (rs_replicas s)) = st_desired_replicas (event_status e)"
      using ready_report [OF rt(2) ready] by blast
    have "\<exists>since. (case rr_probe q of None \<Rightarrow> rr_started_at q | Some p \<Rightarrow> pr_ready_at p) = Some since \<and> since + 2000 \<le> now_ms"
      if q: "q \<in> set (rs_replicas s)" "rr_phase q = RunningPhase" for q
    proof -
      have "hr_state h = HealthyState"
        using ready completed_none_running [OF rt(2) [unfolded s(1)]] q by (auto simp: health_ready_def)
      then have "replica_stable now_ms q" using c(5) rt(1) s(1) q(1) by (auto simp: list_all_iff)
      then show ?thesis using q(2) by (auto simp: replica_stable_def rollout_consts split: option.splits)
    qed
    with s rt(1) e(2) l ph show ?thesis by (auto simp: event_status_def)
  qed
qed

section \<open>Examples\<close>

definition demo_at :: "event_file list \<Rightarrow> rollout_record option \<Rightarrow> runtime_status option \<Rightarrow> engine_store" where
  "demo_at es ro rt = [(''shop'', \<lparr>sd_events = es, sd_rollout = ro, sd_archive = [], sd_progress = None,
     sd_runtime = rt, sd_generations = [], sd_routes = None\<rparr>)]"

definition demo_prepared :: rollout_record where
  "demo_prepared = \<lparr>ro_format_version = 1, ro_rollout_id = demo_digest, ro_stack = ''shop'', ro_phase = Prepared,
     ro_created_at = 3, ro_updated_at = 3, ro_previous_revision = None, ro_previous_generation = None,
     ro_previous_state = None, ro_previous_plan = None, ro_candidate_plan = demo_plan, ro_activated_revision = None,
     ro_activated_generation = None, ro_rollback_revision = None, ro_rollback_generation = None,
     ro_health_report_sha256 = None, ro_record_sha256 = demo_digest\<rparr>"

definition demo_activated :: rollout_record where
  "demo_activated = activated_by demo_applied 5 demo_prepared"

definition demo_committed :: rollout_record where
  "demo_committed = committed_with demo_digest 2100 demo_activated"

definition demo_rolled_back :: rollout_record where
  "demo_rolled_back = rolled_back_by demo_removed 6 demo_activated"

lemmas demo_record_defs = demo_prepared_def demo_activated_def demo_committed_def demo_rolled_back_def
  activated_by_def committed_with_def rolled_back_by_def demo_applied_def demo_removed_def

lemma demo_records_ok:
  "validate_rollout (renv demo_engine) demo_prepared = Inr ()" "validate_rollout (renv demo_engine) demo_activated = Inr ()"
  "validate_rollout (renv demo_engine) demo_committed = Inr ()" "validate_rollout (renv demo_engine) demo_rolled_back = Inr ()"
  using demo_plan_ok demo_shop demo_other_digest
  by (simp_all add: validate_rollout_def computed_rollout_id_def rollout_id_def record_sha256_def validate_previous_def
      validate_phase_def valid_phase_fields_def positive_option_def digest_option_def demo_record_defs demo_engine_def
      renv_def rollout_env.defs demo_codec_def demo_plan_def rollout_consts plan_consts saturating_add_def)

lemma demo_refresh:
  "validate_rollout (renv demo_engine) r = Inr () \<Longrightarrow> r\<lparr>ro_record_sha256 := demo_digest\<rparr> = r \<Longrightarrow>
    refresh_rollout (renv demo_engine) r = Inr r"
  by (simp add: refresh_rollout_def record_sha256_def demo_codec_def)

lemma demo_write:
  "validate_rollout (renv demo_engine) r = Inr () \<Longrightarrow>
    write_rollout_file demo_engine ''shop'' r (demo_at es ro rt) = (Inr (), demo_at es (Some r) rt)"
  by (simp add: write_rollout_file_def demo_codec_def demo_at_def)

lemma demo_read: "validate_rollout (renv demo_engine) r = Inr () \<Longrightarrow> read_rollout_file demo_engine r = Inr r"
  by (simp add: read_rollout_file_def demo_codec_def)

lemma demo_at_dir [simp]: "dir_of (demo_at es ro rt) ''shop'' = \<lparr>sd_events = es, sd_rollout = ro, sd_archive = [],
    sd_progress = None, sd_runtime = rt, sd_generations = [], sd_routes = None\<rparr>"
  by (simp add: demo_at_def)

lemma demo_latest:
  "latest demo_engine (demo_at [] ro rt) ''shop'' = Inr None"
  "latest demo_engine (demo_at [(1, demo_applied)] ro rt) ''shop'' = Inr (Some demo_applied)"
  "latest demo_engine (demo_at [(1, demo_applied), (2, demo_removed)] ro rt) ''shop'' = Inr (Some demo_removed)"
  using demo_journal demo_shop by (simp_all add: latest_def store_events_def last_event_def)

lemma demo_next_removed: "next_event demo_env 6 (Some demo_applied) RemoveEvent None = Inr demo_removed"
proof -
  have "event_sha256 demo_env (demo_removed\<lparr>ev_sha256 := []\<rparr>) = Inr (replicate 64 CHR ''b'')"
    using validate_event_Inr(5) [OF demo_events_ok(2)] by (simp add: event_sha256_def demo_removed_def)
  moreover have "wrapping_add 64 1 1 = 2" by (simp add: wrapping_add_def)
  ultimately show ?thesis
    using demo_events_ok(2)
    by (simp add: next_event_def new_event_def Let_def demo_applied_def demo_removed_def journal_consts del: One_nat_def)
qed

lemma demo_appends:
  "append_next demo_engine 5 None ApplyEvent (Some demo_plan) (demo_at [] ro rt) =
     (Inr demo_applied, demo_at [(1, demo_applied)] ro rt)"
  "append_next demo_engine 6 (Some demo_applied) RemoveEvent None (demo_at [(1, demo_applied)] ro rt) =
     (Inr demo_removed, demo_at [(1, demo_applied), (2, demo_removed)] ro rt)"
proof -
  have "ev_stack demo_applied = ''shop''" "ev_stack demo_removed = ''shop''" by (simp_all add: demo_applied_def demo_removed_def)
  then show "append_next demo_engine 5 None ApplyEvent (Some demo_plan) (demo_at [] ro rt) =
     (Inr demo_applied, demo_at [(1, demo_applied)] ro rt)"
   "append_next demo_engine 6 (Some demo_applied) RemoveEvent None (demo_at [(1, demo_applied)] ro rt) =
     (Inr demo_removed, demo_at [(1, demo_applied), (2, demo_removed)] ro rt)"
    using demo_append_first demo_journal(2) demo_events_ok demo_shop
    by (simp_all add: append_next_def append_def append_step_def demo_next_applied demo_next_removed act_then_def
        create_stack_events_def demo_at_def pure_act_def)
qed

lemma demo_rollouts:
  "rollout demo_engine ''shop'' (demo_at [] (Some demo_prepared) rt) = (Inr (Some demo_prepared), demo_at [] (Some demo_prepared) rt)"
  "rollout demo_engine ''shop'' (demo_at [(1, demo_applied)] (Some demo_activated) rt) =
     (Inr (Some demo_activated), demo_at [(1, demo_applied)] (Some demo_activated) rt)"
  "rollout demo_engine ''shop'' (demo_at [(1, demo_applied)] (Some demo_committed) rt) =
     (Inr (Some demo_committed), demo_at [(1, demo_applied)] (Some demo_committed) rt)"
proof -
  have e: "rollout demo_engine ''shop'' (demo_at es (Some r) rt) = (Inr (Some r), demo_at es (Some r) rt)"
    if "latest demo_engine (demo_at es (Some r) rt) ''shop'' = Inr current" "validate_rollout (renv demo_engine) r = Inr ()"
      "ro_stack r = ''shop''" "recover_rollout_checkpoint (renv demo_engine) r current = Inr (False, r)" for es r current
    using rollout_eval [OF demo_shop _ demo_read [OF that(2)] that(3,1)] that(4) by simp
  have d: "demo_digest \<noteq> []" by (simp add: demo_digest_def)
  have c: "recover_rollout_checkpoint (renv demo_engine) demo_prepared None = Inr (False, demo_prepared)"
    "recover_rollout_checkpoint (renv demo_engine) demo_activated (Some demo_applied) = Inr (False, demo_activated)"
    "recover_rollout_checkpoint (renv demo_engine) demo_committed (Some demo_applied) = Inr (False, demo_committed)"
    using d by (simp_all add: demo_record_defs recover_rollout_checkpoint_def matches_candidate_def
        ensure_matches_previous_def matches_rollback_def ensure_matches_activation_def unwrap_default_def)
  have n: "ro_stack demo_prepared = ''shop''" "ro_stack demo_activated = ''shop''" "ro_stack demo_committed = ''shop''"
    by (simp_all add: demo_record_defs)
  show "rollout demo_engine ''shop'' (demo_at [] (Some demo_prepared) rt) = (Inr (Some demo_prepared), demo_at [] (Some demo_prepared) rt)"
    by (rule e [OF demo_latest(1) demo_records_ok(1) n(1) c(1)])
  show "rollout demo_engine ''shop'' (demo_at [(1, demo_applied)] (Some demo_activated) rt) =
     (Inr (Some demo_activated), demo_at [(1, demo_applied)] (Some demo_activated) rt)"
    by (rule e [OF demo_latest(2) demo_records_ok(2) n(2) c(2)])
  show "rollout demo_engine ''shop'' (demo_at [(1, demo_applied)] (Some demo_committed) rt) =
     (Inr (Some demo_committed), demo_at [(1, demo_applied)] (Some demo_committed) rt)"
    by (rule e [OF demo_latest(2) demo_records_ok(3) n(3) c(3)])
qed

lemma demo_sel:
  "pl_stack demo_plan = ''shop''" "ss_sandbox (pl_security demo_plan) = Required" "ro_rollout_id demo_prepared = demo_digest"
  "ro_rollout_id demo_activated = demo_digest" "ro_phase demo_prepared = Prepared" "ro_phase demo_activated = Activated"
  "ro_phase demo_committed = Committed" "ro_updated_at demo_prepared = 3" "ro_updated_at demo_activated = 5"
  "ro_candidate_plan demo_prepared = demo_plan" "ro_candidate_plan demo_activated = demo_plan"
  by (simp_all add: demo_plan_def demo_record_defs)

lemma demo_prepare: "prepare_rollout demo_engine demo_plan False 3 [] = (Inr demo_prepared, demo_at [] (Some demo_prepared) None)"
proof -
  have "new_rollout (renv demo_engine) demo_plan None 3 = refresh_rollout (renv demo_engine) (demo_prepared\<lparr>ro_record_sha256 := []\<rparr>)"
    by (simp add: new_rollout_def computed_rollout_id_def rollout_id_def demo_codec_def demo_prepared_def rollout_consts
        demo_plan_def demo_engine_def renv_def rollout_env.defs)
  also have "\<dots> = Inr demo_prepared"
    using demo_records_ok(1) by (simp add: refresh_rollout_def record_sha256_def demo_codec_def demo_prepared_def)
  finally have n: "new_rollout (renv demo_engine) demo_plan None 3 = Inr demo_prepared" .
  have "rollout demo_engine ''shop'' [] = (Inr None, [])"
    using demo_shop by (simp add: rollout_def act_then_def query_def pure_act_def empty_dir_def)
  moreover have "latest demo_engine [] ''shop'' = Inr None"
    using demo_shop by (simp add: latest_def store_events_def empty_dir_def last_event_def)
  moreover have "store_list demo_engine [] = Inr []" by (simp add: store_list_def somes_def)
  moreover have "write_rollout_file demo_engine ''shop'' demo_prepared [] = (Inr (), demo_at [] (Some demo_prepared) None)"
    using demo_records_ok(1) by (simp add: write_rollout_file_def demo_codec_def demo_at_def empty_dir_def)
  ultimately show ?thesis
    using n demo_plan_ok
    by (simp add: prepare_rollout_def prepare_fresh_def act_then_def query_def pure_act_def stack_limit_reached_def
        MAX_ENGINE_STACKS_def already_applied_def demo_sel)
qed

lemma demo_require:
  "rollout demo_engine ''shop'' st = (Inr (Some r), st) \<Longrightarrow> ro_rollout_id r = demo_digest \<Longrightarrow>
    require_rollout demo_engine ''shop'' demo_digest st = (Inr r, st)"
  by (simp add: require_rollout_def act_then_def pure_act_def)

lemma demo_activate:
  "activate_rollout demo_engine 5 ''shop'' demo_digest 5 (demo_at [] (Some demo_prepared) rt) =
     (Inr demo_activated, demo_at [(1, demo_applied)] (Some demo_activated) rt)"
proof -
  have "require_rollout demo_engine ''shop'' demo_digest (demo_at [] (Some demo_prepared) rt) =
      (Inr demo_prepared, demo_at [] (Some demo_prepared) rt)"
    by (rule demo_require [OF demo_rollouts(1)]) (simp add: demo_sel)
  moreover have "refresh_rollout (renv demo_engine) (activated_by demo_applied 5 demo_prepared) = Inr demo_activated"
    using demo_refresh [OF demo_records_ok(2)] by (simp add: demo_activated_def) (simp add: demo_record_defs)
  moreover have "ensure_matches_previous demo_prepared None = Inr ()" by (simp add: ensure_matches_previous_def demo_prepared_def)
  ultimately show ?thesis
    by (simp add: activate_rollout_def act_then_def query_def pure_act_def demo_sel ensure_time_advances_def demo_latest(1)
        demo_appends(1) demo_write demo_records_ok(2) del: One_nat_def)
qed

lemma demo_save:
  "save_runtime_status demo_engine demo_ready_status (demo_at [(1, demo_applied)] ro rt) =
     (Inr (), demo_at [(1, demo_applied)] ro (Some demo_ready_status))"
proof -
  have "desired_plan demo_engine (demo_at [(1, demo_applied)] ro rt) ''shop'' = Inr (Some (1, demo_digest, demo_plan))"
    using demo_latest(2) by (simp add: desired_plan_def) (simp add: demo_applied_def)
  moreover have "against demo_engine demo_ready_status demo_plan 1 demo_digest = Inr ()"
    using demo_ready_matches by (simp add: against_def demo_env_def demo_applied_def)
  moreover have "rs_stack demo_ready_status = ''shop''" by (simp add: demo_ready_status_def)
  ultimately show ?thesis
    using demo_ready_valid by (simp add: save_runtime_status_def demo_codec_def [where 'd = runtime_status]) (simp add: demo_at_def)
qed

lemma demo_commit:
  "commit_rollout demo_engine ''shop'' demo_digest 2100 (demo_at [(1, demo_applied)] (Some demo_activated) (Some demo_ready_status)) =
     (Inr demo_committed, demo_at [(1, demo_applied)] (Some demo_committed) (Some demo_ready_status))"
proof -
  let ?st = "demo_at [(1, demo_applied)] (Some demo_activated) (Some demo_ready_status)"
  obtain h where h: "from_status demo_codec demo_codec (event_status demo_applied) (Some demo_ready_status) 2100 = Inr h"
    "hr_state h = HealthyState" by (rule demo_report [of 2100]) simp_all
  have sha: "hr_report_sha256 h = demo_digest"
    using h(1) by (auto simp: from_status_def and_then_Inr report_sha256_def demo_codec_def Let_def)
  have "against demo_engine demo_ready_status demo_plan 1 demo_digest = Inr ()"
    using demo_ready_matches by (simp add: against_def demo_env_def demo_applied_def)
  moreover have "desired_plan demo_engine ?st ''shop'' = Inr (Some (1, demo_digest, demo_plan))"
    using demo_latest(2) by (simp add: desired_plan_def) (simp add: demo_applied_def)
  moreover have "read_runtime_status demo_engine demo_ready_status = Inr demo_ready_status"
    using demo_ready_valid by (simp add: read_runtime_status_def) (simp add: demo_codec_def)
  moreover have "rs_revision demo_ready_status = 1" "rs_generation demo_ready_status = demo_digest"
    by (simp_all add: demo_ready_status_def)
  ultimately have rt: "store_runtime_status demo_engine ?st ''shop'' = Inr (Some demo_ready_status)"
    using demo_shop by (simp add: store_runtime_status_def)
  have he: "store_health demo_engine ?st ''shop'' 2100 = Inr h"
    using rt h(1) demo_latest(2) by (simp add: store_health_def store_status_def)
  have stable: "list_all (replica_stable 2100) (rs_replicas demo_ready_status)"
    by (simp add: demo_ready_status_def demo_ready_replica_def replica_stable_def rollout_consts)
  have "require_rollout demo_engine ''shop'' demo_digest ?st = (Inr demo_activated, ?st)"
    by (rule demo_require [OF demo_rollouts(2)]) (simp add: demo_sel)
  moreover have "refresh_rollout (renv demo_engine) (committed_with demo_digest 2100 demo_activated) = Inr demo_committed"
    using demo_refresh [OF demo_records_ok(3)] by (simp add: demo_committed_def) (simp add: demo_record_defs)
  moreover have "ensure_matches_activation demo_activated (Some demo_applied) = Inr ()"
    by (simp add: ensure_matches_activation_def matches_candidate_def demo_record_defs unwrap_default_def)
  ultimately show ?thesis
    using h(2) sha stable rt he
    by (simp add: commit_rollout_def act_then_def query_def pure_act_def demo_sel ensure_time_advances_def demo_latest(2)
        health_ready_def demo_write demo_records_ok(3) del: One_nat_def)
qed

text \<open>The store after these calls.\<close>

definition demo_calls :: "engine_call list" where
  "demo_calls = [CallPrepare demo_plan False 3, CallActivate 5 ''shop'' demo_digest 5, CallSaveRuntime demo_ready_status,
     CallCommit ''shop'' demo_digest 2100]"

lemma demo_after:
  "after_calls demo_engine (take 1 demo_calls) [] = demo_at [] (Some demo_prepared) None"
  "after_calls demo_engine (take 2 demo_calls) [] = demo_at [(1, demo_applied)] (Some demo_activated) None"
  "after_calls demo_engine (take 3 demo_calls) [] = demo_at [(1, demo_applied)] (Some demo_activated) (Some demo_ready_status)"
  "after_calls demo_engine demo_calls [] = demo_at [(1, demo_applied)] (Some demo_committed) (Some demo_ready_status)"
  by (simp add: demo_calls_def after_calls_def demo_prepare)
    (simp_all add: demo_calls_def after_calls_def demo_prepare demo_activate demo_save demo_commit del: One_nat_def)

theorem active_rollout_fences_witness:
  "sd_events (dir_of (after_call demo_engine (CallApply 6 demo_plan False) (after_calls demo_engine (take 1 demo_calls) [])) ''shop'') = []"
  using active_rollout_fences [OF demo_after(1) [symmetric] demo_rollouts(1), of "CallApply 6 demo_plan False"]
  unfolding demo_after by (simp add: rollout_active_def demo_sel del: after_call.simps)

theorem apply_idempotent_witness:
  "apply_plan demo_engine 9 demo_plan False demo_applied_store =
     (Inr \<lparr>ar_changed = False, ar_status = event_status demo_applied\<rparr>, demo_applied_store)"
  using apply_idempotent [of "[]" demo_engine "[]", OF _ demo_apply, of 9] by (simp add: after_calls_def)

theorem interrupted_activation_completed_witness:
  "case rollout demo_engine ''shop'' (demo_at [(1, demo_applied)] (Some demo_prepared) None) of
      (Inr found, st2) \<Rightarrow> \<exists>t d r'. r' = (activated_by demo_applied t demo_prepared)\<lparr>ro_record_sha256 := d\<rparr> \<and> found = Some r' \<and>
        st2 = set_dir ''shop'' (\<lambda>dir. dir\<lparr>sd_rollout := Some r'\<rparr>) (demo_at [(1, demo_applied)] (Some demo_prepared) None)
    | (Inl err, st2) \<Rightarrow> st2 = demo_at [(1, demo_applied)] (Some demo_prepared) None \<and>
        (err = RolloutFailed RolloutTooLarge \<or> err = RolloutFileTooLarge)"
proof (rule interrupted_activation_completed [OF _ demo_after(1) [symmetric]])
  show "codec_ok (record_codec demo_engine)" by simp
  have "ensure_matches_previous demo_prepared None = Inr ()" by (simp add: ensure_matches_previous_def demo_prepared_def)
  then show "activation_interrupted demo_engine ''shop'' (demo_at [] (Some demo_prepared) None) demo_prepared demo_applied
      (demo_at [(1, demo_applied)] (Some demo_prepared) None)"
    using demo_rollouts(1) demo_latest(1) demo_appends(1) unfolding activation_interrupted_def by (metis demo_sel(5,10))
qed

lemma demo_interrupted_rollback:
  assumes "ro_phase r = Activated \<or> ro_phase r = Committed"
    and "rollout demo_engine ''shop'' (demo_at [(1, demo_applied)] (Some r) rt) = (Inr (Some r), demo_at [(1, demo_applied)] (Some r) rt)"
    and "ensure_matches_activation r (Some demo_applied) = Inr ()" and "ro_previous_state r = None"
  shows "rollback_interrupted demo_engine ''shop'' (demo_at [(1, demo_applied)] (Some r) rt) r demo_removed
    (demo_at [(1, demo_applied), (2, demo_removed)] (Some r) rt)"
proof -
  have "rollback_target r = Inr (RemoveEvent, None)" using assms(4) by (simp add: rollback_target_def)
  with assms demo_latest(2) demo_appends(2) show ?thesis unfolding rollback_interrupted_def by blast
qed

lemma demo_matches:
  "ensure_matches_activation demo_activated (Some demo_applied) = Inr ()" "ro_previous_state demo_activated = None"
  "ensure_matches_activation demo_committed (Some demo_applied) = Inr ()" "ro_previous_state demo_committed = None"
  by (simp_all add: ensure_matches_activation_def matches_candidate_def demo_record_defs unwrap_default_def)

theorem interrupted_rollback_completed_witness:
  "case rollout demo_engine ''shop'' (demo_at [(1, demo_applied), (2, demo_removed)] (Some demo_activated) None) of
      (Inr found, st2) \<Rightarrow> \<exists>t d r'. r' = (rolled_back_by demo_removed t demo_activated)\<lparr>ro_record_sha256 := d\<rparr> \<and> found = Some r' \<and>
        st2 = set_dir ''shop'' (\<lambda>dir. dir\<lparr>sd_rollout := Some r'\<rparr>) (demo_at [(1, demo_applied), (2, demo_removed)] (Some demo_activated) None)
    | (Inl err, st2) \<Rightarrow> st2 = demo_at [(1, demo_applied), (2, demo_removed)] (Some demo_activated) None \<and>
        (err = RolloutFailed RolloutTooLarge \<or> err = RolloutFileTooLarge)"
  by (rule interrupted_rollback_completed [OF _ demo_after(2) [symmetric] demo_interrupted_rollback [OF _ demo_rollouts(2) demo_matches(1,2)]])
    (simp_all add: demo_sel)

theorem interrupted_committed_rollback_stuck_witness:
  "rollback_rollout demo_engine 9 ''shop'' (ro_rollout_id demo_committed) 3000
     (demo_at [(1, demo_applied), (2, demo_removed)] (Some demo_committed) (Some demo_ready_status)) =
   (Inl (RolloutFailed NotActivatedState), demo_at [(1, demo_applied), (2, demo_removed)] (Some demo_committed) (Some demo_ready_status))"
  by (rule conjunct2 [OF interrupted_committed_rollback_stuck
        [OF demo_after(4) [symmetric] demo_interrupted_rollback [OF _ demo_rollouts(3) demo_matches(3,4)]]])
    (simp_all add: demo_sel, simp add: demo_record_defs)

theorem rollback_restores_previous_witness:
  "\<exists>e. latest demo_engine (snd (rollback_rollout demo_engine 6 ''shop'' demo_digest 6 (after_calls demo_engine (take 2 demo_calls) []))) ''shop''
      = Inr (Some e) \<and> ev_kind e = RemoveEvent \<and> ev_revision e = 2"
proof -
  let ?st = "demo_at [(1, demo_applied)] (Some demo_activated) None"
  have "require_rollout demo_engine ''shop'' demo_digest ?st = (Inr demo_activated, ?st)"
    by (rule demo_require [OF demo_rollouts(2)]) (simp add: demo_sel)
  moreover have "refresh_rollout (renv demo_engine) (rolled_back_by demo_removed 6 demo_activated) = Inr demo_rolled_back"
    using demo_refresh [OF demo_records_ok(4)] by (simp add: demo_rolled_back_def) (simp add: demo_record_defs)
  ultimately have rb: "rollback_rollout demo_engine 6 ''shop'' demo_digest 6 ?st =
      (Inr demo_rolled_back, demo_at [(1, demo_applied), (2, demo_removed)] (Some demo_rolled_back) None)"
    using demo_matches(1,2)
    by (simp add: rollback_rollout_def act_then_def query_def pure_act_def demo_sel ensure_time_advances_def demo_latest(2)
        rollback_target_def demo_appends(2) demo_write demo_records_ok(4) del: One_nat_def)
  have "ro_activated_generation demo_activated \<noteq> ro_previous_generation demo_activated" by (simp add: demo_record_defs)
  from rollback_restores_previous [OF demo_after(1) [symmetric] demo_rollouts(1) demo_sel(5) demo_latest(1),
      unfolded demo_sel(3), OF demo_activate this rb]
  show ?thesis unfolding demo_after rb by auto
qed

theorem commit_needs_health_witness:
  "\<exists>e. latest demo_engine (after_calls demo_engine (take 3 demo_calls) []) ''shop'' = Inr (Some e) \<and>
     ro_activated_generation demo_activated = Some (ev_sha256 e)"
  using commit_needs_health [OF demo_after(3) [symmetric] demo_rollouts(2) demo_sel(6), of 2100] demo_commit
  by (auto simp: demo_after demo_sel)

end
