(* ===== verification/Engine_Routes.thy ===== *)
theory Engine_Routes
  imports Engine_Rollouts
begin

text \<open>
  What the published routes mean.  A store is \<open>calm\<close> for a stack when no recovery of its rollout checkpoint is
  pending; then collecting the routes reads the store without changing it.  Shown here: the routes of a
  publication are exactly the ready replicas that the rollout admits, reading them back returns the
  publication, publications of a stack carry one epoch and increasing numbers, and different replicas have
  different channels.
\<close>

section \<open>Reading a calm store\<close>

definition calm :: "engine_env \<Rightarrow> string \<Rightarrow> engine_store \<Rightarrow> bool" where
  "calm env stack st \<longleftrightarrow> bt_ok st \<and> (\<exists>found. rollout env stack st = (Inr found, st))"

definition reroute :: "string \<Rightarrow> routing_snapshot option \<Rightarrow> engine_store \<Rightarrow> engine_store" where
  "reroute stack x st = set_dir stack (\<lambda>d. d\<lparr>sd_routes := x\<rparr>) st"

text \<open>An operation that leaves the store alone and does not look at the published routes.\<close>

definition blind :: "string \<Rightarrow> 'a act \<Rightarrow> engine_store \<Rightarrow> bool" where
  "blind stack m st \<longleftrightarrow> snd (m st) = st \<and> (\<forall>x. m (reroute stack x st) = (fst (m st), reroute stack x st))"

lemma blindD: "blind stack m st \<Longrightarrow> m st = (r, st') \<Longrightarrow> st' = st \<and> (\<forall>x. m (reroute stack x st) = (r, reroute stack x st))"
  by (simp add: blind_def)

lemma blind_then:
  assumes "blind stack m st" and "\<And>x. m st = (Inr x, st) \<Longrightarrow> blind stack (f x) st"
  shows "blind stack (act_then m f) st"
proof (cases "m st")
  case (Pair r st')
  note d = blindD [OF assms(1) this]
  show ?thesis
  proof (cases r)
    case (Inl e)
    with Pair d show ?thesis by (simp add: blind_def act_then_def)
  next
    case (Inr x)
    with assms(2) Pair d have "blind stack (f x) st" by simp
    with Inr Pair d show ?thesis by (simp add: blind_def act_then_def)
  qed
qed

lemma blind_pure [simp]: "blind stack (pure_act r) st" by (simp add: blind_def pure_act_def)

lemma blind_query: "(\<And>x. f (reroute stack x st) = f st) \<Longrightarrow> blind stack (query f) st"
  by (simp add: blind_def query_def)

lemma blind_fold: "(\<And>acc x. blind stack (f acc x) st) \<Longrightarrow> blind stack (act_fold f acc xs) st"
  by (induction xs arbitrary: acc) (auto intro: blind_then)

lemma rerouted [simp]:
  assumes "bt_ok st"
  shows "dir_of (reroute stack x st) stack = (dir_of st stack)\<lparr>sd_routes := x\<rparr>" "bt_ok (reroute stack x st)"
    "latest env (reroute stack x st) stack = latest env st stack"
    "desired_plan env (reroute stack x st) stack = desired_plan env st stack"
    "store_status env (reroute stack x st) stack = store_status env st stack"
proof -
  show d: "dir_of (reroute stack x st) stack = (dir_of st stack)\<lparr>sd_routes := x\<rparr>" "bt_ok (reroute stack x st)"
    using assms by (simp_all add: reroute_def)
  show l: "latest env (reroute stack x st) stack = latest env st stack" by (rule latest_of_events) (simp add: d)
  show "desired_plan env (reroute stack x st) stack = desired_plan env st stack" by (simp add: desired_plan_def l)
  show "store_status env (reroute stack x st) stack = store_status env st stack" by (simp add: store_status_def l)
qed

lemma recover_changed:
  assumes "recover_rollout_checkpoint env r current = Inr (True, q)"
  shows "ro_phase q \<noteq> ro_phase r"
  using assms by (cases "ro_phase r") (auto simp: recover_rollout_checkpoint_def and_then_Inr activated_by_def rolled_back_by_def
      split: if_splits dest!: refresh_rollout_Inr(2))

lemma calm_rollout:
  assumes "calm env stack st"
  shows "blind stack (rollout env stack) st"
proof -
  obtain found where f: "rollout env stack st = (Inr found, st)" and ok: "bt_ok st" using assms by (auto simp: calm_def)
  show ?thesis
  proof (cases rule: rollout_cases [OF f])
    case 1
    then show ?thesis using f ok by (auto simp: blind_def rollout_def act_then_def query_def pure_act_def)
  next
    case (2 r current changed q)
    have unchanged: "\<not> changed"
    proof
      assume changed
      with 2 have "st = set_dir stack (\<lambda>d. d\<lparr>sd_rollout := Some q\<rparr>) st" using write_rollout_file_Inr(2) by simp
      from arg_cong [OF this, of "\<lambda>s. sd_rollout (dir_of s stack)"] ok have "sd_rollout (dir_of st stack) = Some q" by simp
      with 2 \<open>changed\<close> recover_changed [of "renv env" r current q] show False by simp
    qed
    have "rollout env stack (reroute stack x st) = (Inr found, reroute stack x st)" for x
      by (subst rollout_eval [of stack "reroute stack x st" r env current]) (use 2 ok unchanged in simp_all)
    then show ?thesis by (simp add: blind_def f)
  qed
qed

lemma calm_ok: "calm env stack st \<Longrightarrow> bt_ok st" by (simp add: calm_def)

lemma calm_progress: "calm env stack st \<Longrightarrow> blind stack (store_rollout_progress env stack) st"
  unfolding store_rollout_progress_def
  by (intro blind_then blind_pure blind_query)
    (auto dest: calm_ok intro!: blind_then calm_rollout split: option.splits)

lemma calm_routing_progress: "calm env stack st \<Longrightarrow> blind stack (active_routing_progress env stack) st"
  unfolding active_routing_progress_def by (auto intro!: blind_then calm_rollout calm_progress)

lemma calm_target: "calm env stack st \<Longrightarrow> blind stack (generation_target env stack generation) st"
  unfolding generation_target_def
  by (intro blind_then calm_rollout blind_pure blind_query) (auto dest: calm_ok intro!: blind_then split: option.splits)

lemma calm_targets: "calm env stack st \<Longrightarrow> blind stack (generation_targets env stack) st"
  unfolding generation_targets_def
  by (intro blind_then calm_rollout blind_pure blind_query) (auto dest: calm_ok intro!: calm_target split: option.splits prod.splits)

lemma calm_runtime_for: "calm env stack st \<Longrightarrow> blind stack (runtime_status_for_generation env stack generation) st"
  unfolding runtime_status_for_generation_def
  by (intro blind_then calm_target) (auto dest: calm_ok intro!: blind_then blind_query split: option.splits)

lemma calm_generation_routes: "calm env stack st \<Longrightarrow> blind stack (generation_routes env stack progress targets g) st"
  unfolding generation_routes_def by (auto intro!: blind_then calm_runtime_for split: option.splits)

lemma calm_routing_targets: "calm env stack st \<Longrightarrow> blind stack (routing_targets env stack progress) st"
  unfolding routing_targets_def Let_def
  by (auto intro!: blind_then blind_fold calm_rollout calm_targets calm_generation_routes split: option.splits)

section \<open>What is routed\<close>

lemma append_ready_Inr:
  assumes "append_ready_target revision generation controls targets r = Inr targets'"
  shows "set targets' = set targets \<union> {route_of revision generation r run a |run a.
    rr_desired r = Running \<and> rr_phase r = RunningPhase \<and> matches_controls controls (rr_id r) \<and>
    rr_run_id r = Some run \<and> route_ready_at r = Some a}"
  using assms by (auto simp: append_ready_target_def and_then_Inr split: if_splits option.splits)

lemma append_ready_all_Inr:
  assumes "try_fold (append_ready_target revision generation controls) targets rs = Inr targets'"
  shows "set targets' = set targets \<union> {route_of revision generation r run a |r run a. r \<in> set rs \<and>
    rr_desired r = Running \<and> rr_phase r = RunningPhase \<and> matches_controls controls (rr_id r) \<and>
    rr_run_id r = Some run \<and> route_ready_at r = Some a}"
  using assms
proof (induction rs arbitrary: targets)
  case (Cons r rs)
  then obtain t1 where "append_ready_target revision generation controls targets r = Inr t1"
    "try_fold (append_ready_target revision generation controls) t1 rs = Inr targets'" by (auto simp: and_then_Inr)
  with append_ready_Inr [OF this(1)] Cons.IH [OF this(2)] show ?case by auto
qed simp

text \<open>A replica that may receive traffic, said without the functions that collect the routes.  The
  rollout admits every replica of the desired generation; of a candidate those that a progress in
  phase \<^verbatim>\<open>Rolling\<close>, \<^verbatim>\<open>Paused\<close> or \<^verbatim>\<open>Completing\<close> has enabled; of the previous generation all but those
  that such a progress drains.\<close>

definition rollout_admits :: "generation_role \<Rightarrow> rollout_progress option \<Rightarrow> string \<Rightarrow> nat \<Rightarrow> bool" where
  "rollout_admits role progress name ordinal \<longleftrightarrow>
     role = DesiredRole \<or>
     role = RolloutCandidate \<and> (\<exists>p. progress = Some p \<and> rp_phase p \<in> {RollingExec, PausedExec, CompletingExec} \<and>
       (\<exists>i \<in> set (rp_instances p). ip_name i = name \<and> ordinal \<in> ip_candidate_enabled i)) \<or>
     role = RolloutPrevious \<and> \<not> (\<exists>p. progress = Some p \<and> rp_phase p \<in> {RollingExec, PausedExec, CompletingExec} \<and>
       (\<exists>i \<in> set (rp_instances p). ip_name i = name \<and> (\<exists>intent. (ordinal, intent) \<in> set (ip_previous_draining i))))"

text \<open>A replica is ready from the time its probe reported ready, or, having no probe, from its start.\<close>

definition ready_since :: "replica_runtime \<Rightarrow> nat \<Rightarrow> bool" where
  "ready_since r a \<longleftrightarrow> rr_probe r = None \<and> rr_started_at r = Some a \<or>
     (\<exists>q. rr_probe r = Some q \<and> pr_phase q = ProbeReady \<and> pr_ready_at q = Some a)"

definition routable ::
    "engine_env \<Rightarrow> engine_store \<Rightarrow> string \<Rightarrow> rollout_progress option \<Rightarrow> engine_generation_target list \<Rightarrow> route_target \<Rightarrow> bool" where
  "routable env st stack progress gs t \<longleftrightarrow> (\<exists>g \<in> set gs. \<exists>s r.
     runtime_status_for_generation env stack (gt_generation g) st = (Inr (Some s), st) \<and> r \<in> set (rs_replicas s) \<and>
     rr_id r = ReplicaId (tg_instance t) (tg_ordinal t) \<and> rr_desired r = Running \<and> rr_phase r = RunningPhase \<and>
     rollout_admits (gt_role g) progress (tg_instance t) (tg_ordinal t) \<and> ready_since r (tg_ready_at t) \<and>
     rr_run_id r = Some (tg_run_id t) \<and> tg_revision t = gt_revision g \<and> tg_generation t = gt_generation g)"

lemma admits_controls:
  "matches_controls (routing_controls role progress) rid \<longleftrightarrow> rollout_admits role progress (rid_instance rid) (rid_ordinal rid)"
  by (cases rid; cases role; cases progress)
    (force simp: matches_controls_def routing_controls_def rollout_admits_def live_phase_def
      progress_candidate_enabled_def progress_previous_draining_def)+

lemma ready_since_iff: "route_ready_at r = Some a \<longleftrightarrow> ready_since r a"
  by (auto simp: route_ready_at_def ready_since_def split: option.splits)

lemma routable_iff:
  "routable env st stack progress gs t \<longleftrightarrow> (\<exists>g \<in> set gs. \<exists>s r run a.
     runtime_status_for_generation env stack (gt_generation g) st = (Inr (Some s), st) \<and> r \<in> set (rs_replicas s) \<and>
     rr_desired r = Running \<and> rr_phase r = RunningPhase \<and> matches_controls (routing_controls (gt_role g) progress) (rr_id r) \<and>
     rr_run_id r = Some run \<and> route_ready_at r = Some a \<and> t = route_of (gt_revision g) (gt_generation g) r run a)"
  unfolding routable_def admits_controls ready_since_iff
  by (cases t) (fastforce simp: route_of_def intro: replica_id.expand)

lemma collected:
  assumes "calm env stack st" and "act_fold (generation_routes env stack progress) targets gs st = (Inr targets', st')"
  shows "set targets' = set targets \<union> {t. routable env st stack progress gs t}"
  using assms(2)
proof (induction gs arbitrary: targets)
  case Nil
  then show ?case by (simp add: routable_iff)
next
  case (Cons g gs)
  obtain t1 st1 where 1: "generation_routes env stack progress targets g st = (Inr t1, st1)"
    "act_fold (generation_routes env stack progress) t1 gs st1 = (Inr targets', st')"
    using Cons.prems by (auto simp: act_then_Inr)
  have st1: "st1 = st" using blindD [OF calm_generation_routes [OF assms(1)] 1(1)] by simp
  obtain rt st2 where rt: "runtime_status_for_generation env stack (gt_generation g) st = (Inr rt, st2)"
    using 1(1) by (auto simp: generation_routes_def act_then_Inr)
  have st2: "st2 = st" using blindD [OF calm_runtime_for [OF assms(1)] rt] by simp
  have t1: "set t1 = set targets \<union> {t. routable env st stack progress [g] t}"
  proof (cases rt)
    case None
    then show ?thesis using 1(1) rt by (auto simp: generation_routes_def act_then_def pure_act_def routable_iff st2)
  next
    case (Some s)
    then have "append_ready_targets (gt_revision g) (gt_generation g) (routing_controls (gt_role g) progress) targets s = Inr t1"
      using 1(1) rt by (auto simp: generation_routes_def act_then_def pure_act_def)
    from append_ready_all_Inr [OF this [unfolded append_ready_targets_def]] Some rt st2 show ?thesis
      by (auto simp: routable_iff)
  qed
  have "routable env st stack progress (g # gs) t \<longleftrightarrow> routable env st stack progress [g] t \<or> routable env st stack progress gs t" for t
    by (auto simp: routable_iff)
  with t1 Cons.IH [OF 1(2) [unfolded st1]] show ?case by auto
qed

lemma routing_targets_Inr:
  assumes "calm env stack st" and "routing_targets env stack progress st = (Inr (i, targets), st1)"
  obtains gs where "generation_targets env stack st = (Inr gs, st)" "set targets = {t. routable env st stack progress gs t}"
    "sorted (map target_key targets)" "st1 = st" "length targets \<le> MAX_STACK_TOTAL_ACTIVE_REPLICAS"
proof -
  obtain gs st2 ts st3 where g: "generation_targets env stack st = (Inr gs, st2)"
    "act_fold (generation_routes env stack progress) [] gs st2 = (Inr ts, st3)" "targets = sort_key target_key ts"
    "length ts \<le> MAX_STACK_TOTAL_ACTIVE_REPLICAS"
    using assms unfolding routing_targets_def Let_def calm_def
    by (auto simp: act_then_Inr split: option.splits)
  have "st2 = st" using blindD [OF calm_targets [OF assms(1)] g(1)] by simp
  moreover have "st1 = st" using blindD [OF calm_routing_targets [OF assms(1)] assms(2)] by simp
  ultimately show thesis using that g collected [OF assms(1), of progress "[]" gs ts st3] by auto
qed

section \<open>Publishing\<close>

lemma routing_fold_Inr: "try_fold routing_step acc ts = Inr acc' \<Longrightarrow> \<forall>t \<in> set ts. validate_route_target t = Inr ()"
  by (induction ts arbitrary: acc) (auto simp: and_then_Inr routing_step_def split: prod.splits)

lemma sort_key_sorted: "sorted (map f xs) \<Longrightarrow> sort_key f xs = xs"
  by (induction xs) (auto intro: insort_is_Cons)

lemma refresh_snapshot_Inr:
  assumes "refresh_snapshot c q = Inr s" and "sorted (map target_key (rg_targets q))"
  shows "\<exists>d. s = q\<lparr>rg_routing_sha256 := d\<rparr>" "validate_snapshot c s = Inr ()"
  using assms by (auto simp: refresh_snapshot_def Let_def and_then_Inr sort_key_sorted)

lemma publish_changed_Inr:
  assumes "publish_changed env epoch stack previous now_ms i targets st = (Inr s, st')" and "sorted (map target_key targets)"
  shows "rg_rollout_id s = i \<and> rg_targets s = targets \<and> rg_stack s = stack \<and> read_routing_file env s = Inr s \<and>
    st' = reroute stack (Some s) st"
proof -
  obtain number st1 where a: "refresh_snapshot (routing_codec env) (next_snapshot epoch stack previous number now_ms i targets) = Inr s"
    "write_routing_file env stack s st = (Inr (), st')"
    using assms(1) by (auto simp: publish_changed_def act_then_Inr)
  obtain d where "s = (next_snapshot epoch stack previous number now_ms i targets)\<lparr>rg_routing_sha256 := d\<rparr>"
    using refresh_snapshot_Inr(1) [OF a(1)] assms(2) by (auto simp: next_snapshot_def)
  moreover have "read_routing_file env s = Inr s \<and> st' = reroute stack (Some s) st"
    using a(2) by (auto simp: write_routing_file_def read_routing_file_def reroute_def and_then_Inr split: sum.splits)
  ultimately show ?thesis by (simp add: next_snapshot_def)
qed

lemma published_file:
  assumes "wf_store env st" and "valid_name stack" and "sd_routes (dir_of st stack) = Some f"
  shows "read_routing_file env f = Inr f" "rg_stack f = stack"
  using wf_dir_of [OF assms(1,2)] assms(3) by (simp_all add: wf_dir_def)

lemma publish_inner_Inr:
  assumes "wf_store env st" and "calm env stack st" and "publish_inner env epoch stack progress now_ms st = (Inr s, st')"
  shows "routing_targets env stack progress st = (Inr (rg_rollout_id s, rg_targets s), st)" "valid_name stack"
    "\<exists>x. store_status env st stack = Inr x" "read_routing_file env s = Inr s" "rg_stack s = stack"
    "st' = reroute stack (Some s) st \<or> st' = st \<and> sd_routes (dir_of st stack) = Some s"
proof -
  show v: "valid_name stack" and "\<exists>x. store_status env st stack = Inr x"
    using assms(3) by (auto simp: publish_inner_def act_then_Inr)
  let ?previous = "sd_routes (dir_of st stack)"
  have q: "routing_snapshot_for_publish env stack st = (Inr ?previous, st)"
    using published_file [OF assms(1) v] by (auto simp: routing_snapshot_for_publish_def split: option.splits)
  obtain i targets st2 where t: "routing_targets env stack progress st = (Inr (i, targets), st2)"
    using assms(3) q by (auto simp: publish_inner_def act_then_Inr)
  have t': "sorted (map target_key targets)" "st2 = st" by (rule routing_targets_Inr [OF assms(2) t], simp)+
  have "(?previous = Some s \<and> rg_rollout_id s = i \<and> rg_targets s = targets \<and> st' = st) \<or>
    publish_changed env epoch stack ?previous now_ms i targets st = (Inr s, st')"
    using assms(3) q t t'(2) by (auto simp: publish_inner_def act_then_Inr split: option.splits if_splits)
  then have "rg_rollout_id s = i \<and> rg_targets s = targets \<and> read_routing_file env s = Inr s \<and> rg_stack s = stack \<and>
      (st' = reroute stack (Some s) st \<or> st' = st \<and> ?previous = Some s)"
    using publish_changed_Inr [OF _ t'(1)] published_file [OF assms(1) v] by metis
  then show "routing_targets env stack progress st = (Inr (rg_rollout_id s, rg_targets s), st)"
    "read_routing_file env s = Inr s" "rg_stack s = stack"
    "st' = reroute stack (Some s) st \<or> st' = st \<and> sd_routes (dir_of st stack) = Some s"
    using t t'(2) by auto
qed

lemma publish_Inr:
  assumes "calm env stack st" and "publish_routing_snapshot env epoch stack now_ms st = (Inr s, st')"
  obtains progress where "active_routing_progress env stack st = (Inr progress, st)"
    "publish_inner env epoch stack progress now_ms st = (Inr s, st')"
proof -
  obtain progress st1 where p: "active_routing_progress env stack st = (Inr progress, st1)"
    "publish_inner env epoch stack progress now_ms st1 = (Inr s, st')"
    using assms(2) by (auto simp: publish_routing_snapshot_def act_then_Inr)
  have "st1 = st" using blindD [OF calm_routing_progress [OF assms(1)] p(1)] by simp
  with that p show thesis by simp
qed

lemma publish_for_progress_Inr:
  assumes "calm env (rp_stack p) st" and "publish_routing_snapshot_for_progress env epoch p now_ms st = (Inr s, st')"
  shows "publish_inner env epoch (rp_stack p) (Some p) now_ms st = (Inr s, st')"
  using assms by (auto simp: publish_routing_snapshot_for_progress_def act_then_Inr calm_def)

text \<open>C20: published routes are exactly the replicas that may receive traffic.  Where no recovery of the
  rollout is pending, a publication lists the replicas of the authorised generations, taken from the runtime
  status of each, that are meant to run and do run, have a ready probe or no probe at all, and are admitted by
  the rollout: of the candidate only those that a rolling, paused or completing progress has enabled, of the
  previous generation all but those that it drains.\<close>

theorem published_routes_exact:
  assumes "st = after_calls env calls []" and "calm env stack st"
    and "publish_routing_snapshot env epoch stack now_ms st = (Inr s, st')"
  shows "\<exists>progress gs. active_routing_progress env stack st = (Inr progress, st) \<and>
    generation_targets env stack st = (Inr gs, st) \<and> set (rg_targets s) = {t. routable env st stack progress gs t}"
proof -
  have wf: "wf_store env st" using after_calls_wf [of env "[]" calls] assms(1) by (simp add: wf_store_def)
  obtain progress where p: "active_routing_progress env stack st = (Inr progress, st)"
    "publish_inner env epoch stack progress now_ms st = (Inr s, st')"
    by (rule publish_Inr [OF assms(2,3)])
  obtain gs where "generation_targets env stack st = (Inr gs, st)" "set (rg_targets s) = {t. routable env st stack progress gs t}"
    by (rule routing_targets_Inr [OF assms(2) publish_inner_Inr(1) [OF wf assms(2) p(2)]])
  with p(1) show ?thesis by blast
qed

text \<open>What a publication leaves in the store, and what reading derives from the store afterwards.\<close>

lemma publication_read:
  assumes "wf_store env st" and "calm env stack st" and "publish_inner env epoch stack progress now_ms st = (Inr s, st')"
    and "active_routing_progress env stack st = (Inr saved, st)"
  shows "active_routing_progress env stack st' = (Inr saved, st')"
    "routing_targets env stack progress st' = (Inr (rg_rollout_id s, rg_targets s), st')"
    "routing_targets env stack saved st = (r, st) \<Longrightarrow> routing_targets env stack saved st' = (r, st')"
    "sd_routes (dir_of st' stack) = Some s" "\<exists>x. store_status env st' stack = Inr x"
proof -
  have ok: "bt_ok st" using assms(2) by (simp add: calm_def)
  note p = publish_inner_Inr [OF assms(1-3)]
  note b1 = blindD [OF calm_routing_progress [OF assms(2)] assms(4)] and b2 = blindD [OF calm_routing_targets [OF assms(2)] p(1)]
  show "active_routing_progress env stack st' = (Inr saved, st')"
    "routing_targets env stack progress st' = (Inr (rg_rollout_id s, rg_targets s), st')"
    "sd_routes (dir_of st' stack) = Some s" "\<exists>x. store_status env st' stack = Inr x"
    using assms(4) p(1,3,6) b1 b2 ok by auto
  show "routing_targets env stack saved st' = (r, st')" if "routing_targets env stack saved st = (r, st)"
    using blindD [OF calm_routing_targets [OF assms(2)] that] that p(6) by auto
qed

text \<open>Routes that were published for a progress that has not been saved are not handed out where the saved
  progress would route differently.\<close>

lemma unsaved_progress_fails_closed:
  assumes "wf_store env st" and "calm env (rp_stack p) st"
    and "publish_routing_snapshot_for_progress env epoch p now_ms st = (Inr s, st')"
    and "active_routing_progress env (rp_stack p) st = (Inr saved, st)"
    and "routing_targets env (rp_stack p) saved st = (Inr (i, targets), st)" and "targets \<noteq> rg_targets s"
  shows "store_routing_snapshot env (rp_stack p) st' = (Inl RoutesOutdated, st')"
proof -
  note inner = publish_for_progress_Inr [OF assms(2,3)]
  note a = publication_read [OF assms(1,2) inner assms(4)] and p = publish_inner_Inr [OF assms(1,2) inner]
  show ?thesis
    using a(1,4,5) a(3) [OF assms(5)] p(2,4,5) assms(6)
    by (auto simp: store_routing_snapshot_def act_then_def query_def pure_act_def)
qed

text \<open>C22: a publication of the saved state can be read back and repeated.  Assume that no recovery of the
  rollout is pending and that routes are published from the saved state: by \<^verbatim>\<open>publish_routing_snapshot\<close>, or by
  \<^verbatim>\<open>publish_routing_snapshot_for_progress\<close> with the progress that is saved.  Then reading the routes of the stack
  returns the publication, its replicas are reported ready, and publishing again at any later or earlier time
  returns it unchanged.  Routes published for a progress that is not saved yet are outside this claim: reading
  them fails until the progress is saved (\<open>unsaved_progress_fails_closed\<close>).\<close>

theorem published_routes_read_back:
  assumes "st = after_calls env calls []" and "calm env stack st"
    and "publish_routing_snapshot env epoch stack now_ms st = (Inr s, st') \<or>
      (\<exists>p. rp_stack p = stack \<and> active_routing_progress env stack st = (Inr (Some p), st) \<and>
        publish_routing_snapshot_for_progress env epoch p now_ms st = (Inr s, st'))"
    and "0 < again_ms"
  shows "store_routing_snapshot env stack st' = (Inr (Some s), st') \<and>
    publish_routing_snapshot env epoch' stack again_ms st' = (Inr s, st') \<and>
    (\<forall>t \<in> set (rg_targets s). route_target_is_ready env stack t st' = (Inr True, st'))"
proof -
  have wf: "wf_store env st" using after_calls_wf [of env "[]" calls] assms(1) by (simp add: wf_store_def)
  obtain progress where progress: "active_routing_progress env stack st = (Inr progress, st)"
    "publish_inner env epoch stack progress now_ms st = (Inr s, st')"
    using assms(2,3) publish_Inr publish_for_progress_Inr by blast
  note p = publish_inner_Inr [OF wf assms(2) progress(2)] and a = publication_read [OF wf assms(2) progress(2,1)]
  have q: "routing_snapshot_for_publish env stack st' = (Inr (Some s), st')"
    using a(4) p(4) by (simp add: routing_snapshot_for_publish_def)
  have "store_routing_snapshot env stack st' = (Inr (Some s), st')"
    using a(1,2,4,5) p(2,4,5) by (auto simp: store_routing_snapshot_def act_then_def query_def pure_act_def)
  moreover have "publish_routing_snapshot env epoch' stack again_ms st' = (Inr s, st')"
    using a(1,2,5) p(2) q assms(4) by (auto simp: publish_routing_snapshot_def publish_inner_def act_then_def query_def pure_act_def)
  moreover have "route_target_is_ready env stack t st' = (Inr True, st')" if "t \<in> set (rg_targets s)" for t
  proof -
    have "validate_route_target t = Inr ()"
      using p(4) that by (auto simp: read_routing_file_def validate_snapshot_def and_then_Inr dest: routing_fold_Inr)
    with a(1,2) that show ?thesis by (auto simp: route_target_is_ready_def act_then_def pure_act_def)
  qed
  ultimately show ?thesis by blast
qed

section \<open>Publications over time\<close>

definition routes_advance :: "engine_env \<Rightarrow> engine_store \<Rightarrow> engine_store \<Rightarrow> bool" where
  "routes_advance env st st' \<longleftrightarrow> (wf_store env st \<longrightarrow> wf_store env st' \<and>
     (\<forall>s v. sd_routes (dir_of st s) = Some v \<longrightarrow>
       (\<exists>w. sd_routes (dir_of st' s) = Some w \<and> (w = v \<or> routes_follow v w))))"

lemma routes_follow_trans: "routes_follow a b \<Longrightarrow> routes_follow b c \<Longrightarrow> routes_follow a c"
  by (auto simp: routes_follow_def)

lemma routes_advance_trans:
  assumes "routes_advance env a b" and "routes_advance env b c"
  shows "routes_advance env a c"
  unfolding routes_advance_def
proof (intro impI conjI allI)
  assume wf: "wf_store env a"
  then show "wf_store env c" using assms by (simp add: routes_advance_def)
  fix s v
  assume v: "sd_routes (dir_of a s) = Some v"
  obtain w where w: "sd_routes (dir_of b s) = Some w" "w = v \<or> routes_follow v w" "wf_store env b"
    using assms(1) wf v unfolding routes_advance_def by blast
  obtain u where "sd_routes (dir_of c s) = Some u" "u = w \<or> routes_follow w u"
    using assms(2) w(1,3) unfolding routes_advance_def by blast
  with w(2) show "\<exists>w. sd_routes (dir_of c s) = Some w \<and> (w = v \<or> routes_follow v w)" using routes_follow_trans by blast
qed

lemma routes_advance_unrouted:
  assumes "bt_ok st" and "wf_store env st \<longrightarrow> wf_store env (set_dir stack f st)" and "\<And>d. sd_routes (f d) = sd_routes d"
  shows "routes_advance env st (set_dir stack f st)"
  using assms by (auto simp: routes_advance_def)

interpretation advancing: store_relation env stack "routes_advance env" for env stack
proof unfold_locales
  show "routes_advance env a c" if "routes_advance env a b" "routes_advance env b c" for a b c
    using that by (rule routes_advance_trans)
  show "routes_advance env st (set_dir stack f st)" if "bt_ok st" "file_update env stack f" for st f
    by (rule routes_advance_unrouted [where f = f, OF that(1) wf.file_write [OF that] file_update_routes [OF that(2)]])
  show "routes_advance env st (set_dir stack (\<lambda>d. d\<lparr>sd_events := files\<rparr>) st)"
    if "bt_ok st" "ev_stack e = stack" "append_event (jenv env) e (sd_events (dir_of st stack)) = Inr files" for st e files
    by (rule routes_advance_unrouted [OF that(1) wf.appended [OF that]]) simp
  show "routes_advance env st (set_dir stack (\<lambda>d. d\<lparr>sd_routes := Some s\<rparr>) st)"
    if "bt_ok st" "read_routing_file env s = Inr s" "rg_stack s = stack"
      "\<forall>v. sd_routes (dir_of st stack) = Some v \<longrightarrow> routes_follow v s" for st s
    using that(1,4) wf.published [OF that] by (auto simp: routes_advance_def)
  show "routes_advance env st (set_dir stack (\<lambda>d. d\<lparr>sd_routes := None\<rparr>) st)"
    if "bt_ok st" "sd_routes (dir_of st stack) = Some f" "read_routing_file env f = Inl err" "valid_name stack" for st f err
    using that published_file(1) [OF _ that(4,2)] by (auto simp: routes_advance_def)
qed (simp add: routes_advance_def)

lemma after_calls_advance: "bt_ok st \<Longrightarrow> routes_advance env st (after_calls env calls st)"
proof (induction calls arbitrary: st)
  case Nil
  then show ?case by (simp add: after_calls_def routes_advance_def)
next
  case (Cons c calls)
  have "bt_ok (after_call env c st) \<and> routes_advance env st (after_call env c st)"
    by (rule advancing.call_kept [OF Cons.prems refl])
  with Cons.IH [of "after_call env c st"] show ?case
    using routes_advance_trans by (fastforce simp: after_calls_def)
qed

text \<open>C21: epoch and number identify a publication.  Whatever calls follow, the published routes of a stack stay or
  are replaced by routes of the same epoch with a larger number that were not published earlier.\<close>

theorem published_routes_advance:
  assumes "sd_routes (dir_of (after_calls env calls []) stack) = Some v"
  shows "\<exists>w. sd_routes (dir_of (after_calls env (calls @ later) []) stack) = Some w \<and> (w = v \<or>
    rg_routing_epoch w = rg_routing_epoch v \<and> rg_sequence v < rg_sequence w \<and> rg_published_at v \<le> rg_published_at w)"
proof -
  have wf: "wf_store env (after_calls env calls [])" by (rule after_calls_wf) (simp add: wf_store_def)
  have "routes_advance env (after_calls env calls []) (after_calls env later (after_calls env calls []))"
    by (intro after_calls_advance after_calls_ok) simp
  with wf assms show ?thesis unfolding routes_advance_def routes_follow_def by (auto simp: after_calls_def)
qed

section \<open>Channels\<close>

text \<open>Channels are not shared.  Two replicas with the same channel directory are the same replica of the same
  generation in the same run.\<close>

theorem channels_distinct:
  "channel_path stack generation rid run_id = channel_path stack' generation' rid' run_id' \<longleftrightarrow>
     stack = stack' \<and> generation = generation' \<and> rid = rid' \<and> run_id = run_id'"
proof -
  have "rid = rid'" if e: "rid_instance rid @ ''-'' @ decimal (rid_ordinal rid) = rid_instance rid' @ ''-'' @ decimal (rid_ordinal rid')"
  proof -
    let ?p = "\<lambda>c. c \<noteq> CHR ''-''"
    have t: "takeWhile ?p (rev (x @ ''-'' @ decimal n)) = rev (decimal n)" for x n
      using decimal_digits by (simp add: takeWhile_append)
    have "rev (decimal (rid_ordinal rid)) = rev (decimal (rid_ordinal rid'))"
      using t [of "rid_instance rid" "rid_ordinal rid"] t [of "rid_instance rid'" "rid_ordinal rid'"] unfolding e by simp
    then have "rid_ordinal rid = rid_ordinal rid'" using decimal_inject by simp
    with e show ?thesis by (cases rid; cases rid') simp
  qed
  then show ?thesis by (auto simp: channel_path_def)
qed

section \<open>Examples\<close>

definition demo_served :: "(string, runtime_status) btree \<Rightarrow> routing_snapshot option \<Rightarrow> engine_store" where
  "demo_served gens routes = [(''shop'', \<lparr>sd_events = [(1, demo_applied)], sd_rollout = None, sd_archive = [],
     sd_progress = None, sd_runtime = None, sd_generations = gens, sd_routes = routes\<rparr>)]"

definition demo_route :: "nat \<Rightarrow> route_target" where
  "demo_route n = \<lparr>tg_instance = ''web'', tg_ordinal = n, tg_revision = 1, tg_generation = demo_digest,
     tg_run_id = demo_digest, tg_ready_at = 12\<rparr>"

definition demo_routes :: routing_snapshot where
  "demo_routes = \<lparr>rg_format_version = 1, rg_stack = ''shop'', rg_routing_epoch = demo_digest, rg_sequence = 1,
     rg_published_at = 30, rg_rollout_id = None, rg_targets = [demo_route 1, demo_route 2], rg_routing_sha256 = demo_digest\<rparr>"

definition demo_serving :: "(string, runtime_status) btree" where
  "demo_serving = [(demo_digest, demo_ready_status)]"

lemma demo_served_dir [simp]: "dir_of (demo_served gens routes) ''shop'' = \<lparr>sd_events = [(1, demo_applied)], sd_rollout = None,
    sd_archive = [], sd_progress = None, sd_runtime = None, sd_generations = gens, sd_routes = routes\<rparr>"
  by (simp add: demo_served_def)

lemma demo_served_reads:
  "rollout demo_engine ''shop'' (demo_served gens routes) = (Inr None, demo_served gens routes)"
  "latest demo_engine (demo_served gens routes) ''shop'' = Inr (Some demo_applied)"
  "desired_plan demo_engine (demo_served gens routes) ''shop'' = Inr (Some (1, demo_digest, demo_plan))"
proof -
  show "rollout demo_engine ''shop'' (demo_served gens routes) = (Inr None, demo_served gens routes)"
    using demo_shop by (simp add: rollout_def act_then_def query_def pure_act_def)
  show l: "latest demo_engine (demo_served gens routes) ''shop'' = Inr (Some demo_applied)"
    using demo_journal(1) demo_shop by (simp add: latest_def store_events_def last_event_def)
  show "desired_plan demo_engine (demo_served gens routes) ''shop'' = Inr (Some (1, demo_digest, demo_plan))"
    by (simp add: desired_plan_def l) (simp add: demo_applied_def)
qed

definition demo_target :: engine_generation_target where
  "demo_target = \<lparr>gt_stack = ''shop'', gt_revision = 1, gt_generation = demo_digest, gt_role = DesiredRole,
     gt_rollout_id = None, gt_plan = demo_plan\<rparr>"

lemma demo_generation:
  "generation_target demo_engine ''shop'' demo_digest (demo_served gens routes) = (Inr (Some demo_target), demo_served gens routes)"
proof -
  have "validate_target demo_engine demo_target = Inr ()"
    using demo_plan_ok demo_shop by (simp add: validate_target_def demo_target_def demo_plan_def)
  moreover have "target_for ''shop'' demo_digest (Some (1, demo_digest, demo_plan)) None = Inr (Some demo_target)"
    by (simp add: target_for_def desired_target_def demo_target_def)
  ultimately show ?thesis
    using demo_shop demo_served_reads(1,3) by (simp add: generation_target_def act_then_def query_def pure_act_def)
qed

lemma demo_generations:
  "generation_targets demo_engine ''shop'' (demo_served gens routes) = (Inr [demo_target], demo_served gens routes)"
  using demo_shop demo_served_reads(1,3) demo_generation
  by (simp add: generation_targets_def act_then_def query_def pure_act_def somes_def)

lemma demo_runtime_read:
  "read_runtime_status demo_engine demo_ready_status = Inr demo_ready_status"
  "against demo_engine demo_ready_status demo_plan 1 demo_digest = Inr ()"
  using demo_ready_valid demo_ready_matches
  by (simp_all add: read_runtime_status_def against_def demo_env_def demo_applied_def) (simp add: demo_codec_def)

lemma demo_save_generation:
  "save_runtime_status_for_generation demo_engine demo_ready_status (demo_served [] None) = (Inr (), demo_served demo_serving None)"
proof -
  have "rs_stack demo_ready_status = ''shop''" "rs_generation demo_ready_status = demo_digest" by (simp_all add: demo_ready_status_def)
  moreover have "length (the (to_vec demo_codec demo_ready_status)) = 0" "to_vec demo_codec demo_ready_status = Some []"
    by (simp_all add: demo_codec_def)
  ultimately show ?thesis
    using demo_ready_valid demo_generation [of "[]" None] demo_runtime_read(2)
    by (simp add: save_runtime_status_for_generation_def act_then_def pure_act_def)
      (simp add: demo_target_def demo_served_def demo_serving_def act_then_def pure_act_def)
qed

lemma demo_runtime_for:
  "runtime_status_for_generation demo_engine ''shop'' demo_digest (demo_served demo_serving routes) =
     (Inr (Some demo_ready_status), demo_served demo_serving routes)"
proof -
  have "gt_plan demo_target = demo_plan" "gt_revision demo_target = 1" "gt_generation demo_target = demo_digest"
    by (simp_all add: demo_target_def)
  moreover have "bt_get demo_serving demo_digest = Some demo_ready_status" by (simp add: demo_serving_def bt_get_def)
  ultimately show ?thesis
    using demo_generation [of demo_serving routes] demo_runtime_read
    by (simp add: runtime_status_for_generation_def act_then_def query_def pure_act_def)
qed

lemma demo_collects:
  "routing_targets demo_engine ''shop'' None (demo_served demo_serving routes) =
     (Inr (None, [demo_route 1, demo_route 2]), demo_served demo_serving routes)"
proof -
  have "append_ready_targets 1 demo_digest RouteAll [] demo_ready_status = Inr [demo_route 1, demo_route 2]"
    by (simp add: append_ready_targets_def append_ready_target_def demo_ready_status_def demo_ready_replica_def planned_replica_def
        demo_planned_def matches_controls_def route_ready_at_def route_of_def demo_route_def)
  moreover have "sort_key target_key [demo_route 1, demo_route 2] = [demo_route 1, demo_route 2]"
    by (rule sort_key_sorted) (simp add: target_key_def demo_route_def)
  ultimately show ?thesis
    using demo_served_reads(1) demo_generations [of demo_serving routes] demo_runtime_for [of routes]
    by (simp add: routing_targets_def act_then_def pure_act_def generation_routes_def demo_target_def routing_controls_def
        MAX_STACK_TOTAL_ACTIVE_REPLICAS_def plan_consts)
qed

lemma demo_publish:
  "publish_routing_snapshot demo_engine demo_digest ''shop'' 30 (demo_served demo_serving None) =
     (Inr demo_routes, demo_served demo_serving (Some demo_routes))"
proof -
  have c: "routing_codec demo_engine = demo_codec" by (simp add: demo_engine_def)
  have f: "to_vec (demo_codec :: routing_snapshot codec) x = Some []" "sha256hex (demo_codec :: routing_snapshot codec) b = demo_digest" for x b
    by (simp_all add: demo_codec_def)
  have v: "validate_snapshot demo_codec demo_routes = Inr ()"
    using demo_shop by (simp add: validate_snapshot_def demo_routes_def ENGINE_ROUTING_FORMAT_VERSION_def
        MAX_STACK_TOTAL_ACTIVE_REPLICAS_def plan_consts rolling_consts routing_sha256_def demo_codec_def routing_step_def validate_route_target_def
        demo_route_def target_key_def target_identity_def valid_name_def name_byte_def text_defs)
  have "rg_targets (next_snapshot demo_digest ''shop'' None 1 30 None [demo_route 1, demo_route 2]) = [demo_route 1, demo_route 2]"
    by (simp add: next_snapshot_def)
  moreover have "sort_key target_key [demo_route 1, demo_route 2] = [demo_route 1, demo_route 2]"
    by (rule sort_key_sorted) (simp add: target_key_def demo_route_def)
  moreover have "(next_snapshot demo_digest ''shop'' None 1 30 None [demo_route 1, demo_route 2])\<lparr>rg_targets := [demo_route 1, demo_route 2],
      rg_routing_sha256 := demo_digest\<rparr> = demo_routes"
    by (simp add: next_snapshot_def demo_routes_def ENGINE_ROUTING_FORMAT_VERSION_def)
  ultimately have r: "refresh_snapshot demo_codec (next_snapshot demo_digest ''shop'' None 1 30 None [demo_route 1, demo_route 2]) = Inr demo_routes"
    using v f by (simp add: refresh_snapshot_def routing_sha256_def Let_def)
  have w: "write_routing_file demo_engine ''shop'' demo_routes (demo_served demo_serving None) =
      (Inr (), demo_served demo_serving (Some demo_routes))"
    using v by (simp add: write_routing_file_def c) (simp add: demo_codec_def demo_served_def)
  have p: "active_routing_progress demo_engine ''shop'' (demo_served demo_serving None) = (Inr None, demo_served demo_serving None)"
    using demo_served_reads(1) by (simp add: active_routing_progress_def act_then_def pure_act_def)
  show ?thesis
    using demo_shop demo_served_reads(2) p demo_collects r w
    by (simp add: publish_routing_snapshot_def publish_inner_def publish_changed_def act_then_def query_def pure_act_def
        store_status_def routing_snapshot_for_publish_def c del: One_nat_def)
qed

lemma demo_serving_store:
  "after_calls demo_engine [CallApply 5 demo_plan False, CallSaveGeneration demo_ready_status] [] = demo_served demo_serving None"
proof -
  have e: "demo_applied_store = demo_served [] None" by (simp add: demo_applied_store_def demo_served_def empty_dir_def)
  show ?thesis using demo_apply [unfolded e] demo_save_generation by (simp add: after_calls_def)
qed

lemma demo_calm: "calm demo_engine ''shop'' (demo_served demo_serving None)"
  using demo_served_reads(1) after_calls_ok [of "[]" demo_engine] demo_serving_store by (metis calm_def bt_ok_Nil)

theorem published_routes_exact_witness:
  "\<exists>progress gs. active_routing_progress demo_engine ''shop'' (demo_served demo_serving None) = (Inr progress, demo_served demo_serving None) \<and>
     generation_targets demo_engine ''shop'' (demo_served demo_serving None) = (Inr gs, demo_served demo_serving None) \<and>
     routable demo_engine (demo_served demo_serving None) ''shop'' progress gs (demo_route 1) \<and>
     \<not> routable demo_engine (demo_served demo_serving None) ''shop'' progress gs (demo_route 3)"
proof -
  have "demo_route 1 \<in> set (rg_targets demo_routes)" "demo_route 3 \<notin> set (rg_targets demo_routes)"
    by (simp_all add: demo_routes_def demo_route_def)
  with published_routes_exact [OF demo_serving_store [symmetric] demo_calm demo_publish] show ?thesis by blast
qed

theorem published_routes_read_back_witness:
  "store_routing_snapshot demo_engine ''shop'' (demo_served demo_serving (Some demo_routes)) =
     (Inr (Some demo_routes), demo_served demo_serving (Some demo_routes))"
  using published_routes_read_back [OF demo_serving_store [symmetric] demo_calm disjI1 [OF demo_publish], of 31 demo_digest] by simp

theorem published_routes_advance_witness:
  "\<exists>w. sd_routes (dir_of (after_calls demo_engine ([CallApply 5 demo_plan False, CallSaveGeneration demo_ready_status,
      CallPublish demo_digest ''shop'' 30] @ [CallStop 40 ''shop'', CallPublish demo_digest ''shop'' 50]) []) ''shop'') = Some w \<and>
    rg_routing_epoch w = demo_digest"
proof -
  have "after_calls demo_engine [CallApply 5 demo_plan False, CallSaveGeneration demo_ready_status, CallPublish demo_digest ''shop'' 30] [] =
      demo_served demo_serving (Some demo_routes)"
    using demo_serving_store demo_publish by (simp add: after_calls_def)
  then have "sd_routes (dir_of (after_calls demo_engine [CallApply 5 demo_plan False, CallSaveGeneration demo_ready_status,
      CallPublish demo_digest ''shop'' 30] []) ''shop'') = Some demo_routes" by simp
  from published_routes_advance [OF this, of "[CallStop 40 ''shop'', CallPublish demo_digest ''shop'' 50]"]
  show ?thesis by (auto simp: demo_routes_def)
qed

end
