(* ===== verification/Manifest.thy ===== *)
theory Manifest
  imports Limits Identifiers Network_Http Network_Peer
begin

text \<open>
  Package manifests (\<^verbatim>\<open>crates/cartridge-core/src/manifest.rs\<close>): validation, state migrations, capability
  negotiation and the Merkle root over the declared assets, with \<^verbatim>\<open>normalize_relative_path\<close> of
  \<^verbatim>\<open>crates/cartridge-core/src/lib.rs\<close>.  The crates \<^verbatim>\<open>semver\<close>, \<^verbatim>\<open>sha2\<close> and \<^verbatim>\<open>hex\<close> are the record
  \<open>package_env\<close>.

  Two loops follow a chain of migrations for as long as the schema grows, which a hostile manifest could make
  endless: they are partial functions, and an operation that contains them returns an \<^verbatim>\<open>option\<close> whose
  \<^const>\<open>None\<close> means that it does not return.  Shown here: validation and planning return on every manifest; an
  accepted manifest has a unique chain of migrations from each schema it can start at, and planning finds
  it; negotiation grants exactly the permissions the manifest enables.  The root of the assets is the subject of
  \<open>Asset_Root\<close>.
\<close>

section \<open>Operations that may not return\<close>

definition run_then :: "('e + 'a) option \<Rightarrow> ('a \<Rightarrow> ('e + 'b) option) \<Rightarrow> ('e + 'b) option" where
  "run_then m f = (case m of None \<Rightarrow> None | Some (Inl e) \<Rightarrow> Some (Inl e) | Some (Inr x) \<Rightarrow> f x)"

fun run_fold :: "('a \<Rightarrow> 'b \<Rightarrow> ('e + 'a) option) \<Rightarrow> 'a \<Rightarrow> 'b list \<Rightarrow> ('e + 'a) option" where
  "run_fold f a [] = Some (Inr a)"
| "run_fold f a (x # xs) = run_then (f a x) (\<lambda>a'. run_fold f a' xs)"

lemma run_then_simps [simp]:
  "run_then None f = None"
  "run_then (Some (Inl e)) f = Some (Inl e)"
  "run_then (Some (Inr x)) f = f x"
  by (simp_all add: run_then_def)

lemma run_then_Inr [result_simps]: "run_then m f = Some (Inr y) \<longleftrightarrow> (\<exists>x. m = Some (Inr x) \<and> f x = Some (Inr y))"
  by (auto simp: run_then_def split: option.split sum.split)

lemma run_then_cong [fundef_cong]:
  "m = m' \<Longrightarrow> (\<And>x. m' = Some (Inr x) \<Longrightarrow> f x = f' x) \<Longrightarrow> run_then m f = run_then m' f'"
  by (auto simp: run_then_def split: option.split sum.split)

lemma run_then_returns: "m \<noteq> None \<Longrightarrow> (\<And>x. m = Some (Inr x) \<Longrightarrow> f x \<noteq> None) \<Longrightarrow> run_then m f \<noteq> None"
  by (auto simp: run_then_def split: option.split sum.split)

lemma run_fold_returns: "(\<And>a x. x \<in> set xs \<Longrightarrow> f a x \<noteq> None) \<Longrightarrow> run_fold f a xs \<noteq> None"
  by (induction xs arbitrary: a) (auto simp: run_then_returns)

lemma run_fold_unit: "run_fold (\<lambda>_. f) () xs = Some (Inr ()) \<longleftrightarrow> (\<forall>x \<in> set xs. f x = Some (Inr ()))"
  by (induction xs) (auto simp: result_simps)

section \<open>Data\<close>

definition CURRENT_FORMAT_VERSION :: nat where "CURRENT_FORMAT_VERSION = 1"
definition MIGRATION_PLAN_FORMAT_VERSION :: nat where "MIGRATION_PLAN_FORMAT_VERSION = 1"
definition MAX_MIGRATIONS :: nat where "MAX_MIGRATIONS = 256"
definition MAX_DEPENDENCIES :: nat where "MAX_DEPENDENCIES = 128"
definition MAX_SERVICES :: nat where "MAX_SERVICES = 128"
definition MAX_INTERFACES_PER_DEPENDENCY :: nat where "MAX_INTERFACES_PER_DEPENDENCY = 64"
definition MAX_CAPABILITY_REQUIREMENTS :: nat where "MAX_CAPABILITY_REQUIREMENTS = 64"
definition HOST_API_VERSION :: string where "HOST_API_VERSION = ''0.4.0''"

lemmas manifest_consts = CURRENT_FORMAT_VERSION_def MIGRATION_PLAN_FORMAT_VERSION_def MAX_MIGRATIONS_def
  MAX_DEPENDENCIES_def MAX_SERVICES_def MAX_INTERFACES_PER_DEPENDENCY_def MAX_CAPABILITY_REQUIREMENTS_def

record ('v, 'r) package_env =
  version_parse :: "string \<Rightarrow> 'v option"
  version_display :: "'v \<Rightarrow> string"
  version_new :: "nat \<Rightarrow> nat \<Rightarrow> nat \<Rightarrow> 'v"
  version_major :: "'v \<Rightarrow> nat"
  req_parse :: "string \<Rightarrow> 'r option"
  req_matches :: "'r \<Rightarrow> 'v \<Rightarrow> bool"
  pk_sha256 :: "bytes \<Rightarrow> bytes"
  pk_hex_encode :: "bytes \<Rightarrow> string"
  pk_hex_decode :: "string \<Rightarrow> bytes option"

record cartridge_metadata =
  cm_id :: string
  cm_name :: string
  cm_version :: string
  cm_description :: string

record permissions =
  pm_clock :: bool
  pm_random :: bool
  pm_assets :: bool
  pm_storage :: bool
  pm_graphics :: bool
  pm_audio :: bool
  pm_midi :: bool
  pm_http :: bool
  pm_serve :: bool

record compatibility =
  co_host_api :: string
  co_capabilities :: "(string, string) btree"

record state_migration =
  sm_name :: string
  sm_from :: nat
  sm_to :: nat

record state_config =
  sc_schema :: nat
  sc_migrations :: "state_migration list"

record migration_plan =
  mp_format_version :: nat
  mp_cartridge_id :: string
  mp_cartridge_version :: string
  mp_component_sha256 :: string
  mp_source_schema :: nat
  mp_target_schema :: nat
  mp_steps :: "state_migration list"

record cartridge_dependency =
  cd_alias :: string
  cd_cartridge :: string
  cd_version :: string
  cd_interfaces :: "string list"
  cd_optional :: bool
  cd_reason :: string

datatype service_visibility = PrivateService | DependencyService | PublicService

record provided_service =
  ps_name :: string
  ps_interface :: string
  ps_visibility :: service_visibility
  ps_description :: string

record integrity =
  in_component_sha256 :: string
  in_assets_sha256 :: "(string, string) btree"
  in_assets_root_sha256 :: string

record package_manifest =
  pk_format_version :: nat
  pk_cartridge :: cartridge_metadata
  pk_permissions :: permissions
  pk_http :: http_policy
  pk_compatibility :: compatibility
  pk_runtime :: runtime_limits
  pk_state :: state_config
  pk_dependencies :: "cartridge_dependency list"
  pk_provides :: "provided_service list"
  pk_integrity :: integrity

record negotiated_platform =
  np_host_api :: string
  np_capabilities :: "(string, string) btree"

datatype manifest_error =
    FormatUnsupported | IdNotReverseDomain | IdInvalid | TextInvalid | VersionInvalid
  | HttpPolicyInvalid http_error | ScopesNeedPermission
  | TooManyCapabilities | HostApiInvalid | CapabilityNameInvalid | CapabilityRequirementInvalid
  | CapabilityNotRequested | LimitsInvalid limit_error
  | SchemaNeedsStorage | TooManyMigrations | AliasInvalid | DuplicateMigrationName | MigrationNotIncreasing
  | MigrationBeyondSchema | DuplicateMigrationSource | MigrationDoesNotLead
  | ComponentDigestInvalid | AssetPathInvalid | AssetDigestInvalid | AssetsRootInvalid
  | AssetLeafInvalid | AssetPathOverflow | AssetsRootMismatch
  | TooManyDependencies | TooManyServices | SelfDependency | RequirementInvalid | NoInterfaces | TooManyInterfaces
  | DuplicateAlias | DuplicateDependency | InterfaceInvalid interface_error | DuplicateInterface
  | DuplicateServiceName | DuplicateServiceInterface
  | SchemaNewer | NoMigrationPath
  | HostApiUnsatisfied | CapabilityMissing | CapabilityUnsatisfied | ManifestPanic

section \<open>Text, paths and digests\<close>

definition version_ok :: "('v, 'r) package_env \<Rightarrow> string \<Rightarrow> bool" where
  "version_ok env s \<longleftrightarrow> version_parse env s \<noteq> None"

definition is_ascii_hexdigit :: "char \<Rightarrow> bool" where
  [text_defs]: "is_ascii_hexdigit c \<longleftrightarrow> is_ascii_digit c \<or> 97 \<le> (of_char c :: nat) \<and> (of_char c :: nat) \<le> 102 \<or>
     65 \<le> (of_char c :: nat) \<and> (of_char c :: nat) \<le> 70"

definition is_sha256 :: "string \<Rightarrow> bool" where
  "is_sha256 s \<longleftrightarrow> length s = 64 \<and> list_all is_ascii_hexdigit s"

definition validate_id :: "string \<Rightarrow> manifest_error + unit" where
  "validate_id s =
     and_then (fail_if (length s > 128 \<or> length (split_on (CHR ''.'') s) < 3) IdNotReverseDomain) (\<lambda>_.
     fail_if (\<not> list_all valid_segment (split_on (CHR ''.'') s)) IdInvalid)"

definition validate_alias :: "string \<Rightarrow> manifest_error + unit" where
  "validate_alias s =
     fail_if (s = [] \<or> length s > 48 \<or> \<not> list_all name_byte s \<or> starts_with s ''-'' \<or> ends_with s ''-'') AliasInvalid"

definition validate_human_text :: "string \<Rightarrow> nat \<Rightarrow> bool \<Rightarrow> manifest_error + unit" where
  "validate_human_text s maximum allow_empty =
     fail_if (\<not> allow_empty \<and> blank s \<or> length (chars s) > maximum \<or> list_ex is_control (chars s)) TextInvalid"

definition validate_capability_name :: "string \<Rightarrow> manifest_error + unit" where
  "validate_capability_name s = fail_if (s = [] \<or> length s > 64 \<or> \<not> list_all name_byte s) CapabilityNameInvalid"

definition normalize_relative_path :: "string \<Rightarrow> string option" where
  "normalize_relative_path path =
     (if path = [] \<or> starts_with path ''/'' \<or> starts_with path [CHR 0x5C] \<or> str_contains path [CHR 0x5C] then None
      else if list_ex (\<lambda>part. part = [] \<or> part = ''.'' \<or> part = ''..'' \<or> str_contains part '':'')
        (split_on (CHR ''/'') path) then None
      else Some (join_on (CHR ''/'') (split_on (CHR ''/'') path)))"

section \<open>The root of the assets\<close>

text \<open>\<^verbatim>\<open>u64::to_be_bytes\<close>.\<close>

definition to_be_bytes :: "nat \<Rightarrow> nat \<Rightarrow> bytes" where
  "to_be_bytes n v = rev (to_le_bytes n v)"

definition leaf_input :: "string \<Rightarrow> bytes \<Rightarrow> bytes" where
  "leaf_input path digest = 0 # to_be_bytes 8 (length path) @ as_bytes path @ digest"

definition asset_leaf :: "('v, 'r) package_env \<Rightarrow> string \<times> string \<Rightarrow> manifest_error + bytes" where
  "asset_leaf env e =
     (case e of (path, hex) \<Rightarrow>
      and_then (ok_or (pk_hex_decode env hex) AssetLeafInvalid) (\<lambda>digest.
      and_then (fail_if (length digest \<noteq> 32) AssetLeafInvalid) (\<lambda>_.
      and_then (fail_if (length path \<ge> 2 ^ 64) AssetPathOverflow) (\<lambda>_.
      Inr (pk_sha256 env (leaf_input path digest))))))"

text \<open>The nodes of a level are paired from the left; a node without a partner is its own.\<close>

fun asset_parents :: "(bytes \<Rightarrow> bytes) \<Rightarrow> bytes list \<Rightarrow> bytes list" where
  "asset_parents sha (l # r # ns) = sha (1 # l @ r) # asset_parents sha ns"
| "asset_parents sha [l] = [sha (1 # l @ l)]"
| "asset_parents sha [] = []"

lemma length_asset_parents: "length (asset_parents sha ns) = (length ns + 1) div 2"
  by (induction sha ns rule: asset_parents.induct) simp_all

function asset_levels :: "(bytes \<Rightarrow> bytes) \<Rightarrow> bytes list \<Rightarrow> bytes list" where
  "asset_levels sha ns = (if length ns > 1 then asset_levels sha (asset_parents sha ns) else ns)"
  by pat_completeness auto
termination
  by (relation "measure (\<lambda>(sha, ns). length ns)") (simp_all add: length_asset_parents)

declare asset_levels.simps [simp del]

definition asset_integrity_root :: "('v, 'r) package_env \<Rightarrow> (string, string) btree \<Rightarrow> manifest_error + string" where
  "asset_integrity_root env assets =
     and_then (try_map (asset_leaf env) assets) (\<lambda>nodes.
     if nodes = [] then Inr (pk_hex_encode env (pk_sha256 env [2]))
     else Inr (pk_hex_encode env (hd (asset_levels (pk_sha256 env) nodes))))"

section \<open>Permissions and compatibility\<close>

definition permission_map :: "permissions \<Rightarrow> (string, bool) btree" where
  "permission_map p = fold (\<lambda>(k, v). bt_insert k v)
     [(''clock'', pm_clock p), (''random'', pm_random p), (''assets'', pm_assets p), (''storage'', pm_storage p),
      (''graphics'', pm_graphics p), (''audio'', pm_audio p), (''midi'', pm_midi p), (''http'', pm_http p),
      (''serve'', pm_serve p)] []"

definition validate_capability ::
    "('v, 'r) package_env \<Rightarrow> (string, bool) btree \<Rightarrow> string \<times> string \<Rightarrow> manifest_error + unit" where
  "validate_capability env requested e =
     (case e of (name, requirement) \<Rightarrow>
      and_then (validate_capability_name name) (\<lambda>_.
      and_then (ok_or (req_parse env requirement) CapabilityRequirementInvalid) (\<lambda>_.
      fail_if (\<not> unwrap_or (bt_get requested name) False) CapabilityNotRequested)))"

definition validate_compatibility ::
    "('v, 'r) package_env \<Rightarrow> compatibility \<Rightarrow> permissions \<Rightarrow> manifest_error + unit" where
  "validate_compatibility env c p =
     and_then (fail_if (length (co_capabilities c) > MAX_CAPABILITY_REQUIREMENTS) TooManyCapabilities) (\<lambda>_.
     and_then (fail_if (co_host_api c \<noteq> [] \<and> req_parse env (co_host_api c) = None) HostApiInvalid) (\<lambda>_.
     try_fold (\<lambda>_. validate_capability env (permission_map p)) () (co_capabilities c)))"

section \<open>State migrations\<close>

definition migration_step ::
    "nat \<Rightarrow> string set \<times> (nat, state_migration) btree \<Rightarrow> state_migration
      \<Rightarrow> manifest_error + (string set \<times> (nat, state_migration) btree)" where
  "migration_step schema acc mg =
     (case acc of (names, sources) \<Rightarrow>
      and_then (validate_alias (sm_name mg)) (\<lambda>_.
      and_then (fail_if (sm_name mg \<in> names) DuplicateMigrationName) (\<lambda>_.
      and_then (fail_if (sm_from mg \<ge> sm_to mg) MigrationNotIncreasing) (\<lambda>_.
      and_then (fail_if (sm_to mg > schema) MigrationBeyondSchema) (\<lambda>_.
      and_then (fail_if (bt_get sources (sm_from mg) \<noteq> None) DuplicateMigrationSource) (\<lambda>_.
      Inr (insert (sm_name mg) names, bt_insert (sm_from mg) mg sources)))))))"

partial_function (option) leads_to ::
    "(nat, state_migration) btree \<Rightarrow> nat \<Rightarrow> nat \<Rightarrow> (manifest_error + unit) option" where
  "leads_to sources schema current =
     (if current < schema then
        (case bt_get sources current of
           None \<Rightarrow> Some (Inl MigrationDoesNotLead)
         | Some next \<Rightarrow> leads_to sources schema (sm_to next))
      else Some (Inr ()))"

definition validate_state :: "state_config \<Rightarrow> permissions \<Rightarrow> (manifest_error + unit) option" where
  "validate_state s p =
     run_then (Some (fail_if (sc_schema s > 0 \<and> \<not> pm_storage p) SchemaNeedsStorage)) (\<lambda>_.
     run_then (Some (fail_if (length (sc_migrations s) > MAX_MIGRATIONS) TooManyMigrations)) (\<lambda>_.
     run_then (Some (try_fold (migration_step (sc_schema s)) ({}, []) (sc_migrations s))) (\<lambda>(names, sources).
     run_fold (\<lambda>_ mg. leads_to sources (sc_schema s) (sm_to mg)) () (sc_migrations s))))"

section \<open>Dependencies and services\<close>

definition dependency_interface ::
    "('v, 'r) package_env \<Rightarrow> string set \<Rightarrow> string \<Rightarrow> manifest_error + string set" where
  "dependency_interface env seen i =
     and_then (map_err InterfaceInvalid (validate_interface (version_ok env) i)) (\<lambda>_.
     and_then (fail_if (i \<in> seen) DuplicateInterface) (\<lambda>_. Inr (insert i seen)))"

definition dependency_step ::
    "('v, 'r) package_env \<Rightarrow> string \<Rightarrow> string set \<times> string set \<Rightarrow> cartridge_dependency
      \<Rightarrow> manifest_error + (string set \<times> string set)" where
  "dependency_step env own acc d =
     (case acc of (aliases, ids) \<Rightarrow>
      and_then (validate_alias (cd_alias d)) (\<lambda>_.
      and_then (validate_id (cd_cartridge d)) (\<lambda>_.
      and_then (fail_if (cd_cartridge d = own) SelfDependency) (\<lambda>_.
      and_then (fail_if (req_parse env (cd_version d) = None) RequirementInvalid) (\<lambda>_.
      and_then (fail_if (cd_interfaces d = []) NoInterfaces) (\<lambda>_.
      and_then (fail_if (length (cd_interfaces d) > MAX_INTERFACES_PER_DEPENDENCY) TooManyInterfaces) (\<lambda>_.
      and_then (validate_human_text (cd_reason d) 240 True) (\<lambda>_.
      and_then (fail_if (cd_alias d \<in> aliases) DuplicateAlias) (\<lambda>_.
      and_then (fail_if (cd_cartridge d \<in> ids) DuplicateDependency) (\<lambda>_.
      and_then (try_fold (dependency_interface env) {} (cd_interfaces d)) (\<lambda>_.
      Inr (insert (cd_alias d) aliases, insert (cd_cartridge d) ids))))))))))))"

definition service_step ::
    "('v, 'r) package_env \<Rightarrow> string set \<times> string set \<Rightarrow> provided_service
      \<Rightarrow> manifest_error + (string set \<times> string set)" where
  "service_step env acc s =
     (case acc of (names, interfaces) \<Rightarrow>
      and_then (validate_alias (ps_name s)) (\<lambda>_.
      and_then (map_err InterfaceInvalid (validate_interface (version_ok env) (ps_interface s))) (\<lambda>_.
      and_then (validate_human_text (ps_description s) 240 True) (\<lambda>_.
      and_then (fail_if (ps_name s \<in> names) DuplicateServiceName) (\<lambda>_.
      and_then (fail_if (ps_interface s \<in> interfaces) DuplicateServiceInterface) (\<lambda>_.
      Inr (insert (ps_name s) names, insert (ps_interface s) interfaces)))))))"

definition validate_relationships :: "('v, 'r) package_env \<Rightarrow> package_manifest \<Rightarrow> manifest_error + unit" where
  "validate_relationships env m =
     and_then (fail_if (length (pk_dependencies m) > MAX_DEPENDENCIES) TooManyDependencies) (\<lambda>_.
     and_then (fail_if (length (pk_provides m) > MAX_SERVICES) TooManyServices) (\<lambda>_.
     and_then (try_fold (dependency_step env (cm_id (pk_cartridge m))) ({}, {}) (pk_dependencies m)) (\<lambda>_.
     and_then (try_fold (service_step env) ({}, {}) (pk_provides m)) (\<lambda>_. Inr ()))))"

section \<open>Manifests\<close>

definition validate_asset :: "string \<times> string \<Rightarrow> manifest_error + unit" where
  "validate_asset e =
     (case e of (path, digest) \<Rightarrow>
      and_then (fail_if (normalize_relative_path path = None) AssetPathInvalid) (\<lambda>_.
      fail_if (\<not> is_sha256 digest) AssetDigestInvalid))"

definition validate_integrity :: "('v, 'r) package_env \<Rightarrow> integrity \<Rightarrow> manifest_error + unit" where
  "validate_integrity env i =
     and_then (fail_if (in_component_sha256 i \<noteq> [] \<and> \<not> is_sha256 (in_component_sha256 i)) ComponentDigestInvalid) (\<lambda>_.
     and_then (try_fold (\<lambda>_. validate_asset) () (in_assets_sha256 i)) (\<lambda>_.
     if in_assets_root_sha256 i = [] then Inr ()
     else
       and_then (fail_if (\<not> is_sha256 (in_assets_root_sha256 i)) AssetsRootInvalid) (\<lambda>_.
       and_then (asset_integrity_root env (in_assets_sha256 i)) (\<lambda>actual.
       fail_if (\<not> eq_ignore_ascii_case actual (in_assets_root_sha256 i)) AssetsRootMismatch))))"

definition validate_head :: "('v, 'r) package_env \<Rightarrow> package_manifest \<Rightarrow> manifest_error + unit" where
  "validate_head env m =
     and_then (fail_if (pk_format_version m \<noteq> CURRENT_FORMAT_VERSION) FormatUnsupported) (\<lambda>_.
     and_then (validate_id (cm_id (pk_cartridge m))) (\<lambda>_.
     and_then (validate_human_text (cm_name (pk_cartridge m)) 80 False) (\<lambda>_.
     and_then (validate_human_text (cm_description (pk_cartridge m)) 240 True) (\<lambda>_.
     and_then (fail_if (\<not> version_ok env (cm_version (pk_cartridge m))) VersionInvalid) (\<lambda>_.
     and_then (map_err HttpPolicyInvalid (validate_http_policy (pk_http m))) (\<lambda>_.
     and_then (fail_if (\<not> pm_http (pk_permissions m) \<and> hp_scopes (pk_http m) \<noteq> []) ScopesNeedPermission) (\<lambda>_.
     and_then (validate_compatibility env (pk_compatibility m) (pk_permissions m)) (\<lambda>_.
     map_err LimitsInvalid (validate_runtime_limits (pk_runtime m))))))))))"

definition validate_package :: "('v, 'r) package_env \<Rightarrow> package_manifest \<Rightarrow> (manifest_error + unit) option" where
  "validate_package env m =
     run_then (Some (validate_head env m)) (\<lambda>_.
     run_then (validate_state (pk_state m) (pk_permissions m)) (\<lambda>_.
     run_then (Some (validate_integrity env (pk_integrity m))) (\<lambda>_.
     Some (validate_relationships env m))))"

partial_function (option) migration_steps ::
    "(nat, state_migration) btree \<Rightarrow> nat \<Rightarrow> nat \<Rightarrow> state_migration list
      \<Rightarrow> (manifest_error + state_migration list) option" where
  "migration_steps migrations schema current steps =
     (if current < schema then
        (case bt_get migrations current of
           None \<Rightarrow> Some (Inl NoMigrationPath)
         | Some mg \<Rightarrow> migration_steps migrations schema (sm_to mg) (steps @ [mg]))
      else Some (Inr steps))"

definition migrations_by_source :: "state_migration list \<Rightarrow> (nat, state_migration) btree" where
  "migrations_by_source mgs = fold (\<lambda>mg. bt_insert (sm_from mg) mg) mgs []"

definition planned_migration :: "package_manifest \<Rightarrow> nat \<Rightarrow> state_migration list \<Rightarrow> migration_plan" where
  "planned_migration m source_schema steps =
     \<lparr>mp_format_version = MIGRATION_PLAN_FORMAT_VERSION, mp_cartridge_id = cm_id (pk_cartridge m),
      mp_cartridge_version = cm_version (pk_cartridge m),
      mp_component_sha256 = in_component_sha256 (pk_integrity m), mp_source_schema = source_schema,
      mp_target_schema = sc_schema (pk_state m), mp_steps = steps\<rparr>"

definition migration_plan_of ::
    "('v, 'r) package_env \<Rightarrow> package_manifest \<Rightarrow> nat \<Rightarrow> (manifest_error + migration_plan) option" where
  "migration_plan_of env m source_schema =
     run_then (validate_package env m) (\<lambda>_.
     run_then (Some (fail_if (source_schema > sc_schema (pk_state m)) SchemaNewer)) (\<lambda>_.
     run_then (migration_steps (migrations_by_source (sc_migrations (pk_state m))) (sc_schema (pk_state m))
         source_schema []) (\<lambda>steps.
     Some (Inr (planned_migration m source_schema steps)))))"

definition host_capabilities :: "('v, 'r) package_env \<Rightarrow> (string, 'v) btree" where
  "host_capabilities env =
     map (\<lambda>name. (name, version_new env 1 0 0))
       [''assets'', ''audio'', ''clock'', ''graphics'', ''http'', ''midi'', ''random'', ''serve'', ''storage'']"

definition negotiate_step ::
    "('v, 'r) package_env \<Rightarrow> compatibility \<Rightarrow> (string, string) btree \<Rightarrow> string \<times> bool
      \<Rightarrow> manifest_error + (string, string) btree" where
  "negotiate_step env c negotiated e =
     (case e of (name, enabled) \<Rightarrow>
      if \<not> enabled then Inr negotiated
      else
        and_then (ok_or (bt_get (host_capabilities env) name) CapabilityMissing) (\<lambda>version.
        and_then (case bt_get (co_capabilities c) name of
            None \<Rightarrow> Inr ()
          | Some requirement \<Rightarrow>
              and_then (ok_or (req_parse env requirement) ManifestPanic) (\<lambda>req.
              fail_if (\<not> req_matches env req version) CapabilityUnsatisfied)) (\<lambda>_.
        Inr (bt_insert name (version_display env version) negotiated))))"

definition negotiate_platform ::
    "('v, 'r) package_env \<Rightarrow> package_manifest \<Rightarrow> (manifest_error + negotiated_platform) option" where
  "negotiate_platform env m =
     run_then (validate_package env m) (\<lambda>_.
     Some (
     and_then (ok_or (version_parse env HOST_API_VERSION) ManifestPanic) (\<lambda>host_api.
     and_then (if co_host_api (pk_compatibility m) = [] then Inr ()
         else and_then (ok_or (req_parse env (co_host_api (pk_compatibility m))) ManifestPanic) (\<lambda>req.
           fail_if (\<not> req_matches env req host_api) HostApiUnsatisfied)) (\<lambda>_.
     and_then (try_fold (negotiate_step env (pk_compatibility m)) [] (permission_map (pk_permissions m))) (\<lambda>negotiated.
     Inr \<lparr>np_host_api = version_display env host_api, np_capabilities = negotiated\<rparr>)))))"

section \<open>Migrations lead to the schema\<close>

text \<open>A chain of migrations from one schema to another, each starting where the one before it ended.\<close>

fun migration_chain :: "nat \<Rightarrow> state_migration list \<Rightarrow> nat \<Rightarrow> bool" where
  "migration_chain a [] b \<longleftrightarrow> a = b"
| "migration_chain a (mg # mgs) b \<longleftrightarrow> sm_from mg = a \<and> migration_chain (sm_to mg) mgs b"

definition source_index :: "(nat, state_migration) btree \<Rightarrow> state_migration list \<Rightarrow> bool" where
  "source_index sources mgs \<longleftrightarrow>
     (\<forall>k mg. bt_get sources k = Some mg \<longleftrightarrow> mg \<in> set mgs \<and> sm_from mg = k) \<and> (\<forall>mg \<in> set mgs. sm_from mg < sm_to mg)"

lemma leads_to_returns:
  assumes "\<And>k mg. bt_get sources k = Some mg \<Longrightarrow> k < sm_to mg"
  shows "leads_to sources schema current \<noteq> None"
proof (induction "schema - current" arbitrary: current rule: less_induct)
  case less
  show ?case
  proof (cases "current < schema \<and> bt_get sources current \<noteq> None")
    case True
    then obtain mg where mg: "bt_get sources current = Some mg" by blast
    then have "schema - sm_to mg < schema - current" using assms [OF mg] True by linarith
    from less [OF this] mg True show ?thesis by (simp add: leads_to.simps [of _ _ current])
  qed (auto simp: leads_to.simps [of _ _ current])
qed

lemma migration_steps_returns:
  assumes "\<And>k mg. bt_get sources k = Some mg \<Longrightarrow> k < sm_to mg"
  shows "migration_steps sources schema current steps \<noteq> None"
proof (induction "schema - current" arbitrary: current steps rule: less_induct)
  case less
  show ?case
  proof (cases "current < schema \<and> bt_get sources current \<noteq> None")
    case True
    then obtain mg where mg: "bt_get sources current = Some mg" by blast
    then have "schema - sm_to mg < schema - current" using assms [OF mg] True by linarith
    from less [OF this] mg True show ?thesis by (simp add: migration_steps.simps [of _ _ current])
  qed (auto simp: migration_steps.simps [of _ _ current])
qed

lemma fold_sources:
  "bt_ok S \<Longrightarrow> distinct (map sm_from mgs) \<Longrightarrow> \<forall>mg \<in> set mgs. bt_get S (sm_from mg) = None \<Longrightarrow>
     bt_ok (fold (\<lambda>mg. bt_insert (sm_from mg) mg) mgs S) \<and>
     (\<forall>k mg. bt_get (fold (\<lambda>mg. bt_insert (sm_from mg) mg) mgs S) k = Some mg \<longleftrightarrow>
        bt_get S k = Some mg \<or> mg \<in> set mgs \<and> sm_from mg = k)"
proof (induction mgs arbitrary: S)
  case (Cons m mgs)
  have "\<forall>mg \<in> set mgs. bt_get (bt_insert (sm_from m) m S) (sm_from mg) = None"
    using Cons.prems by (auto simp: image_iff)
  from Cons.IH [OF _ _ this] Cons.prems show ?case by auto
qed simp

lemma migration_step_Inr:
  "migration_step schema (N, S) mg = Inr acc \<Longrightarrow> bt_get S (sm_from mg) = None \<and> sm_from mg < sm_to mg \<and>
     sm_to mg \<le> schema \<and> acc = (insert (sm_name mg) N, bt_insert (sm_from mg) mg S)"
  by (auto simp: migration_step_def result_simps)

lemma migration_step_fold:
  "try_fold (migration_step schema) (N, S) mgs = Inr (N', S') \<Longrightarrow> bt_ok S \<Longrightarrow>
     S' = fold (\<lambda>mg. bt_insert (sm_from mg) mg) mgs S \<and> distinct (map sm_from mgs) \<and>
     (\<forall>mg \<in> set mgs. bt_get S (sm_from mg) = None \<and> sm_from mg < sm_to mg \<and> sm_to mg \<le> schema)"
proof (induction mgs arbitrary: N S)
  case (Cons m mgs)
  have m: "bt_get S (sm_from m) = None" "sm_from m < sm_to m" "sm_to m \<le> schema"
    and rest: "try_fold (migration_step schema) (insert (sm_name m) N, bt_insert (sm_from m) m S) mgs = Inr (N', S')"
    using Cons.prems(1) migration_step_Inr [of schema N S m] by (auto simp: result_simps)
  have "bt_get (bt_insert (sm_from m) m S) k = None \<longleftrightarrow> k \<noteq> sm_from m \<and> bt_get S k = None" for k
    using Cons.prems(2) by simp
  with Cons.IH [OF rest] Cons.prems(2) m show ?case by auto
qed simp

lemma migration_checks:
  assumes "try_fold (migration_step schema) ({}, []) mgs = Inr (N, S)"
  shows "source_index S mgs" and "S = migrations_by_source mgs" and "\<forall>mg \<in> set mgs. sm_to mg \<le> schema"
    and "distinct (map sm_from mgs)"
  using migration_step_fold [OF assms] fold_sources [of "[]" mgs]
  by (auto simp: source_index_def migrations_by_source_def)

lemma source_index_increasing: "source_index S mgs \<Longrightarrow> bt_get S k = Some mg \<Longrightarrow> k < sm_to mg"
  by (auto simp: source_index_def)

lemma validate_state_returns: "validate_state s p \<noteq> None"
  unfolding validate_state_def
proof (intro run_then_returns)
  fix acc
  assume "Some (try_fold (migration_step (sc_schema s)) ({}, []) (sc_migrations s)) = Some (Inr acc)"
  then show "(case acc of (names, sources) \<Rightarrow>
      run_fold (\<lambda>_ mg. leads_to sources (sc_schema s) (sm_to mg)) () (sc_migrations s)) \<noteq> None"
    by (cases acc) (auto simp del: not_None_eq intro!: run_fold_returns leads_to_returns source_index_increasing
        dest: migration_checks(1))
qed simp_all

lemma validate_package_returns: "validate_package env m \<noteq> None"
  unfolding validate_package_def by (intro run_then_returns) (auto simp: validate_state_returns)

lemma validated_state:
  assumes "validate_package env m = Some (Inr ())"
  shows "\<exists>N S. try_fold (migration_step (sc_schema (pk_state m))) ({}, []) (sc_migrations (pk_state m)) = Inr (N, S) \<and>
    length (sc_migrations (pk_state m)) \<le> MAX_MIGRATIONS \<and>
    (\<forall>mg \<in> set (sc_migrations (pk_state m)). leads_to S (sc_schema (pk_state m)) (sm_to mg) = Some (Inr ()))"
  using assms by (auto simp: validate_package_def validate_state_def result_simps run_fold_unit not_less)

text \<open>C15: checking a manifest returns.  Whatever the manifest says of its migrations, its validation, the planning
  of a migration from any schema and the negotiation of the platform come to an end.\<close>

theorem manifest_operations_return:
  "validate_package env m \<noteq> None \<and> migration_plan_of env m source_schema \<noteq> None \<and> negotiate_platform env m \<noteq> None"
proof -
  have "migration_plan_of env m source_schema \<noteq> None"
    unfolding migration_plan_of_def
  proof (intro run_then_returns migration_steps_returns)
    fix x k mg
    assume v: "validate_package env m = Some (Inr x)"
      and g: "bt_get (migrations_by_source (sc_migrations (pk_state m))) k = Some mg"
    obtain N S where "try_fold (migration_step (sc_schema (pk_state m))) ({}, []) (sc_migrations (pk_state m)) = Inr (N, S)"
      using validated_state [of env m] v by auto
    from migration_checks(1,2) [OF this] g show "k < sm_to mg" using source_index_increasing by auto
  qed (simp_all add: validate_package_returns)
  moreover have "negotiate_platform env m \<noteq> None"
    unfolding negotiate_platform_def by (rule run_then_returns) (simp_all add: validate_package_returns)
  ultimately show ?thesis by (simp add: validate_package_returns)
qed

lemma chain_le: "migration_chain a mgs b \<Longrightarrow> \<forall>mg \<in> set mgs. sm_from mg < sm_to mg \<Longrightarrow> a \<le> b \<and> (mgs \<noteq> [] \<longrightarrow> a < b)"
  by (induction mgs arbitrary: a) fastforce+

lemma migration_steps_chain:
  assumes "source_index S mgs"
  shows "migration_chain c ms schema \<Longrightarrow> set ms \<subseteq> set mgs \<Longrightarrow>
    migration_steps S schema c steps = Some (Inr (steps @ ms))"
proof (induction ms arbitrary: c steps)
  case Nil
  then show ?case by (simp add: migration_steps.simps)
next
  case (Cons mg ms)
  have inc: "\<forall>mg \<in> set (mg # ms). sm_from mg < sm_to mg"
    using assms Cons.prems(2) by (auto simp: source_index_def)
  have "bt_get S c = Some mg" using assms Cons.prems by (auto simp: source_index_def)
  moreover have "c < schema" using chain_le [OF Cons.prems(1) inc] by simp
  ultimately show ?case using Cons by (subst migration_steps.simps) simp
qed

lemma leads_to_chain:
  assumes i: "source_index S mgs" and b: "\<forall>mg \<in> set mgs. sm_to mg \<le> schema"
  shows "leads_to S schema c = Some (Inr ()) \<Longrightarrow> c \<le> schema \<Longrightarrow> \<exists>ms. set ms \<subseteq> set mgs \<and> migration_chain c ms schema"
proof (induction "schema - c" arbitrary: c rule: less_induct)
  case less
  show ?case
  proof (cases "c < schema")
    case True
    then obtain mg where mg: "bt_get S c = Some mg" and r: "leads_to S schema (sm_to mg) = Some (Inr ())"
      using less.prems(1) by (auto simp: leads_to.simps [of _ _ c] split: option.splits)
    have m: "mg \<in> set mgs" "sm_from mg = c" "c < sm_to mg" using i mg by (auto simp: source_index_def)
    then have "schema - sm_to mg < schema - c" using True by linarith
    from less.hyps [OF this r] b m obtain ms where "set ms \<subseteq> set mgs" "migration_chain (sm_to mg) ms schema" by blast
    with m have "set (mg # ms) \<subseteq> set mgs \<and> migration_chain c (mg # ms) schema" by simp
    then show ?thesis by blast
  next
    case False
    with less.prems(2) have "set [] \<subseteq> set mgs \<and> migration_chain c [] schema" by simp
    then show ?thesis by blast
  qed
qed

lemma chain_append: "migration_chain a (us @ vs) b \<longleftrightarrow> (\<exists>c. migration_chain a us c \<and> migration_chain c vs b)"
  by (induction us arbitrary: a) auto

lemma chain_bounded:
  "migration_chain a mgs b \<Longrightarrow> \<forall>mg \<in> set mgs. sm_from mg < sm_to mg \<Longrightarrow> distinct mgs"
proof (induction mgs arbitrary: a)
  case (Cons mg mgs)
  have "sm_to mg \<le> sm_from x" if x: "x \<in> set mgs" for x
  proof -
    obtain us vs where s: "mgs = us @ x # vs" using split_list [OF x] by blast
    then obtain c where "migration_chain (sm_to mg) us c" "migration_chain c (x # vs) b"
      using Cons.prems(1) chain_append [of "sm_to mg" us "x # vs" b] by auto
    with chain_le [of "sm_to mg" us c] Cons.prems(2) s show ?thesis by auto
  qed
  then have "mg \<notin> set mgs" using Cons.prems(2) by fastforce
  with Cons show ?case by auto
qed simp

lemma chain_start:
  assumes "source_index S mgs" and "\<forall>mg \<in> set mgs. sm_to mg \<le> schema"
    and "\<forall>mg \<in> set mgs. leads_to S schema (sm_to mg) = Some (Inr ())"
  shows "(\<exists>steps. set steps \<subseteq> set mgs \<and> migration_chain a steps schema) \<longleftrightarrow> a = schema \<or> a \<in> sm_from ` set mgs"
proof
  assume "\<exists>steps. set steps \<subseteq> set mgs \<and> migration_chain a steps schema"
  then obtain steps where "set steps \<subseteq> set mgs" "migration_chain a steps schema" by blast
  then show "a = schema \<or> a \<in> sm_from ` set mgs" by (cases steps) auto
next
  assume "a = schema \<or> a \<in> sm_from ` set mgs"
  then show "\<exists>steps. set steps \<subseteq> set mgs \<and> migration_chain a steps schema"
  proof
    assume "a = schema"
    then show ?thesis by (intro exI [of _ "[]"]) simp
  next
    assume "a \<in> sm_from ` set mgs"
    then obtain mg where mg: "mg \<in> set mgs" "sm_from mg = a" by blast
    obtain ms where "set ms \<subseteq> set mgs" "migration_chain (sm_to mg) ms schema"
      using leads_to_chain [OF assms(1,2)] assms(2,3) mg by blast
    with mg show ?thesis by (intro exI [of _ "mg # ms"]) simp
  qed
qed

lemma chain_length:
  assumes "source_index S mgs" and "set steps \<subseteq> set mgs" and "migration_chain a steps b"
  shows "length steps \<le> length mgs"
proof -
  have "distinct steps" using chain_bounded [OF assms(3)] assms(1,2) by (auto simp: source_index_def)
  then have "length steps = card (set steps)" by (simp add: distinct_card)
  also have "\<dots> \<le> card (set mgs)" using assms(2) by (simp add: card_mono)
  also have "\<dots> \<le> length mgs" by (rule card_length)
  finally show ?thesis .
qed

text \<open>C16: planning a migration.  From the package schema, or from a schema at which a declared migration
  starts, an accepted manifest has one chain of declared migrations to the package schema, of at most 256
  steps, and planning returns it; from any other older schema planning reports that there is no path, and
  from a newer one that the state is newer.\<close>

theorem migration_plan_exact:
  assumes "validate_package env m = Some (Inr ())"
  shows "(\<forall>steps. set steps \<subseteq> set (sc_migrations (pk_state m)) \<and>
        migration_chain source_schema steps (sc_schema (pk_state m)) \<longrightarrow>
      migration_plan_of env m source_schema = Some (Inr (planned_migration m source_schema steps)) \<and>
      length steps \<le> MAX_MIGRATIONS) \<and>
    ((\<exists>steps. set steps \<subseteq> set (sc_migrations (pk_state m)) \<and>
        migration_chain source_schema steps (sc_schema (pk_state m))) \<longleftrightarrow>
      source_schema = sc_schema (pk_state m) \<or> source_schema \<in> sm_from ` set (sc_migrations (pk_state m))) \<and>
    (source_schema < sc_schema (pk_state m) \<and> source_schema \<notin> sm_from ` set (sc_migrations (pk_state m)) \<longrightarrow>
      migration_plan_of env m source_schema = Some (Inl NoMigrationPath)) \<and>
    (sc_schema (pk_state m) < source_schema \<longrightarrow> migration_plan_of env m source_schema = Some (Inl SchemaNewer))"
proof -
  let ?mgs = "sc_migrations (pk_state m)" and ?schema = "sc_schema (pk_state m)"
  obtain N S where f: "try_fold (migration_step ?schema) ({}, []) ?mgs = Inr (N, S)" and len: "length ?mgs \<le> MAX_MIGRATIONS"
    and lead: "\<forall>mg \<in> set ?mgs. leads_to S ?schema (sm_to mg) = Some (Inr ())"
    using validated_state [OF assms] by blast
  note i = migration_checks [OF f]
  have le: "source_schema \<le> ?schema" if "set steps \<subseteq> set ?mgs" "migration_chain source_schema steps ?schema" for steps
    using chain_le [OF that(2)] that(1) i(1) by (auto simp: source_index_def)
  have none: "bt_get S source_schema = None" if "source_schema \<notin> sm_from ` set ?mgs"
    using that i(1) by (cases "bt_get S source_schema") (auto simp: source_index_def)
  have plan: "migration_plan_of env m source_schema = Some (Inr (planned_migration m source_schema steps))"
    if "set steps \<subseteq> set ?mgs" "migration_chain source_schema steps ?schema" for steps
    using assms le [OF that] migration_steps_chain [OF i(1) that(2,1)] by (simp add: migration_plan_of_def i(2) [symmetric])
  have fail: "migration_plan_of env m source_schema = Some (Inl NoMigrationPath)"
    if "source_schema < ?schema" "source_schema \<notin> sm_from ` set ?mgs"
    using assms that none by (simp add: migration_plan_of_def migration_steps.simps i(2) [symmetric])
  have newer: "migration_plan_of env m source_schema = Some (Inl SchemaNewer)" if "?schema < source_schema"
    using assms that by (simp add: migration_plan_of_def)
  show ?thesis
    using plan fail newer chain_start [OF i(1,3) lead] chain_length [OF i(1)] len le_trans by blast
qed

section \<open>Paths of assets\<close>

text \<open>An accepted path is already in normal form and stays below the directory it is joined to.\<close>

lemma normalize_relative_path_safe:
  assumes "normalize_relative_path path = Some q"
  shows "q = path \<and> (\<forall>part \<in> set (split_on (CHR ''/'') path). part \<noteq> [] \<and> part \<noteq> ''.'' \<and> part \<noteq> ''..'')"
  using assms by (auto simp: normalize_relative_path_def list_ex_iff split: if_splits)

section \<open>Negotiation\<close>

lemma permission_map_eq:
  "permission_map p =
     [(''assets'', pm_assets p), (''audio'', pm_audio p), (''clock'', pm_clock p), (''graphics'', pm_graphics p),
      (''http'', pm_http p), (''midi'', pm_midi p), (''random'', pm_random p), (''serve'', pm_serve p),
      (''storage'', pm_storage p)]"
  by (simp add: permission_map_def less_char_def)

lemma bt_ok_permission_map: "bt_ok (permission_map p)"
  by (simp add: permission_map_eq bt_ok_def less_char_def)

lemma host_capabilities_get:
  "name \<in> fst ` set (permission_map p) \<Longrightarrow> bt_get (host_capabilities env) name = Some (version_new env 1 0 0)"
  by (auto simp: permission_map_eq host_capabilities_def bt_get_def)

definition capability_satisfied :: "('v, 'r) package_env \<Rightarrow> compatibility \<Rightarrow> string \<Rightarrow> bool" where
  "capability_satisfied env c name \<longleftrightarrow>
     (\<forall>requirement. bt_get (co_capabilities c) name = Some requirement \<longrightarrow>
        (\<exists>req. req_parse env requirement = Some req \<and> req_matches env req (version_new env 1 0 0)))"

lemma negotiate_step_Inr:
  assumes "name \<in> fst ` set (permission_map p)"
  shows "negotiate_step env c negotiated (name, enabled) = Inr n \<longleftrightarrow>
    (if enabled then capability_satisfied env c name \<and> n = bt_insert name (version_display env (version_new env 1 0 0)) negotiated
     else n = negotiated)"
  using host_capabilities_get [OF assms, of env]
  by (auto simp: negotiate_step_def capability_satisfied_def result_simps split: option.splits)

lemma negotiate_fold:
  "set es \<subseteq> set (permission_map p) \<Longrightarrow> bt_ok negotiated \<Longrightarrow>
     ((\<exists>n. try_fold (negotiate_step env c) negotiated es = Inr n) \<longleftrightarrow>
        (\<forall>name. (name, True) \<in> set es \<longrightarrow> capability_satisfied env c name)) \<and>
     (\<forall>n. try_fold (negotiate_step env c) negotiated es = Inr n \<longrightarrow>
        (\<forall>name. bt_get n name = (if (name, True) \<in> set es
           then Some (version_display env (version_new env 1 0 0)) else bt_get negotiated name)))"
proof (induction es arbitrary: negotiated)
  case (Cons e es)
  obtain name enabled where e: "e = (name, enabled)" by (cases e)
  have mem: "name \<in> fst ` set (permission_map p)" using Cons.prems(1) e by force
  define n where "n = (if enabled then bt_insert name (version_display env (version_new env 1 0 0)) negotiated else negotiated)"
  have step: "try_fold (negotiate_step env c) negotiated (e # es) = Inr r \<longleftrightarrow>
      (enabled \<longrightarrow> capability_satisfied env c name) \<and> try_fold (negotiate_step env c) n es = Inr r" for r
    by (auto simp: e result_simps negotiate_step_Inr [OF mem] n_def)
  have n: "bt_ok n" "bt_get n k = (if enabled \<and> k = name then Some (version_display env (version_new env 1 0 0))
      else bt_get negotiated k)" for k
    using Cons.prems(2) by (simp_all add: n_def)
  from Cons.IH [OF _ n(1)] Cons.prems(1) show ?case unfolding step by (auto simp: e n(2))
qed simp

text \<open>Negotiation grants what the manifest enables.  An accepted manifest is granted a platform exactly when
  the host interface satisfies its requirement, if it has one, and version 1.0.0 satisfies the requirement
  of each capability that has one; the platform then lists exactly the enabled permissions, at that version.\<close>

theorem negotiation_exact:
  assumes "validate_package env m = Some (Inr ())" and "bt_ok (co_capabilities (pk_compatibility m))"
    and "version_parse env HOST_API_VERSION = Some host_api"
  shows "((\<exists>np. negotiate_platform env m = Some (Inr np)) \<longleftrightarrow>
      (\<forall>req. co_host_api (pk_compatibility m) \<noteq> [] \<and> req_parse env (co_host_api (pk_compatibility m)) = Some req \<longrightarrow>
         req_matches env req host_api) \<and>
      (\<forall>(name, requirement) \<in> set (co_capabilities (pk_compatibility m)). \<forall>req. req_parse env requirement = Some req \<longrightarrow>
         req_matches env req (version_new env 1 0 0))) \<and>
    (\<forall>np. negotiate_platform env m = Some (Inr np) \<longrightarrow> np_host_api np = version_display env host_api \<and>
      (\<forall>name. bt_get (np_capabilities np) name =
        (if bt_get (permission_map (pk_permissions m)) name = Some True
         then Some (version_display env (version_new env 1 0 0)) else None)))"
proof -
  let ?c = "pk_compatibility m" and ?p = "permission_map (pk_permissions m)"
  have host: "co_host_api ?c \<noteq> [] \<Longrightarrow> \<exists>req. req_parse env (co_host_api ?c) = Some req"
    and caps: "\<forall>(name, requirement) \<in> set (co_capabilities ?c).
      (\<exists>req. req_parse env requirement = Some req) \<and> bt_get ?p name = Some True"
    using assms(1)
    by (auto simp: validate_package_def validate_head_def validate_compatibility_def result_simps try_fold_unit
        validate_capability_def unwrap_or_def split: option.splits if_splits)
  have sat: "(\<forall>name. (name, True) \<in> set ?p \<longrightarrow> capability_satisfied env ?c name) \<longleftrightarrow>
      (\<forall>(name, requirement) \<in> set (co_capabilities ?c). \<forall>req. req_parse env requirement = Some req \<longrightarrow>
         req_matches env req (version_new env 1 0 0))"
    using caps bt_get_in_set [OF assms(2)] bt_get_in_set [OF bt_ok_permission_map]
    by (fastforce simp: capability_satisfied_def)
  note f = negotiate_fold [of ?p "pk_permissions m" "[]" env ?c, OF subset_refl bt_ok_Nil]
  have ex: "(\<exists>np. negotiate_platform env m = Some (Inr np)) \<longleftrightarrow>
      (\<forall>req. co_host_api ?c \<noteq> [] \<and> req_parse env (co_host_api ?c) = Some req \<longrightarrow> req_matches env req host_api) \<and>
      (\<exists>n. try_fold (negotiate_step env ?c) [] ?p = Inr n)"
    using assms(1,3) host by (auto simp: negotiate_platform_def result_simps split: if_splits)
  have val: "np_host_api np = version_display env host_api \<and> try_fold (negotiate_step env ?c) [] ?p = Inr (np_capabilities np)"
    if "negotiate_platform env m = Some (Inr np)" for np
    using assms(1,3) that by (auto simp: negotiate_platform_def result_simps)
  have get: "bt_get ?p name = Some True \<longleftrightarrow> (name, True) \<in> set ?p" for name
    by (rule bt_get_in_set [OF bt_ok_permission_map])
  show ?thesis
    unfolding ex sat [symmetric] get using f val by simp
qed

section \<open>Examples\<close>

definition hex_digit :: "nat \<Rightarrow> char" where
  "hex_digit n = ''0123456789abcdef'' ! n"

definition hex_value :: "char \<Rightarrow> nat option" where
  "hex_value c =
     (let n = (of_char c :: nat) in
      if 48 \<le> n \<and> n \<le> 57 then Some (n - 48)
      else if 97 \<le> n \<and> n \<le> 102 then Some (n - 87)
      else if 65 \<le> n \<and> n \<le> 70 then Some (n - 55) else None)"

fun demo_hex_decode :: "string \<Rightarrow> bytes option" where
  "demo_hex_decode [] = Some []"
| "demo_hex_decode [c] = None"
| "demo_hex_decode (c # d # s) =
     (case (hex_value c, hex_value d, demo_hex_decode s) of
        (Some x, Some y, Some b) \<Rightarrow> Some (of_nat (16 * x + y) # b)
      | _ \<Rightarrow> None)"

definition demo_hex_encode :: "bytes \<Rightarrow> string" where
  "demo_hex_encode b = concat (map (\<lambda>w. [hex_digit (unat w div 16), hex_digit (unat w mod 16)]) b)"

lemma hex_digit_ok: "n < 16 \<Longrightarrow> hex_value (hex_digit n) = Some n \<and> to_lower (hex_digit n) = hex_digit n \<and>
      is_ascii_hexdigit (hex_digit n)"
proof -
  assume "n < 16"
  then have "n \<in> set [0, 1, 2, 3, 4, 5, 6, 7, 8, 9, 10, 11, 12, 13, 14, 15]" by (simp, presburger)
  moreover have "\<forall>n \<in> set [0, 1, 2, 3, 4, 5, 6, 7, 8, 9, 10, 11, 12, 13, 14, 15].
      hex_value (hex_digit n) = Some n \<and> to_lower (hex_digit n) = hex_digit n \<and>
      is_ascii_hexdigit (hex_digit n)"
    by (simp add: hex_value_def hex_digit_def text_defs)
  ultimately show ?thesis by blast
qed

lemma unat_byte: "unat (w :: 8 word) < 256"
  using unsigned_less [of w] by simp

lemma demo_hex_encode_Cons:
  "demo_hex_encode (w # b) = hex_digit (unat w div 16) # hex_digit (unat w mod 16) # demo_hex_encode b"
  by (simp add: demo_hex_encode_def)

lemma demo_hex_nibbles: "unat (w :: 8 word) div 16 < 16" "unat (w :: 8 word) mod 16 < 16"
  using unat_byte [of w] by auto

lemmas demo_hex_digits = hex_digit_ok [OF demo_hex_nibbles(1)] hex_digit_ok [OF demo_hex_nibbles(2)]

lemma demo_hex_round_trip: "demo_hex_decode (demo_hex_encode b) = Some b"
proof (induction b)
  case (Cons w b)
  have "of_nat (16 * (unat w div 16) + unat w mod 16) = w" by (simp only: mult_div_mod_eq) simp
  with Cons show ?case by (simp only: demo_hex_encode_Cons demo_hex_decode.simps demo_hex_digits) simp
qed (simp add: demo_hex_encode_def)

lemma demo_hex_is_sha256: "length b = 32 \<Longrightarrow> is_sha256 (demo_hex_encode b)"
proof -
  have "length (demo_hex_encode b) = 2 * length b \<and> list_all is_ascii_hexdigit (demo_hex_encode b)"
    by (induction b) (simp_all add: demo_hex_encode_Cons demo_hex_digits, simp add: demo_hex_encode_def)
  then show "length b = 32 \<Longrightarrow> ?thesis" by (simp add: is_sha256_def)
qed

lemma demo_hex_lowercase: "to_ascii_lowercase (demo_hex_encode b) = demo_hex_encode b"
proof (induction b)
  case (Cons w b)
  then show ?case by (simp only: demo_hex_encode_Cons to_ascii_lowercase_def list.map demo_hex_digits)
qed (simp add: demo_hex_encode_def to_ascii_lowercase_def)

definition demo_package_env :: "(string, string) package_env" where
  "demo_package_env = \<lparr>version_parse = (\<lambda>s. if s = [] then None else Some s), version_display = (\<lambda>v. v),
     version_new = (\<lambda>_ _ _. ''1''), version_major = (\<lambda>v. if starts_with v ''0'' then 0 else 1),
     req_parse = Some, req_matches = (\<lambda>req v. starts_with v req), pk_sha256 = (\<lambda>_. replicate 32 7),
     pk_hex_encode = demo_hex_encode, pk_hex_decode = demo_hex_decode\<rparr>"

definition demo_manifest ::
    "string \<Rightarrow> cartridge_dependency list \<Rightarrow> provided_service list \<Rightarrow> state_migration list \<Rightarrow> package_manifest" where
  "demo_manifest cid deps services mgs = \<lparr>pk_format_version = 1,
     pk_cartridge = \<lparr>cm_id = cid, cm_name = ''Demo'', cm_version = ''1'', cm_description = []\<rparr>,
     pk_permissions = \<lparr>pm_clock = False, pm_random = False, pm_assets = False, pm_storage = True, pm_graphics = False,
       pm_audio = False, pm_midi = False, pm_http = False, pm_serve = False\<rparr>,
     pk_http = \<lparr>hp_scopes = [], hp_max_request_bytes = 1, hp_max_response_bytes = 1, hp_max_redirects = 0\<rparr>,
     pk_compatibility = \<lparr>co_host_api = ''0.4'', co_capabilities = [(''storage'', ''1'')]\<rparr>,
     pk_runtime = default_limits, pk_state = \<lparr>sc_schema = 3, sc_migrations = mgs\<rparr>,
     pk_dependencies = deps, pk_provides = services,
     pk_integrity = \<lparr>in_component_sha256 = [], in_assets_sha256 = [], in_assets_root_sha256 = []\<rparr>\<rparr>"

definition demo_migrations :: "state_migration list" where
  "demo_migrations = [\<lparr>sm_name = ''last'', sm_from = 1, sm_to = 3\<rparr>, \<lparr>sm_name = ''first'', sm_from = 0, sm_to = 1\<rparr>]"

lemma demo_head_ok: "validate_id cid = Inr () \<Longrightarrow> validate_head demo_package_env (demo_manifest cid deps services mgs) = Inr ()"
  by (simp add: validate_head_def demo_manifest_def demo_package_env_def manifest_consts validate_human_text_def
      version_ok_def validate_http_policy_def http_consts validate_compatibility_def validate_capability_def
      validate_capability_name_def default_limits_valid text_defs name_byte_def permission_map_eq bt_get_def unwrap_or_def)

lemma demo_state_ok: "validate_state (pk_state (demo_manifest cid deps services demo_migrations))
    (pk_permissions (demo_manifest cid deps services demo_migrations)) = Some (Inr ())"
  by (simp add: validate_state_def demo_manifest_def demo_migrations_def migration_step_def validate_alias_def
      leads_to.simps bt_get_def name_byte_def text_defs manifest_consts)

lemma demo_manifest_ok: "validate_package demo_package_env (demo_manifest ''a.b.c'' [] [] demo_migrations) = Some (Inr ())"
proof -
  have "validate_id ''a.b.c'' = Inr ()" by (simp add: validate_id_def valid_segment_def name_byte_def text_defs)
  then show ?thesis
    by (simp add: validate_package_def demo_head_ok demo_state_ok)
      (simp add: demo_manifest_def validate_integrity_def validate_relationships_def)
qed

theorem migration_plan_exact_witness:
  "migration_plan_of demo_package_env (demo_manifest ''a.b.c'' [] [] demo_migrations) 0 =
     Some (Inr (planned_migration (demo_manifest ''a.b.c'' [] [] demo_migrations) 0 (rev demo_migrations)))"
  using migration_plan_exact [OF demo_manifest_ok, of 0] by (simp add: demo_manifest_def demo_migrations_def)

theorem negotiation_exact_witness:
  "\<exists>np. negotiate_platform demo_package_env (demo_manifest ''a.b.c'' [] [] demo_migrations) = Some (Inr np)"
  using negotiation_exact [OF demo_manifest_ok, of "''0.4.0''"]
  by (simp add: demo_manifest_def demo_package_env_def HOST_API_VERSION_def bt_ok_def starts_with_def)

end
