(* ===== verification/Asset_Root.thy ===== *)
theory Asset_Root
  imports Manifest
begin

text \<open>
  The Merkle root over the assets of a package (\<^verbatim>\<open>asset_integrity_root\<close> of
  \<^verbatim>\<open>crates/cartridge-core/src/manifest.rs\<close>).  Shown here: the root binds the paths and digests of the assets,
  where the hash does not collide on what is hashed for them.
\<close>

section \<open>The root binds the assets\<close>

text \<open>The tree whose root \<^const>\<open>asset_integrity_root\<close> hashes, with the input of each hash.\<close>

datatype merkle = Leaf bytes | Node merkle merkle

fun merkle_hash :: "(bytes \<Rightarrow> bytes) \<Rightarrow> merkle \<Rightarrow> bytes" where
  "merkle_hash sha (Leaf b) = sha b"
| "merkle_hash sha (Node l r) = sha (1 # merkle_hash sha l @ merkle_hash sha r)"

fun merkle_inputs :: "(bytes \<Rightarrow> bytes) \<Rightarrow> merkle \<Rightarrow> bytes set" where
  "merkle_inputs sha (Leaf b) = {b}"
| "merkle_inputs sha (Node l r) =
     insert (1 # merkle_hash sha l @ merkle_hash sha r) (merkle_inputs sha l \<union> merkle_inputs sha r)"

fun merkle_leaves :: "merkle \<Rightarrow> bytes set" where
  "merkle_leaves (Leaf b) = {b}"
| "merkle_leaves (Node l r) = merkle_leaves l \<union> merkle_leaves r"

fun merkle_depth :: "merkle \<Rightarrow> nat" where
  "merkle_depth (Leaf b) = 0"
| "merkle_depth (Node l r) = Suc (merkle_depth l)"

fun merkle_pairs :: "merkle list \<Rightarrow> merkle list" where
  "merkle_pairs (l # r # ts) = Node l r # merkle_pairs ts"
| "merkle_pairs [l] = [Node l l]"
| "merkle_pairs [] = []"

lemma length_merkle_pairs: "length (merkle_pairs ts) = (length ts + 1) div 2"
  by (induction ts rule: merkle_pairs.induct) simp_all

function merkle_build :: "merkle list \<Rightarrow> merkle list" where
  "merkle_build ts = (if length ts > 1 then merkle_build (merkle_pairs ts) else ts)"
  by pat_completeness auto
termination
  by (relation "measure length") (simp_all add: length_merkle_pairs)

declare merkle_build.simps [simp del]

lemma asset_parents_pairs: "asset_parents sha (map (merkle_hash sha) ts) = map (merkle_hash sha) (merkle_pairs ts)"
  by (induction ts rule: merkle_pairs.induct) simp_all

lemma asset_levels_build: "asset_levels sha (map (merkle_hash sha) ts) = map (merkle_hash sha) (merkle_build ts)"
proof (induction ts rule: merkle_build.induct)
  case (1 ts)
  then show ?case
    by (subst asset_levels.simps, subst merkle_build.simps) (simp add: asset_parents_pairs)
qed

lemma merkle_build_single: "ts \<noteq> [] \<Longrightarrow> \<exists>t. merkle_build ts = [t]"
proof (induction ts rule: merkle_build.induct)
  case (1 ts)
  have "merkle_pairs ts \<noteq> []" using 1(2) length_merkle_pairs [of ts] by (cases ts) auto
  with 1 show ?case by (subst merkle_build.simps) (cases ts; auto)
qed

lemma merkle_leaves_pairs: "\<Union> (merkle_leaves ` set (merkle_pairs ts)) = \<Union> (merkle_leaves ` set ts)"
  by (induction ts rule: merkle_pairs.induct) auto

lemma merkle_leaves_build: "\<Union> (merkle_leaves ` set (merkle_build ts)) = \<Union> (merkle_leaves ` set ts)"
proof (induction ts rule: merkle_build.induct)
  case (1 ts)
  then show ?case by (subst merkle_build.simps) (simp add: merkle_leaves_pairs)
qed

lemma merkle_pairs_depth:
  "\<forall>t \<in> set ts. merkle_depth t = d \<Longrightarrow> \<forall>t \<in> set (merkle_pairs ts). merkle_depth t = Suc d"
  by (induction ts rule: merkle_pairs.induct) auto

lemma merkle_build_depth:
  "\<forall>t \<in> set ts. merkle_depth t = d \<Longrightarrow> \<forall>t \<in> set (merkle_build ts). d + (if length ts > 1 then 1 else 0) \<le> merkle_depth t"
proof (induction ts arbitrary: d rule: merkle_build.induct)
  case (1 ts)
  show ?case
  proof (cases "length ts > 1")
    case True
    from 1(1) [OF True merkle_pairs_depth [OF 1(2)]]
    have "\<forall>t \<in> set (merkle_build (merkle_pairs ts)). Suc d \<le> merkle_depth t" by fastforce
    with True show ?thesis by (subst merkle_build.simps) simp
  next
    case False
    with 1(2) show ?thesis by (subst merkle_build.simps) simp
  qed
qed

lemma merkle_pairs_first: "Node l r \<in> set (merkle_pairs ts) \<Longrightarrow> l \<in> set ts"
  by (induction ts rule: merkle_pairs.induct) auto

lemma merkle_pairs_node: "t \<in> set (merkle_pairs ts) \<Longrightarrow> \<exists>l r. t = Node l r"
  by (induction ts rule: merkle_pairs.induct) auto

lemma distinct_merkle_pairs: "distinct ts \<Longrightarrow> distinct (merkle_pairs ts)"
  by (induction ts rule: merkle_pairs.induct) (auto dest: merkle_pairs_first)

lemma merkle_pairs_inject:
  "distinct ts \<Longrightarrow> distinct us \<Longrightarrow> merkle_pairs ts = merkle_pairs us \<Longrightarrow> ts = us"
proof (induction ts arbitrary: us rule: merkle_pairs.induct)
  case (1 l r ts)
  then show ?case by (cases us rule: merkle_pairs.cases) auto
next
  case (2 l)
  then show ?case by (cases us rule: merkle_pairs.cases) auto
next
  case 3
  then show ?case by (cases us rule: merkle_pairs.cases) auto
qed

text \<open>The partner a lone node gets is itself, so that a list with its last node repeated has the same root; the
  leaves of distinct paths are distinct, which rules this out on every level.\<close>

lemma merkle_build_inject:
  "distinct ts \<Longrightarrow> distinct us \<Longrightarrow> \<forall>t \<in> set ts. merkle_depth t = d \<Longrightarrow> \<forall>u \<in> set us. merkle_depth u = d \<Longrightarrow>
     ts \<noteq> [] \<Longrightarrow> us \<noteq> [] \<Longrightarrow> merkle_build ts = merkle_build us \<Longrightarrow> ts = us"
proof (induction ts arbitrary: us d rule: merkle_build.induct)
  case (1 ts)
  obtain t where t: "merkle_build ts = [t]" "merkle_build us = [t]"
    using merkle_build_single 1(6,8) by metis
  show ?case
  proof (cases "length ts > 1 \<and> length us > 1")
    case True
    then have "merkle_build (merkle_pairs ts) = merkle_build (merkle_pairs us)"
      using 1(8) by (simp add: merkle_build.simps [of ts] merkle_build.simps [of us])
    moreover have "merkle_pairs ts \<noteq> []" "merkle_pairs us \<noteq> []"
      using True length_merkle_pairs [of ts] length_merkle_pairs [of us] by auto
    ultimately have "merkle_pairs ts = merkle_pairs us"
      using 1(1) [of "merkle_pairs us" "Suc d"] True 1(2-5) merkle_pairs_depth distinct_merkle_pairs by blast
    with 1(2,3) show ?thesis by (rule merkle_pairs_inject)
  next
    case False
    have "merkle_depth t = d" using False t 1(4,5) by (auto simp: merkle_build.simps [of ts] merkle_build.simps [of us] split: if_splits)
    then have "\<not> length ts > 1" "\<not> length us > 1"
      using merkle_build_depth [OF 1(4)] merkle_build_depth [OF 1(5)] t by auto
    with t show ?thesis by (simp add: merkle_build.simps [of ts] merkle_build.simps [of us])
  qed
qed

text \<open>The input of the topmost hash.\<close>

fun merkle_top :: "(bytes \<Rightarrow> bytes) \<Rightarrow> merkle \<Rightarrow> bytes" where
  "merkle_top sha (Leaf b) = b"
| "merkle_top sha (Node l r) = 1 # merkle_hash sha l @ merkle_hash sha r"

lemma merkle_hash_top: "merkle_hash sha t = sha (merkle_top sha t)"
  by (cases t) simp_all

lemma merkle_top_input: "merkle_top sha t \<in> merkle_inputs sha t"
  by (cases t) simp_all

lemma merkle_top_inject:
  "inj_on sha (merkle_inputs sha t \<union> merkle_inputs sha u) \<Longrightarrow> merkle_hash sha t = merkle_hash sha u \<Longrightarrow>
     merkle_top sha t = merkle_top sha u"
  by (auto simp: merkle_hash_top dest!: inj_onD intro: merkle_top_input)

lemma merkle_hash_inject:
  assumes len: "\<And>b. length (sha b) = 32"
  shows "\<forall>b \<in> merkle_leaves t \<union> merkle_leaves u. hd b = 0 \<Longrightarrow>
    inj_on sha (merkle_inputs sha t \<union> merkle_inputs sha u) \<Longrightarrow> merkle_hash sha t = merkle_hash sha u \<Longrightarrow> t = u"
proof (induction t arbitrary: u)
  case (Leaf b)
  from merkle_top_inject [OF Leaf.prems(2,3)] Leaf.prems(1) show ?case by (cases u) auto
next
  case (Node l r)
  note top = merkle_top_inject [OF Node.prems(2,3)]
  show ?case
  proof (cases u)
    case (Leaf b)
    with top Node.prems(1) show ?thesis by auto
  next
    case u: (Node l' r')
    have "length (merkle_hash sha x) = 32" for x by (simp add: merkle_hash_top len)
    with top u have "merkle_hash sha l = merkle_hash sha l'" "merkle_hash sha r = merkle_hash sha r'" by simp_all
    moreover have "inj_on sha (merkle_inputs sha l \<union> merkle_inputs sha l')" "inj_on sha (merkle_inputs sha r \<union> merkle_inputs sha r')"
      using Node.prems(2) unfolding u by (auto elim!: inj_on_subset)
    ultimately show ?thesis using Node.IH Node.prems(1) unfolding u by auto
  qed
qed

section \<open>Equal roots\<close>

definition asset_trees :: "('v, 'r) package_env \<Rightarrow> (string, string) btree \<Rightarrow> merkle list" where
  "asset_trees env assets = map (\<lambda>(path, hex). Leaf (leaf_input path (the (pk_hex_decode env hex)))) assets"

definition asset_tree :: "('v, 'r) package_env \<Rightarrow> (string, string) btree \<Rightarrow> merkle" where
  "asset_tree env a = hd (merkle_build (asset_trees env a))"

text \<open>Everything that is hashed for the root of the assets.\<close>

definition asset_inputs :: "('v, 'r) package_env \<Rightarrow> (string, string) btree \<Rightarrow> bytes set" where
  "asset_inputs env assets =
     (if assets = [] then {[2]} else merkle_inputs (pk_sha256 env) (asset_tree env assets))"

definition hashing_ok :: "('v, 'r) package_env \<Rightarrow> bool" where
  "hashing_ok env \<longleftrightarrow> (\<forall>b. pk_hex_decode env (pk_hex_encode env b) = Some b) \<and>
     (\<forall>b. to_ascii_lowercase (pk_hex_encode env b) = pk_hex_encode env b) \<and> (\<forall>b. length (pk_sha256 env b) = 32)"

lemma asset_leaf_Inr:
  "asset_leaf env (path, hex) = Inr b \<longleftrightarrow>
     (\<exists>digest. pk_hex_decode env hex = Some digest \<and> length digest = 32 \<and> length path < 2 ^ 64 \<and>
        b = pk_sha256 env (leaf_input path digest))"
  by (auto simp: asset_leaf_def result_simps)

lemma asset_nodes:
  "try_map (asset_leaf env) assets = Inr nodes \<Longrightarrow>
     nodes = map (merkle_hash (pk_sha256 env)) (asset_trees env assets) \<and>
     (\<forall>(path, hex) \<in> set assets. \<exists>digest. pk_hex_decode env hex = Some digest \<and> length digest = 32)"
  by (induction assets arbitrary: nodes) (auto simp: result_simps asset_leaf_Inr asset_trees_def)

lemma as_bytes_inject: "as_bytes s = as_bytes t \<longleftrightarrow> s = t"
proof -
  have "unat (of_char c :: 8 word) = (of_char c :: nat)" for c
  proof -
    have "(of_char c :: 8 word) = of_nat (of_char c)" by (rule of_nat_of_char [symmetric])
    moreover have "(of_char c :: nat) < 256" by simp
    ultimately show ?thesis by (simp only: unat_of_nat) simp
  qed
  then have "inj (of_char :: char \<Rightarrow> 8 word)" by (metis injI of_char_eq_iff)
  then show ?thesis by (simp add: as_bytes_def inj_map_eq_map)
qed

lemma leaf_input_inject:
  assumes "length d = 32" and "length d' = 32" and "leaf_input p d = leaf_input p' d'"
  shows "p = p' \<and> d = d'"
proof -
  have l: "length (to_be_bytes 8 n) = 8" for n by (simp add: to_be_bytes_def to_le_bytes_def)
  have "length (leaf_input p d) = length (leaf_input p' d')" using assms(3) by simp
  then have "length p = length p'" using assms(1,2) by (simp add: leaf_input_def l as_bytes_def)
  then have "length (as_bytes p) = length (as_bytes p')" by (simp add: as_bytes_def)
  with assms(3) have "as_bytes p = as_bytes p'" "d = d'" by (simp_all add: leaf_input_def l)
  then show ?thesis by (simp add: as_bytes_inject)
qed

lemma asset_trees_inject:
  "try_map (asset_leaf env) a = Inr n \<Longrightarrow> try_map (asset_leaf env) b = Inr n' \<Longrightarrow> asset_trees env a = asset_trees env b \<Longrightarrow>
     map (\<lambda>(p, h). (p, pk_hex_decode env h)) a = map (\<lambda>(p, h). (p, pk_hex_decode env h)) b"
proof (induction a arbitrary: b n n')
  case (Cons e a)
  then obtain f b' where b: "b = f # b'" by (cases b) (auto simp: asset_trees_def)
  obtain p h q k where ef: "e = (p, h)" "f = (q, k)" by (cases e; cases f) blast
  obtain d d' m m' where d: "pk_hex_decode env h = Some d" "length d = 32" "pk_hex_decode env k = Some d'" "length d' = 32"
    and m: "try_map (asset_leaf env) a = Inr m" "try_map (asset_leaf env) b' = Inr m'"
    using Cons.prems(1,2) unfolding b ef by (auto simp: result_simps asset_leaf_Inr)
  have "leaf_input p d = leaf_input q d'" and t: "asset_trees env a = asset_trees env b'"
    using Cons.prems(3) d unfolding b ef by (simp_all add: asset_trees_def)
  with leaf_input_inject [OF d(2,4)] Cons.IH [OF m t] d show ?case by (simp add: b ef)
qed (auto simp: asset_trees_def)

lemma asset_trees_leaves:
  "\<forall>t \<in> set (asset_trees env a). merkle_depth t = 0"
  "\<forall>b \<in> \<Union> (merkle_leaves ` set (asset_trees env a)). hd b = 0"
  by (auto simp: asset_trees_def leaf_input_def)

lemma distinct_asset_trees:
  assumes "bt_ok a" and "try_map (asset_leaf env) a = Inr n"
  shows "distinct (asset_trees env a)"
proof -
  have d: "distinct a" "inj_on fst (set a)" using assms(1) by (auto simp: bt_ok_def strict_sorted_iff distinct_map)
  have l: "length (the (pk_hex_decode env (snd g))) = 32" if "g \<in> set a" for g
    using asset_nodes [OF assms(2)] that by force
  have "inj_on (\<lambda>e. leaf_input (fst e) (the (pk_hex_decode env (snd e)))) (set a)"
    by (intro inj_onI) (metis leaf_input_inject l inj_onD [OF d(2)])
  with d(1) show ?thesis by (auto simp: asset_trees_def distinct_map case_prod_beta inj_on_def)
qed

lemma asset_tree_build: "a \<noteq> [] \<Longrightarrow> merkle_build (asset_trees env a) = [asset_tree env a]"
  using merkle_build_single [of "asset_trees env a"] by (auto simp: asset_tree_def asset_trees_def)

lemma asset_root_hash:
  assumes "asset_integrity_root env a = Inr root"
  shows "\<exists>n. try_map (asset_leaf env) a = Inr n \<and>
    root = pk_hex_encode env (pk_sha256 env (if a = [] then [2] else merkle_top (pk_sha256 env) (asset_tree env a)))"
proof -
  obtain n where n: "try_map (asset_leaf env) a = Inr n"
    using assms by (auto simp: asset_integrity_root_def result_simps)
  show ?thesis
  proof (cases "a = []")
    case True
    with assms n show ?thesis by (simp add: asset_integrity_root_def)
  next
    case False
    then have "n \<noteq> []" using asset_nodes [OF n] by (auto simp: asset_trees_def)
    with assms n asset_nodes [OF n] asset_tree_build [OF False, of env] False show ?thesis
      by (auto simp: asset_integrity_root_def asset_levels_build merkle_hash_top)
  qed
qed

lemma asset_tree_leaves: "a \<noteq> [] \<Longrightarrow> \<forall>b \<in> merkle_leaves (asset_tree env a). hd b = 0"
  using merkle_leaves_build [of "asset_trees env a"] asset_trees_leaves(2) [of env a] asset_tree_build [of a env]
  by simp

lemma asset_tree_top: "a \<noteq> [] \<Longrightarrow> merkle_top sha (asset_tree env a) \<noteq> [2]"
  using asset_tree_leaves [of a env] by (cases "asset_tree env a") auto

lemma asset_tree_inject:
  assumes "try_map (asset_leaf env) a = Inr n" and "try_map (asset_leaf env) b = Inr n'" and "bt_ok a" and "bt_ok b"
    and "a \<noteq> []" and "b \<noteq> []" and "asset_tree env a = asset_tree env b"
  shows "asset_trees env a = asset_trees env b"
proof (rule merkle_build_inject [OF distinct_asset_trees [OF assms(3,1)] distinct_asset_trees [OF assms(4,2)]
      asset_trees_leaves(1) asset_trees_leaves(1)])
  show "asset_trees env a \<noteq> []" "asset_trees env b \<noteq> []" using assms(5,6) by (simp_all add: asset_trees_def)
  show "merkle_build (asset_trees env a) = merkle_build (asset_trees env b)"
    using assms(5-7) by (simp add: asset_tree_build)
qed

text \<open>C17: the root of the assets binds them.  Two accepted manifests with the same non-empty root, up to the case of
  its digits, declare the same assets with the same digests, where the hash does not collide on what is
  hashed for them.\<close>

theorem assets_root_binds:
  assumes ok: "hashing_ok env"
    and "bt_ok (in_assets_sha256 i)" and "bt_ok (in_assets_sha256 j)"
    and "validate_integrity env i = Inr ()" and "validate_integrity env j = Inr ()"
    and "in_assets_root_sha256 i \<noteq> []" and "in_assets_root_sha256 j \<noteq> []"
    and "eq_ignore_ascii_case (in_assets_root_sha256 i) (in_assets_root_sha256 j)"
    and inj: "inj_on (pk_sha256 env) (asset_inputs env (in_assets_sha256 i) \<union> asset_inputs env (in_assets_sha256 j))"
  shows "map (\<lambda>(path, hex). (path, pk_hex_decode env hex)) (in_assets_sha256 i) =
    map (\<lambda>(path, hex). (path, pk_hex_decode env hex)) (in_assets_sha256 j)"
proof -
  let ?a = "in_assets_sha256 i" and ?b = "in_assets_sha256 j" and ?sha = "pk_sha256 env"
  let ?top = "\<lambda>x. if x = [] then [2] else merkle_top ?sha (asset_tree env x)"
  obtain r s where r: "asset_integrity_root env ?a = Inr r" "asset_integrity_root env ?b = Inr s"
    and eq: "eq_ignore_ascii_case r (in_assets_root_sha256 i)" "eq_ignore_ascii_case s (in_assets_root_sha256 j)"
    using assms(4-7) by (auto simp: validate_integrity_def result_simps)
  obtain n n' where n: "try_map (asset_leaf env) ?a = Inr n" "try_map (asset_leaf env) ?b = Inr n'"
    and h: "r = pk_hex_encode env (?sha (?top ?a))" "s = pk_hex_encode env (?sha (?top ?b))"
    using asset_root_hash [OF r(1)] asset_root_hash [OF r(2)] by blast
  have "r = s" using eq assms(8) ok unfolding h by (simp add: eq_ignore_ascii_case_def hashing_ok_def)
  then have sha: "?sha (?top ?a) = ?sha (?top ?b)" using ok unfolding h hashing_ok_def by (metis option.inject)
  then have top: "?top ?a = ?top ?b"
    by (rule inj_onD [OF inj]) (simp_all add: asset_inputs_def merkle_top_input)
  show ?thesis
  proof (cases "?a = [] \<or> ?b = []")
    case True
    with top asset_tree_top [of ?a ?sha env] asset_tree_top [of ?b ?sha env] have "?a = ?b" by (simp split: if_splits)
    then show ?thesis by simp
  next
    case False
    have "asset_tree env ?a = asset_tree env ?b"
    proof (rule merkle_hash_inject [of ?sha])
      show "\<forall>b \<in> merkle_leaves (asset_tree env ?a) \<union> merkle_leaves (asset_tree env ?b). hd b = 0"
        using asset_tree_leaves False by blast
    qed (use ok False inj sha in \<open>simp_all add: hashing_ok_def asset_inputs_def merkle_hash_top\<close>)
    with False assms(2,3) have "asset_trees env ?a = asset_trees env ?b" by (intro asset_tree_inject [OF n]) simp_all
    then show ?thesis by (rule asset_trees_inject [OF n])
  qed
qed

section \<open>An example\<close>

definition demo_integrity :: "char \<Rightarrow> integrity" where
  "demo_integrity digit = \<lparr>in_component_sha256 = [], in_assets_sha256 = [(''a'', replicate 64 digit)],
     in_assets_root_sha256 = demo_hex_encode (replicate 32 7)\<rparr>"

lemma demo_hex_decode_replicate:
  "hex_value c = Some v \<Longrightarrow> demo_hex_decode (replicate (2 * n) c) = Some (replicate n (of_nat (17 * v)))"
  by (induction n) simp_all

lemma demo_digests:
  "c \<in> {CHR ''a'', CHR ''A''} \<Longrightarrow> demo_hex_decode (replicate 64 c) = Some (replicate 32 0xAA)"
  using demo_hex_decode_replicate [of c 10 32] by (auto simp: hex_value_def)

lemma demo_integrity_ok:
  assumes "c \<in> {CHR ''a'', CHR ''A''}"
  shows "validate_integrity demo_package_env (demo_integrity c) = Inr ()"
proof -
  have "demo_hex_encode (replicate 32 7) \<noteq> []"
    using demo_hex_is_sha256 [of "replicate 32 7"] by (auto simp: is_sha256_def)
  moreover have "is_sha256 (replicate 64 c)" using assms by (auto simp: is_sha256_def list_all_iff text_defs)
  ultimately show ?thesis
    using demo_digests [OF assms]
    by (simp add: validate_integrity_def demo_integrity_def validate_asset_def normalize_relative_path_def text_defs
        asset_integrity_root_def asset_leaf_def demo_package_env_def asset_levels.simps demo_hex_is_sha256)
qed

lemma demo_asset_inputs:
  "c \<in> {CHR ''a'', CHR ''A''} \<Longrightarrow>
     asset_inputs demo_package_env [(''a'', replicate 64 c)] = {leaf_input ''a'' (replicate 32 0xAA)}"
  using demo_digests [of c]
  by (simp add: asset_inputs_def asset_tree_def asset_trees_def demo_package_env_def merkle_build.simps)

theorem assets_root_binds_witness:
  "pk_hex_decode demo_package_env (replicate 64 CHR ''a'') = pk_hex_decode demo_package_env (replicate 64 CHR ''A'')"
proof -
  have "hashing_ok demo_package_env"
    by (simp add: hashing_ok_def demo_package_env_def demo_hex_round_trip demo_hex_lowercase)
  from assets_root_binds [OF this _ _ demo_integrity_ok demo_integrity_ok, of "CHR ''a''" "CHR ''A''"]
  moreover have "demo_hex_encode (replicate 32 7) \<noteq> []"
    using demo_hex_is_sha256 [of "replicate 32 7"] by (auto simp: is_sha256_def)
  ultimately show ?thesis
    by (simp add: demo_integrity_def bt_ok_def eq_ignore_ascii_case_def demo_asset_inputs)
qed

end
