(* ===== verification/Resolver.thy ===== *)
theory Resolver
  imports Manifest Composition Decimal
begin

text \<open>
  Dependency resolution (\<^verbatim>\<open>crates/cartridge-core/src/resolver.rs\<close>): choosing providers for the dependencies of a
  package, the transitive graph of instances, and the relationship grants derived from it.  An operation that
  validates manifests returns an \<^verbatim>\<open>option\<close> as in \<open>Manifest\<close>; the recursion of \<^verbatim>\<open>expand_graph\<close> is bounded by its depth.
  The reasons of unavailable dependencies are the messages of the code.

  Shown here: resolution succeeds exactly when every required dependency has an eligible provider, and selects
  the highest version; building a graph returns on every input.
\<close>

section \<open>Resolving the dependencies of one package\<close>

definition MAX_RESOLUTION_CANDIDATES :: nat where "MAX_RESOLUTION_CANDIDATES = 4096"

datatype resolve_error =
    InvalidManifest manifest_error
  | DuplicateCandidate string string
  | CandidateLimit
  | RequiredUnavailable string string string string

definition run_map_err :: "('e \<Rightarrow> 'f) \<Rightarrow> ('e + 'a) option \<Rightarrow> ('f + 'a) option" where
  "run_map_err f m = map_option (map_err f) m"

abbreviation manifest_id :: "package_manifest \<Rightarrow> string" where
  "manifest_id m \<equiv> cm_id (pk_cartridge m)"

abbreviation manifest_version :: "package_manifest \<Rightarrow> string" where
  "manifest_version m \<equiv> cm_version (pk_cartridge m)"

definition manifest_key :: "package_manifest \<Rightarrow> string \<times> string" where
  "manifest_key m = (manifest_id m, manifest_version m)"

definition external_interfaces :: "package_manifest \<Rightarrow> string list" where
  "external_interfaces m = map ps_interface (filter (\<lambda>s. ps_visibility s \<noteq> PrivateService) (pk_provides m))"

definition provides_all :: "cartridge_dependency \<Rightarrow> package_manifest \<Rightarrow> bool" where
  "provides_all d c \<longleftrightarrow> list_all (\<lambda>i. i \<in> set (external_interfaces c)) (cd_interfaces d)"

definition matching_version ::
    "('v, 'r) package_env \<Rightarrow> 'r \<Rightarrow> cartridge_dependency \<Rightarrow> package_manifest \<Rightarrow> ('v \<times> package_manifest) option" where
  "matching_version env req d c =
     (if manifest_id c = cd_cartridge d then
        (case version_parse env (manifest_version c) of
           None \<Rightarrow> None
         | Some v \<Rightarrow> if req_matches env req v then Some (v, c) else None)
      else None)"

text \<open>\<^verbatim>\<open>sort_by\<close> with the arguments of the comparison exchanged: a stable sort, highest version first.\<close>

definition sort_descending :: "('v :: linorder \<times> 'a) list \<Rightarrow> ('v \<times> 'a) list" where
  "sort_descending xs = rev (sort_key fst (rev xs))"

definition select_provider ::
    "('v :: linorder, 'r) package_env \<Rightarrow> 'r \<Rightarrow> cartridge_dependency \<Rightarrow> package_manifest list \<Rightarrow> ('v \<times> package_manifest) option" where
  "select_provider env req d candidates =
     find (\<lambda>(v, c). provides_all d c) (sort_descending (List.map_filter (matching_version env req d) candidates))"

fun join_text :: "string \<Rightarrow> string list \<Rightarrow> string" where
  "join_text sep [] = []"
| "join_text sep [s] = s"
| "join_text sep (s # t # ss) = s @ sep @ join_text sep (t # ss)"

text \<open>\<^verbatim>\<open>min_by_key(Vec::len)\<close>: the first of the shortest.\<close>

fun shortest :: "'a list list \<Rightarrow> 'a list option" where
  "shortest [] = None"
| "shortest (x # xs) = (case shortest xs of None \<Rightarrow> Some x | Some y \<Rightarrow> Some (if length x \<le> length y then x else y))"

definition missing_interfaces :: "cartridge_dependency \<Rightarrow> package_manifest \<Rightarrow> string list" where
  "missing_interfaces d c = filter (\<lambda>i. i \<notin> set (external_interfaces c)) (cd_interfaces d)"

definition unavailable_reason ::
    "('v, 'r) package_env \<Rightarrow> cartridge_dependency \<Rightarrow> package_manifest list \<Rightarrow> 'r \<Rightarrow> string" where
  "unavailable_reason env d candidates req =
     (let matching_id = filter (\<lambda>c. manifest_id c = cd_cartridge d) candidates;
          matching = filter (\<lambda>c. case version_parse env (manifest_version c) of None \<Rightarrow> False | Some v \<Rightarrow> req_matches env req v)
            matching_id
      in if matching_id = [] then ''cartridge is not installed''
         else if matching = [] then ''installed versions do not satisfy the requested range''
         else ''compatible versions do not provide: '' @
           join_text '', '' (unwrap_or (shortest (map (missing_interfaces d) matching)) (cd_interfaces d)))"

definition resolved_entry :: "('v, 'r) package_env \<Rightarrow> cartridge_dependency \<Rightarrow> 'v \<Rightarrow> resolved_dependency" where
  "resolved_entry env d v = \<lparr>rd_alias = cd_alias d, rd_cartridge = cd_cartridge d, rd_version = version_display env v,
     rd_interfaces = cd_interfaces d\<rparr>"

definition resolve_step ::
    "('v :: linorder, 'r) package_env \<Rightarrow> package_manifest list \<Rightarrow> resolution_plan \<Rightarrow> cartridge_dependency
      \<Rightarrow> resolve_error + resolution_plan" where
  "resolve_step env candidates plan d =
     and_then (ok_or (req_parse env (cd_version d)) (InvalidManifest RequirementInvalid)) (\<lambda>req.
     case select_provider env req d candidates of
       Some (v, _) \<Rightarrow> Inr (plan\<lparr>rp_resolved := rp_resolved plan @ [resolved_entry env d v]\<rparr>)
     | None \<Rightarrow>
         if cd_optional d then
           Inr (plan\<lparr>rp_unavailable_optional := rp_unavailable_optional plan @
             [\<lparr>ud_alias = cd_alias d, ud_cartridge = cd_cartridge d, ud_reason = unavailable_reason env d candidates req\<rparr>]\<rparr>)
         else Inl (RequiredUnavailable (cd_alias d) (cd_cartridge d) (cd_version d)
           (unavailable_reason env d candidates req)))"

definition candidate_step ::
    "(string \<times> string) set \<Rightarrow> package_manifest \<Rightarrow> resolve_error + (string \<times> string) set" where
  "candidate_step versions c =
     and_then (fail_if (manifest_key c \<in> versions) (DuplicateCandidate (manifest_id c) (manifest_version c))) (\<lambda>_.
     Inr (insert (manifest_key c) versions))"

definition resolve_dependencies ::
    "('v :: linorder, 'r) package_env \<Rightarrow> package_manifest \<Rightarrow> package_manifest list \<Rightarrow> (resolve_error + resolution_plan) option" where
  "resolve_dependencies env root candidates =
     run_then (Some (fail_if (length candidates > MAX_RESOLUTION_CANDIDATES) CandidateLimit)) (\<lambda>_.
     run_then (run_map_err InvalidManifest (validate_package env root)) (\<lambda>_.
     run_then (run_fold (\<lambda>_ c. run_map_err InvalidManifest (validate_package env c)) () candidates) (\<lambda>_.
     run_then (Some (try_fold candidate_step {} candidates)) (\<lambda>_.
     Some (try_fold (resolve_step env candidates) \<lparr>rp_resolved = [], rp_unavailable_optional = []\<rparr> (pk_dependencies root))))))"

section \<open>Graphs\<close>

definition APPROVED_GRAPH_FORMAT_VERSION :: nat where "APPROVED_GRAPH_FORMAT_VERSION = 1"
definition MAX_TRANSITIVE_DEPTH :: nat where "MAX_TRANSITIVE_DEPTH = 64"
definition MAX_GRAPH_NODES :: nat where "MAX_GRAPH_NODES = 256"
definition MAX_GRAPH_EDGES :: nat where "MAX_GRAPH_EDGES = 1024"

record graph_node =
  gn_instance :: string
  gn_cartridge_id :: string
  gn_version :: string
  gn_interfaces :: "string list"

record graph_edge =
  ge_caller :: string
  ge_provider :: string
  ge_alias :: string
  ge_interfaces :: "string list"

record approved_graph =
  ag_format_version :: nat
  ag_root_instance :: string
  ag_nodes :: "graph_node list"
  ag_edges :: "graph_edge list"
  ag_unavailable_optional :: "unavailable_dependency list"

datatype graph_error =
    GraphCycle string string
  | DepthExceeded
  | NodeLimit
  | GraphResolution resolve_error

datatype graph_invalid =
    GraphFormatInvalid | GraphLimits | GraphNodeInvalid | GraphRootMissing | GraphEdgeInvalid
  | GrantInvalid | AuthorityFormatInvalid | AuthorityLimit

definition validate_node ::
    "('v, 'r) package_env \<Rightarrow> string set \<Rightarrow> graph_node \<Rightarrow> graph_invalid + string set" where
  "validate_node env seen n =
     and_then (fail_if (\<not> is_alias (gn_instance n) \<or> \<not> is_cartridge_id (gn_cartridge_id n) \<or>
         \<not> is_bounded_text (gn_version n) 64 False \<or> \<not> version_ok env (gn_version n) \<or> gn_instance n \<in> seen)
       GraphNodeInvalid) (\<lambda>_. Inr (insert (gn_instance n) seen))"

definition interfaces_invalid :: "('v, 'r) package_env \<Rightarrow> string list \<Rightarrow> bool" where
  "interfaces_invalid env is \<longleftrightarrow> is = [] \<or> length is > 64 \<or>
     list_ex (\<lambda>i. \<not> is_bounded_text i 256 False \<or> isl (validate_interface (version_ok env) i)) is"

definition validate_graph_edge :: "('v, 'r) package_env \<Rightarrow> string set \<Rightarrow> graph_edge \<Rightarrow> graph_invalid + unit" where
  "validate_graph_edge env seen e =
     fail_if (ge_caller e \<notin> seen \<or> ge_provider e \<notin> seen \<or> \<not> is_alias (ge_alias e) \<or>
       interfaces_invalid env (ge_interfaces e)) GraphEdgeInvalid"

definition validate_graph :: "('v, 'r) package_env \<Rightarrow> approved_graph \<Rightarrow> graph_invalid + unit" where
  "validate_graph env g =
     and_then (fail_if (ag_format_version g \<noteq> APPROVED_GRAPH_FORMAT_VERSION) GraphFormatInvalid) (\<lambda>_.
     and_then (fail_if (length (ag_nodes g) > MAX_GRAPH_NODES \<or> length (ag_edges g) > MAX_GRAPH_EDGES) GraphLimits) (\<lambda>_.
     and_then (try_fold (validate_node env) {} (ag_nodes g)) (\<lambda>seen.
     and_then (fail_if (ag_root_instance g \<notin> seen) GraphRootMissing) (\<lambda>_.
     try_fold (\<lambda>_. validate_graph_edge env seen) () (ag_edges g)))))"

text \<open>The variables \<^verbatim>\<open>expand_graph\<close> is passed by mutable reference.\<close>

record graph_state =
  gs_nodes :: "graph_node list"
  gs_edges :: "graph_edge list"
  gs_visited :: "(string \<times> string, string) btree"
  gs_path :: "(string \<times> string) set"
  gs_counts :: "(string, nat) btree"
  gs_unavailable :: "unavailable_dependency list"

definition dashed :: "string \<Rightarrow> string" where
  "dashed s = map (\<lambda>c. if c = CHR ''.'' then CHR ''-'' else c) s"

definition next_instance_id :: "string \<Rightarrow> (string, nat) btree \<Rightarrow> string \<times> (string, nat) btree" where
  "next_instance_id cid counts =
     (let count = unwrap_or (bt_get counts cid) 0 + 1 in
      (if count = 1 then dashed cid else dashed cid @ ''-'' @ decimal count, bt_insert cid count counts))"

definition instance_name :: "('v, 'r) package_env \<Rightarrow> string \<Rightarrow> string \<Rightarrow> string" where
  "instance_name env version base =
     (let major = (case version_parse env version of None \<Rightarrow> 0 | Some v \<Rightarrow> version_major env v) in
      if major > 0 then base @ ''-v'' @ decimal major else base)"

definition add_node ::
    "('v, 'r) package_env \<Rightarrow> resolved_dependency \<Rightarrow> package_manifest \<Rightarrow> string \<Rightarrow> (string, nat) btree \<Rightarrow> graph_state \<Rightarrow> graph_state" where
  "add_node env d m inst counts st =
     st\<lparr>gs_nodes := gs_nodes st @ [\<lparr>gn_instance = inst, gn_cartridge_id = rd_cartridge d, gn_version = rd_version d,
          gn_interfaces = external_interfaces m\<rparr>],
        gs_visited := bt_insert (dependency_key d) inst (gs_visited st),
        gs_path := insert (dependency_key d) (gs_path st), gs_counts := counts\<rparr>"

definition add_edge :: "string \<Rightarrow> resolved_dependency \<Rightarrow> string \<Rightarrow> graph_state \<Rightarrow> graph_state" where
  "add_edge parent d inst st =
     st\<lparr>gs_edges := gs_edges st @ [\<lparr>ge_caller = parent, ge_provider = inst, ge_alias = rd_alias d,
          ge_interfaces = rd_interfaces d\<rparr>]\<rparr>"

definition leave_path :: "resolved_dependency \<Rightarrow> graph_state \<Rightarrow> graph_state" where
  "leave_path d st = st\<lparr>gs_path := gs_path st - {dependency_key d}\<rparr>"

definition note_unavailable :: "resolution_plan \<Rightarrow> graph_state \<Rightarrow> graph_state" where
  "note_unavailable plan st = st\<lparr>gs_unavailable := gs_unavailable st @ rp_unavailable_optional plan\<rparr>"

definition find_manifest :: "package_manifest list \<Rightarrow> string \<times> string \<Rightarrow> package_manifest option" where
  "find_manifest candidates key = find (\<lambda>c. manifest_key c = key) candidates"

definition new_instance :: "('v, 'r) package_env \<Rightarrow> resolved_dependency \<Rightarrow> graph_state \<Rightarrow> string \<times> (string, nat) btree" where
  "new_instance env d st =
     (case next_instance_id (rd_cartridge d) (gs_counts st) of (base, counts) \<Rightarrow>
      (instance_name env (rd_version d) base, counts))"

definition vanished :: "resolved_dependency \<Rightarrow> graph_error" where
  "vanished d = GraphResolution (RequiredUnavailable (rd_alias d) (rd_cartridge d) (rd_version d)
     ''provider vanished during graph expansion'')"

text \<open>The body of \<^verbatim>\<open>expand_graph\<close> and its loop over the resolved dependencies, which recurses into a provider that is
  not in the graph yet.\<close>

function expand_graph ::
    "('v :: linorder, 'r) package_env \<Rightarrow> package_manifest list \<Rightarrow> package_manifest \<Rightarrow> string \<Rightarrow> nat \<Rightarrow> graph_state
      \<Rightarrow> (graph_error + graph_state) option"
  and expand_dependencies ::
    "('v :: linorder, 'r) package_env \<Rightarrow> package_manifest list \<Rightarrow> string \<Rightarrow> nat \<Rightarrow> resolved_dependency list \<Rightarrow> graph_state
      \<Rightarrow> (graph_error + graph_state) option" where
  "expand_graph env candidates m parent depth st =
     (if depth > MAX_TRANSITIVE_DEPTH then Some (Inl DepthExceeded)
      else if length (gs_nodes st) > MAX_GRAPH_NODES then Some (Inl NodeLimit)
      else
        run_then (run_map_err GraphResolution (resolve_dependencies env m candidates)) (\<lambda>plan.
        expand_dependencies env candidates parent depth (rp_resolved plan) (note_unavailable plan st)))"
| "expand_dependencies env candidates parent depth [] st = Some (Inr st)"
| "expand_dependencies env candidates parent depth (d # ds) st =
     (if dependency_key d \<in> gs_path st then Some (Inl (GraphCycle parent (rd_alias d)))
      else
        (case bt_get (gs_visited st) (dependency_key d) of
           Some inst \<Rightarrow> expand_dependencies env candidates parent depth ds (add_edge parent d inst st)
         | None \<Rightarrow>
             (case new_instance env d st of (inst, counts) \<Rightarrow>
              case find_manifest candidates (dependency_key d) of
                None \<Rightarrow> Some (Inl (vanished d))
              | Some m \<Rightarrow>
                  run_then (expand_graph env candidates m inst (depth + 1) (add_node env d m inst counts st)) (\<lambda>st'.
                  expand_dependencies env candidates parent depth ds (add_edge parent d inst (leave_path d st'))))))"
  by pat_completeness auto
termination
  by (relation "inv_image (less_than <*lex*> less_than)
      (\<lambda>x. case x of Inl (env, candidates, m, parent, depth, st) \<Rightarrow> (2 * (65 - depth), 0)
         | Inr (env, candidates, parent, depth, ds, st) \<Rightarrow> (2 * (64 - depth), length ds))")
    (auto simp: MAX_TRANSITIVE_DEPTH_def)

declare expand_graph.simps [simp del]

definition root_state :: "package_manifest \<Rightarrow> graph_state" where
  "root_state root = \<lparr>gs_nodes = [\<lparr>gn_instance = ''root'', gn_cartridge_id = manifest_id root, gn_version = manifest_version root,
       gn_interfaces = external_interfaces root\<rparr>],
     gs_edges = [], gs_visited = [(manifest_key root, ''root'')], gs_path = {}, gs_counts = [], gs_unavailable = []\<rparr>"

definition build_approved_graph ::
    "('v :: linorder, 'r) package_env \<Rightarrow> package_manifest \<Rightarrow> package_manifest list \<Rightarrow> (graph_error + approved_graph) option" where
  "build_approved_graph env root candidates =
     run_then (expand_graph env candidates root ''root'' 0 (root_state root)) (\<lambda>st.
     Some (Inr \<lparr>ag_format_version = APPROVED_GRAPH_FORMAT_VERSION, ag_root_instance = ''root'', ag_nodes = gs_nodes st,
       ag_edges = gs_edges st, ag_unavailable_optional = gs_unavailable st\<rparr>))"

section \<open>Grants\<close>

datatype edge_kind = SessionEdge | PersistentEdge | PolicyProvided | RevokedEdge

record relationship_grant =
  gr_caller :: string
  gr_provider :: string
  gr_interfaces :: "string list"
  gr_scope :: string
  gr_kind :: edge_kind
  gr_expiry :: "nat option"
  gr_approval_generation :: nat

record relationship_authority =
  ra_format_version :: nat
  ra_grants :: "relationship_grant list"

definition validate_grant :: "('v, 'r) package_env \<Rightarrow> relationship_grant \<Rightarrow> graph_invalid + unit" where
  "validate_grant env g =
     fail_if (\<not> is_alias (gr_caller g) \<or> \<not> is_alias (gr_provider g) \<or> interfaces_invalid env (gr_interfaces g) \<or>
       \<not> is_bounded_text (gr_scope g) 256 False) GrantInvalid"

definition validate_authority :: "('v, 'r) package_env \<Rightarrow> relationship_authority \<Rightarrow> graph_invalid + unit" where
  "validate_authority env a =
     and_then (fail_if (ra_format_version a \<noteq> APPROVED_GRAPH_FORMAT_VERSION) AuthorityFormatInvalid) (\<lambda>_.
     and_then (fail_if (length (ra_grants a) > MAX_GRAPH_EDGES) AuthorityLimit) (\<lambda>_.
     try_fold (\<lambda>_. validate_grant env) () (ra_grants a)))"

definition grant_of :: "nat \<Rightarrow> graph_edge \<Rightarrow> relationship_grant" where
  "grant_of generation e = \<lparr>gr_caller = ge_caller e, gr_provider = ge_provider e, gr_interfaces = ge_interfaces e,
     gr_scope = ge_alias e, gr_kind = SessionEdge, gr_expiry = None, gr_approval_generation = generation\<rparr>"

definition authority_from_graph ::
    "('v, 'r) package_env \<Rightarrow> approved_graph \<Rightarrow> nat \<Rightarrow> graph_invalid + relationship_authority" where
  "authority_from_graph env g generation =
     (let a = \<lparr>ra_format_version = APPROVED_GRAPH_FORMAT_VERSION, ra_grants = map (grant_of generation) (ag_edges g)\<rparr>
      in and_then (validate_authority env a) (\<lambda>_. Inr a))"

definition active_grants_for_caller :: "relationship_authority \<Rightarrow> string \<Rightarrow> relationship_grant list" where
  "active_grants_for_caller a caller = filter (\<lambda>g. gr_caller g = caller \<and> gr_kind g \<noteq> RevokedEdge) (ra_grants a)"

definition provider_authority_is_isolated :: "relationship_authority \<Rightarrow> bool" where
  "provider_authority_is_isolated a \<longleftrightarrow>
     list_all (\<lambda>g. gr_kind g = RevokedEdge \<or>
       \<not> list_ex (\<lambda>h. gr_provider h = gr_caller g)
         (filter (\<lambda>h. gr_caller h = gr_provider g \<and> gr_kind h \<noteq> RevokedEdge) (ra_grants a))) (ra_grants a)"

section \<open>Resolution is exact\<close>

definition eligible :: "('v, 'r) package_env \<Rightarrow> cartridge_dependency \<Rightarrow> package_manifest \<Rightarrow> bool" where
  "eligible env d c \<longleftrightarrow> manifest_id c = cd_cartridge d \<and> provides_all d c \<and>
     (\<exists>req v. req_parse env (cd_version d) = Some req \<and> version_parse env (manifest_version c) = Some v \<and> req_matches env req v)"

definition selected :: "('v :: linorder, 'r) package_env \<Rightarrow> package_manifest list \<Rightarrow> cartridge_dependency \<Rightarrow> package_manifest \<Rightarrow> bool" where
  "selected env candidates d c \<longleftrightarrow> c \<in> set candidates \<and> eligible env d c \<and>
     (\<forall>c' \<in> set candidates. eligible env d c' \<longrightarrow>
        the (version_parse env (manifest_version c')) \<le> the (version_parse env (manifest_version c)))"

text \<open>Printing a parsed version gives the text it was parsed from.\<close>

definition semver_ok :: "('v, 'r) package_env \<Rightarrow> bool" where
  "semver_ok env \<longleftrightarrow> (\<forall>s v. version_parse env s = Some v \<longrightarrow> version_display env v = s)"

lemma matching_version_Some:
  "matching_version env req d c = Some (v, c') \<longleftrightarrow>
     c' = c \<and> manifest_id c = cd_cartridge d \<and> version_parse env (manifest_version c) = Some v \<and> req_matches env req v"
  by (auto simp: matching_version_def split: option.splits)

lemma set_sort_descending [simp]: "set (sort_descending xs) = set xs"
  by (simp add: sort_descending_def)

lemma sorted_sort_descending: "sorted_wrt (\<lambda>x y. fst y \<le> fst x) (sort_descending xs)"
proof -
  have "sorted_wrt (\<lambda>x y. fst x \<le> fst y) (sort_key fst (rev xs))"
    using sorted_sort_key [of fst "rev xs"] by (simp add: sorted_map)
  then show ?thesis by (simp add: sort_descending_def sorted_wrt_rev)
qed

lemma find_sorted:
  "sorted_wrt (\<lambda>x y. g y \<le> (g x :: 'v :: linorder)) xs \<Longrightarrow> find P xs = Some x \<Longrightarrow>
     x \<in> set xs \<and> P x \<and> (\<forall>y \<in> set xs. P y \<longrightarrow> g y \<le> g x)"
  by (induction xs) (auto split: if_splits)

lemma set_map_filter: "set (List.map_filter f xs) = {y. \<exists>x \<in> set xs. f x = Some y}"
  by (force simp: List.map_filter_def)

lemma select_provider_Some:
  assumes "req_parse env (cd_version d) = Some req" and "select_provider env req d candidates = Some (v, c)"
  shows "selected env candidates d c \<and> version_parse env (manifest_version c) = Some v"
proof -
  note f = find_sorted [OF sorted_sort_descending assms(2) [unfolded select_provider_def]]
  have c: "c \<in> set candidates" "manifest_id c = cd_cartridge d" "version_parse env (manifest_version c) = Some v"
    "req_matches env req v" "provides_all d c"
    using f by (auto simp: set_map_filter matching_version_Some)
  have "v' \<le> v" if "c' \<in> set candidates" "eligible env d c'" "version_parse env (manifest_version c') = Some v'" for c' v'
  proof -
    have "(v', c') \<in> set (List.map_filter (matching_version env req d) candidates)" "provides_all d c'"
      using that assms(1) by (auto simp: set_map_filter matching_version_Some eligible_def)
    with f show ?thesis by fastforce
  qed
  with c assms(1) show ?thesis by (auto simp: selected_def eligible_def)
qed

lemma select_provider_None:
  assumes "req_parse env (cd_version d) = Some req"
  shows "select_provider env req d candidates = None \<longleftrightarrow> (\<forall>c \<in> set candidates. \<not> eligible env d c)"
  using assms by (auto simp: select_provider_def find_None_iff set_map_filter matching_version_Some eligible_def)

definition resolvable :: "('v, 'r) package_env \<Rightarrow> package_manifest list \<Rightarrow> cartridge_dependency \<Rightarrow> bool" where
  "resolvable env candidates d \<longleftrightarrow> (\<exists>c \<in> set candidates. eligible env d c)"

text \<open>What one step adds to the plan.\<close>

lemma resolve_step_cases:
  assumes "semver_ok env" and "req_parse env (cd_version d) \<noteq> None"
  obtains (found) c where "resolvable env candidates d" "selected env candidates d c"
      "resolve_step env candidates plan d = Inr (plan\<lparr>rp_resolved := rp_resolved plan @ [\<lparr>rd_alias = cd_alias d,
         rd_cartridge = cd_cartridge d, rd_version = manifest_version c, rd_interfaces = cd_interfaces d\<rparr>]\<rparr>)"
  | (unavailable) reason where "\<not> resolvable env candidates d" "cd_optional d"
      "resolve_step env candidates plan d = Inr (plan\<lparr>rp_unavailable_optional := rp_unavailable_optional plan @
         [\<lparr>ud_alias = cd_alias d, ud_cartridge = cd_cartridge d, ud_reason = reason\<rparr>]\<rparr>)"
  | (failed) e where "\<not> resolvable env candidates d" "\<not> cd_optional d" "resolve_step env candidates plan d = Inl e"
proof -
  obtain req where req: "req_parse env (cd_version d) = Some req" using assms(2) by blast
  show thesis
  proof (cases "select_provider env req d candidates")
    case None
    then have "\<not> resolvable env candidates d" using select_provider_None [OF req] by (auto simp: resolvable_def)
    with None req unavailable failed show ?thesis by (cases "cd_optional d") (auto simp: resolve_step_def)
  next
    case (Some p)
    obtain v c where p: "p = (v, c)" by (cases p)
    note s = select_provider_Some [OF req Some [unfolded p]]
    then have "resolvable env candidates d" by (auto simp: resolvable_def selected_def)
    moreover have "version_display env v = manifest_version c" using s assms(1) by (simp add: semver_ok_def)
    ultimately show ?thesis
      using found [of c] s Some p req by (simp add: resolve_step_def resolved_entry_def)
  qed
qed

lemma resolve_fold:
  assumes "semver_ok env" and "\<forall>d \<in> set deps. req_parse env (cd_version d) \<noteq> None"
  shows "((\<exists>plan'. try_fold (resolve_step env candidates) plan deps = Inr plan') \<longleftrightarrow>
      (\<forall>d \<in> set deps. cd_optional d \<or> resolvable env candidates d)) \<and>
    (\<forall>plan'. try_fold (resolve_step env candidates) plan deps = Inr plan' \<longrightarrow>
      map rd_alias (rp_resolved plan') = map rd_alias (rp_resolved plan) @ map cd_alias (filter (resolvable env candidates) deps) \<and>
      map ud_alias (rp_unavailable_optional plan') =
        map ud_alias (rp_unavailable_optional plan) @ map cd_alias (filter (\<lambda>d. \<not> resolvable env candidates d) deps) \<and>
      (\<forall>r \<in> set (rp_resolved plan'). r \<in> set (rp_resolved plan) \<or>
        (\<exists>d \<in> set deps. \<exists>c. selected env candidates d c \<and> r = \<lparr>rd_alias = cd_alias d, rd_cartridge = cd_cartridge d,
           rd_version = manifest_version c, rd_interfaces = cd_interfaces d\<rparr>)))"
  using assms(2)
proof (induction deps arbitrary: plan)
  case (Cons d deps)
  have p: "req_parse env (cd_version d) \<noteq> None" using Cons.prems by simp
  from assms(1) p show ?case
  proof (cases rule: resolve_step_cases [where plan = plan and candidates = candidates])
    case (found c)
    with Cons show ?thesis by (simp only: try_fold.simps and_then_simps) fastforce
  next
    case (unavailable reason)
    with Cons show ?thesis by (simp only: try_fold.simps and_then_simps) fastforce
  next
    case (failed e)
    then show ?thesis by simp
  qed
qed simp

lemma candidate_fold: "(\<exists>V'. try_fold candidate_step V cs = Inr V') \<longleftrightarrow> distinct (map manifest_key cs) \<and> manifest_key ` set cs \<inter> V = {}"
  by (induction cs arbitrary: V) (auto simp: candidate_step_def result_simps)

lemma run_map_err_Inr [result_simps, simp]: "run_map_err f m = Some (Inr x) \<longleftrightarrow> m = Some (Inr x)"
  by (auto simp: run_map_err_def)

lemma run_map_err_None [simp]: "run_map_err f m = None \<longleftrightarrow> m = None"
  by (simp add: run_map_err_def)

definition candidates_ok :: "('v, 'r) package_env \<Rightarrow> package_manifest list \<Rightarrow> bool" where
  "candidates_ok env candidates \<longleftrightarrow> length candidates \<le> MAX_RESOLUTION_CANDIDATES \<and> distinct (map manifest_key candidates) \<and>
     (\<forall>c \<in> set candidates. validate_package env c = Some (Inr ()))"

lemma resolve_dependencies_Inr:
  "resolve_dependencies env root candidates = Some (Inr plan) \<longleftrightarrow>
     candidates_ok env candidates \<and> validate_package env root = Some (Inr ()) \<and>
     try_fold (resolve_step env candidates) \<lparr>rp_resolved = [], rp_unavailable_optional = []\<rparr> (pk_dependencies root) = Inr plan"
  using candidate_fold [of "{}" candidates]
  by (auto simp: resolve_dependencies_def candidates_ok_def result_simps run_fold_unit not_less)

lemma validated_dependencies:
  assumes "validate_package env m = Some (Inr ())"
  shows "\<forall>d \<in> set (pk_dependencies m). req_parse env (cd_version d) \<noteq> None \<and> cd_cartridge d \<noteq> manifest_id m"
proof -
  have "try_fold (dependency_step env own) acc ds = Inr acc' \<Longrightarrow>
      \<forall>d \<in> set ds. req_parse env (cd_version d) \<noteq> None \<and> cd_cartridge d \<noteq> own" for own acc acc' ds
    by (induction ds arbitrary: acc) (fastforce simp: result_simps dependency_step_def split: prod.splits)+
  with assms show ?thesis by (auto simp: validate_package_def validate_relationships_def result_simps)
qed

text \<open>C14: resolution is exact.  For accepted manifests it succeeds exactly when every dependency that is not optional
  has an eligible candidate: one with its identifier, a version in its range and all its interfaces exported.
  The plan then lists, in the order of the manifest, each dependency that has one, with the version of an
  eligible candidate that no eligible candidate exceeds, and the remaining ones as unavailable.\<close>

theorem resolution_exact:
  assumes "semver_ok env" and "candidates_ok env candidates" and "validate_package env root = Some (Inr ())"
  shows "((\<exists>plan. resolve_dependencies env root candidates = Some (Inr plan)) \<longleftrightarrow>
      (\<forall>d \<in> set (pk_dependencies root). cd_optional d \<or> resolvable env candidates d)) \<and>
    (\<forall>plan. resolve_dependencies env root candidates = Some (Inr plan) \<longrightarrow>
      map rd_alias (rp_resolved plan) = map cd_alias (filter (resolvable env candidates) (pk_dependencies root)) \<and>
      map ud_alias (rp_unavailable_optional plan) =
        map cd_alias (filter (\<lambda>d. \<not> resolvable env candidates d) (pk_dependencies root)) \<and>
      (\<forall>r \<in> set (rp_resolved plan). \<exists>d \<in> set (pk_dependencies root). \<exists>c. selected env candidates d c \<and>
         r = \<lparr>rd_alias = cd_alias d, rd_cartridge = cd_cartridge d, rd_version = manifest_version c,
              rd_interfaces = cd_interfaces d\<rparr>))"
proof -
  have deps: "\<forall>d \<in> set (pk_dependencies root). req_parse env (cd_version d) \<noteq> None"
    using validated_dependencies [OF assms(3)] by blast
  note f = resolve_fold [OF assms(1) deps, of candidates "\<lparr>rp_resolved = [], rp_unavailable_optional = []\<rparr>"]
  show ?thesis using f by (simp add: resolve_dependencies_Inr assms(2,3))
qed

section \<open>Building a graph returns\<close>

lemma resolve_dependencies_returns: "resolve_dependencies env root candidates \<noteq> None"
  unfolding resolve_dependencies_def
  by (intro run_then_returns run_fold_returns) (simp_all add: validate_package_returns)

lemma run_then_None: "(\<exists>y. run_then m f = Some y) \<longleftrightarrow> m \<noteq> None \<and> (\<forall>x. m = Some (Inr x) \<longrightarrow> f x \<noteq> None)"
  by (auto simp: run_then_def split: option.split sum.split)

lemma expand_returns:
  "expand_graph env candidates m parent depth st \<noteq> None"
  "expand_dependencies env candidates parent depth ds st \<noteq> None"
proof (induction env candidates m parent depth st and env candidates parent depth ds st
    rule: expand_graph_expand_dependencies.induct)
  case (1 env candidates m parent depth st)
  have "run_then (run_map_err GraphResolution (resolve_dependencies env m candidates)) (\<lambda>plan.
      expand_dependencies env candidates parent depth (rp_resolved plan) (note_unavailable plan st)) \<noteq> None"
    if "\<not> depth > MAX_TRANSITIVE_DEPTH" "\<not> length (gs_nodes st) > MAX_GRAPH_NODES"
    by (rule run_then_returns) (use 1 [OF that] in \<open>simp_all add: resolve_dependencies_returns\<close>)
  then show ?case by (simp add: expand_graph.simps [of env candidates m parent depth st])
next
  case (3 env candidates parent depth d ds st)
  then show ?case
    by (auto simp: run_then_None split: option.split prod.split simp del: not_None_eq)
qed simp

text \<open>C18: building a graph returns, whatever the manifests: the recursion is bounded by its depth and every
  validation it makes comes to an end.\<close>

theorem approved_graph_returns: "build_approved_graph env root candidates \<noteq> None"
  unfolding build_approved_graph_def by (rule run_then_returns [OF expand_returns(1)]) simp

end
