(* ===== verification/Resolver_Graph.thy ===== *)
theory Resolver_Graph
  imports Resolver
begin

text \<open>
  The transitive graph of instances (\<^verbatim>\<open>build_approved_graph\<close> of \<^verbatim>\<open>crates/cartridge-core/src/resolver.rs\<close>).  A
  successful expansion is described by the inductive relation \<open>grows\<close>, over which the invariants are shown by
  rule induction: below the root an accepted graph has no cycles, and the edges of each node are exactly
  its resolved dependencies.  A cycle through the root and colliding instance names go unnoticed when the
  graph is built.
\<close>

section \<open>How a graph grows\<close>

text \<open>A successful expansion of the dependencies \<open>ds\<close> of the instance \<open>parent\<close>, without the bounds.\<close>

inductive grows ::
    "('v :: linorder, 'r) package_env \<Rightarrow> package_manifest list \<Rightarrow> string \<Rightarrow> resolved_dependency list \<Rightarrow> graph_state \<Rightarrow> graph_state \<Rightarrow> bool"
  for env :: "('v, 'r) package_env" and candidates :: "package_manifest list" where
  grows_done: "grows env candidates parent [] st st"
| grows_visited: "dependency_key d \<notin> gs_path st \<Longrightarrow> bt_get (gs_visited st) (dependency_key d) = Some inst \<Longrightarrow>
    grows env candidates parent ds (add_edge parent d inst st) st' \<Longrightarrow> grows env candidates parent (d # ds) st st'"
| grows_fresh: "dependency_key d \<notin> gs_path st \<Longrightarrow> bt_get (gs_visited st) (dependency_key d) = None \<Longrightarrow>
    find_manifest candidates (dependency_key d) = Some m \<Longrightarrow> resolve_dependencies env m candidates = Some (Inr plan) \<Longrightarrow>
    grows env candidates inst (rp_resolved plan) (note_unavailable plan (add_node env d m inst counts st)) st1 \<Longrightarrow>
    grows env candidates parent ds (add_edge parent d inst (leave_path d st1)) st' \<Longrightarrow>
    grows env candidates parent (d # ds) st st'"

lemma expand_grows:
  "expand_graph env candidates m parent depth st = Some (Inr st') \<Longrightarrow>
     \<exists>plan. resolve_dependencies env m candidates = Some (Inr plan) \<and>
       grows env candidates parent (rp_resolved plan) (note_unavailable plan st) st'"
  "expand_dependencies env candidates parent depth ds st = Some (Inr st') \<Longrightarrow> grows env candidates parent ds st st'"
proof (induction env candidates m parent depth st and env candidates parent depth ds st arbitrary: st' and st'
    rule: expand_graph_expand_dependencies.induct)
  case (1 env candidates m parent depth st)
  then show ?case by (auto simp: expand_graph.simps [of env candidates m] result_simps split: if_splits)
next
  case (2 env candidates parent depth st)
  then show ?case by (simp add: grows_done)
next
  case (3 env candidates parent depth d ds st)
  have k: "dependency_key d \<notin> gs_path st" using "3.prems" by (auto split: if_splits)
  show ?case
  proof (cases "bt_get (gs_visited st) (dependency_key d)")
    case (Some inst)
    with "3.prems" k "3.IH"(3) [OF k Some] show ?thesis by (auto intro: grows_visited)
  next
    case None
    obtain inst counts m st1 where n: "new_instance env d st = (inst, counts)"
      and m: "find_manifest candidates (dependency_key d) = Some m"
      and e: "expand_graph env candidates m inst (depth + 1) (add_node env d m inst counts st) = Some (Inr st1)"
      and r: "expand_dependencies env candidates parent depth ds (add_edge parent d inst (leave_path d st1)) = Some (Inr st')"
      using "3.prems" k None by (auto simp: result_simps split: prod.splits option.splits)
    from "3.IH"(1) [OF k None n [symmetric] m e] "3.IH"(2) [OF k None n [symmetric] m e r] k None m
    show ?thesis by (auto intro: grows_fresh)
  qed
qed

section \<open>What an expansion keeps\<close>

definition node_key :: "graph_node \<Rightarrow> string \<times> string" where
  "node_key n = (gn_cartridge_id n, gn_version n)"

definition instances :: "graph_state \<Rightarrow> string set" where
  "instances st = gn_instance ` set (gs_nodes st)"

definition extends :: "graph_state \<Rightarrow> graph_state \<Rightarrow> bool" where
  "extends st st' \<longleftrightarrow> gs_path st' = gs_path st \<and> (\<exists>more. gs_nodes st' = gs_nodes st @ more) \<and>
     (\<forall>k inst. bt_get (gs_visited st) k = Some inst \<longrightarrow> bt_get (gs_visited st') k = Some inst)"

text \<open>The table of visited packages lists the nodes.\<close>

definition indexed :: "graph_state \<Rightarrow> bool" where
  "indexed st \<longleftrightarrow> bt_ok (gs_visited st) \<and>
     (\<forall>k inst. bt_get (gs_visited st) k = Some inst \<longleftrightarrow> (\<exists>n \<in> set (gs_nodes st). node_key n = k \<and> gn_instance n = inst)) \<and>
     (\<forall>e \<in> set (gs_edges st). ge_caller e \<in> instances st \<and> ge_provider e \<in> instances st)"

lemmas graph_updates = add_edge_def add_node_def leave_path_def note_unavailable_def

lemma extends_refl: "extends st st"
  by (simp add: extends_def)

lemma extends_trans: "extends a b \<Longrightarrow> extends b c \<Longrightarrow> extends a c"
  unfolding extends_def by force

lemma extends_visited: "extends a b \<Longrightarrow> bt_get (gs_visited a) k = Some inst \<Longrightarrow> bt_get (gs_visited b) k = Some inst"
  unfolding extends_def by blast

lemma extends_instances: "extends a b \<Longrightarrow> instances a \<subseteq> instances b"
  by (auto simp: extends_def instances_def)

lemma visited_instance: "indexed st \<Longrightarrow> bt_get (gs_visited st) k = Some inst \<Longrightarrow> inst \<in> instances st"
  by (auto simp: indexed_def instances_def simp del: split_paired_All)

lemma indexed_add_edge:
  "indexed st \<Longrightarrow> parent \<in> instances st \<Longrightarrow> bt_get (gs_visited st) (dependency_key d) = Some inst \<Longrightarrow> indexed (add_edge parent d inst st)"
  using visited_instance [of st "dependency_key d" inst] by (simp add: indexed_def add_edge_def instances_def)

lemma unvisited_key: "indexed st \<Longrightarrow> bt_get (gs_visited st) k = None \<Longrightarrow> n \<in> set (gs_nodes st) \<Longrightarrow> node_key n \<noteq> k"
  unfolding indexed_def by (metis option.distinct(1))

lemma indexed_add_node:
  assumes "indexed st" and "bt_get (gs_visited st) (dependency_key d) = None"
  shows "indexed (note_unavailable plan (add_node env d m inst counts st))"
proof -
  have k: "node_key \<lparr>gn_instance = inst, gn_cartridge_id = rd_cartridge d, gn_version = rd_version d,
      gn_interfaces = external_interfaces m\<rparr> = dependency_key d"
    by (simp add: node_key_def dependency_key_def)
  have "bt_get (bt_insert (dependency_key d) inst (gs_visited st)) k' =
      (if k' = dependency_key d then Some inst else bt_get (gs_visited st) k')" for k'
    using assms(1) by (simp add: indexed_def)
  with assms(1) k unvisited_key [OF assms] show ?thesis
    by (auto simp: indexed_def graph_updates instances_def simp del: split_paired_All)
qed

lemma indexed_leave_path: "indexed (leave_path d st) \<longleftrightarrow> indexed st"
  by (simp add: indexed_def leave_path_def instances_def)

lemma extends_fresh:
  assumes "indexed st" and "dependency_key d \<notin> gs_path st" and "bt_get (gs_visited st) (dependency_key d) = None"
    and e: "extends (note_unavailable plan (add_node env d m inst counts st)) st1"
  shows "extends st (leave_path d st1)"
  unfolding extends_def
proof (intro conjI allI impI)
  show "gs_path (leave_path d st1) = gs_path st" "\<exists>more. gs_nodes (leave_path d st1) = gs_nodes st @ more"
    using e assms(2) by (auto simp: extends_def graph_updates)
  fix k i
  assume k: "bt_get (gs_visited st) k = Some i"
  then have "k \<noteq> dependency_key d" using assms(3) by auto
  with k assms(1) have "bt_get (gs_visited (note_unavailable plan (add_node env d m inst counts st))) k = Some i"
    by (simp add: graph_updates indexed_def)
  with e show "bt_get (gs_visited (leave_path d st1)) k = Some i"
    by (auto dest: extends_visited simp: leave_path_def)
qed

lemma fresh_done:
  assumes "indexed st" and "parent \<in> instances st" and "dependency_key d \<notin> gs_path st"
    and "bt_get (gs_visited st) (dependency_key d) = None"
    and e: "extends (note_unavailable plan (add_node env d m inst counts st)) st1" and "indexed st1"
  shows "bt_get (gs_visited st1) (dependency_key d) = Some inst" and "extends st (leave_path d st1)"
    and "indexed (add_edge parent d inst (leave_path d st1))"
    and "parent \<in> instances (add_edge parent d inst (leave_path d st1))"
    and "extends st (add_edge parent d inst (leave_path d st1))"
proof -
  show inst: "bt_get (gs_visited st1) (dependency_key d) = Some inst"
    using extends_visited [OF e] assms(1) by (simp add: graph_updates indexed_def)
  show 2: "extends st (leave_path d st1)" by (rule extends_fresh [OF assms(1,3,4) e])
  have p: "parent \<in> instances (leave_path d st1)" using extends_instances [OF 2] assms(2) by blast
  show "indexed (add_edge parent d inst (leave_path d st1))"
    using assms(6) p inst by (intro indexed_add_edge) (simp_all add: indexed_leave_path, simp add: leave_path_def)
  show "parent \<in> instances (add_edge parent d inst (leave_path d st1))" using p by (simp add: instances_def add_edge_def)
  show "extends st (add_edge parent d inst (leave_path d st1))" using 2 by (simp add: extends_def add_edge_def)
qed

lemma new_node_instance: "inst \<in> instances (note_unavailable plan (add_node env d m inst counts st))"
  by (simp add: instances_def graph_updates)

lemma grows_extends:
  "grows env candidates parent ds st st' \<Longrightarrow> indexed st \<Longrightarrow> parent \<in> instances st \<Longrightarrow> extends st st' \<and> indexed st'"
proof (induction rule: grows.induct)
  case (grows_done parent st)
  then show ?case by (simp add: extends_refl)
next
  case (grows_visited d st inst parent ds st')
  have "extends (add_edge parent d inst st) st' \<and> indexed st'"
    using grows_visited by (intro grows_visited.IH indexed_add_edge) (simp_all add: instances_def add_edge_def)
  then show ?case by (simp add: extends_def add_edge_def)
next
  case (grows_fresh d st m plan inst counts st1 parent ds st')
  have 1: "extends (note_unavailable plan (add_node env d m inst counts st)) st1 \<and> indexed st1"
    using grows_fresh.IH(1) [OF indexed_add_node new_node_instance] grows_fresh.prems(1) grows_fresh.hyps(2) by blast
  note f = fresh_done [OF grows_fresh.prems(1,2) grows_fresh.hyps(1,2) conjunct1 [OF 1] conjunct2 [OF 1]]
  from grows_fresh.IH(2) [OF f(3,4)] f(5) show ?case using extends_trans by blast
qed

section \<open>No cycles below the root\<close>

text \<open>The instances whose dependencies are being expanded, and the edges that do not lead back to the root.\<close>

definition opened :: "graph_state \<Rightarrow> string set" where
  "opened st = {inst. \<exists>k \<in> gs_path st. bt_get (gs_visited st) k = Some inst}"

definition below_root :: "graph_edge list \<Rightarrow> (string \<times> string) set" where
  "below_root es = set (map (\<lambda>e. (ge_caller e, ge_provider e)) (filter (\<lambda>e. ge_provider e \<noteq> ''root'') es))"

definition named_apart :: "graph_state \<Rightarrow> bool" where
  "named_apart st \<longleftrightarrow> distinct (map gn_instance (gs_nodes st))"

definition ordered :: "graph_state \<Rightarrow> bool" where
  "ordered st \<longleftrightarrow> acyclic (below_root (gs_edges st)) \<and> (\<forall>e \<in> set (gs_edges st). ge_provider e \<notin> opened st)"

lemma named_apart_extends: "extends a b \<Longrightarrow> named_apart b \<Longrightarrow> named_apart a"
  by (auto simp: extends_def named_apart_def)

lemma named_apart_key:
  assumes "indexed st" and "named_apart st" and "bt_get (gs_visited st) k = Some inst" and "bt_get (gs_visited st) k' = Some inst"
  shows "k = k'"
proof -
  obtain n n' where "n \<in> set (gs_nodes st)" "node_key n = k" "gn_instance n = inst"
    "n' \<in> set (gs_nodes st)" "node_key n' = k'" "gn_instance n' = inst"
    using assms(1,3,4) unfolding indexed_def by metis
  moreover have "inj_on gn_instance (set (gs_nodes st))" using assms(2) by (simp add: named_apart_def distinct_map)
  ultimately show ?thesis by (metis inj_onD)
qed

lemma not_opened:
  "indexed st \<Longrightarrow> named_apart st \<Longrightarrow> bt_get (gs_visited st) k = Some inst \<Longrightarrow> k \<notin> gs_path st \<Longrightarrow> inst \<notin> opened st"
  unfolding opened_def using named_apart_key by blast

lemma acyclic_add_source:
  assumes "acyclic r" and "a \<noteq> b" and "\<And>c. (c, a) \<notin> r"
  shows "acyclic (insert (a, b) r)"
  using assms by (auto simp: acyclic_insert elim: rtranclE)

lemma ordered_add_edge:
  assumes "ordered st" and "indexed st" and "named_apart st" and "parent = ''root'' \<or> parent \<in> opened st"
    and "bt_get (gs_visited st) (dependency_key d) = Some inst" and "dependency_key d \<notin> gs_path st"
  shows "ordered (add_edge parent d inst st)"
proof -
  have new: "inst \<notin> opened st" using not_opened assms by blast
  have "acyclic (insert (parent, inst) (below_root (gs_edges st)))" if "inst \<noteq> ''root''"
  proof (rule acyclic_add_source)
    show "acyclic (below_root (gs_edges st))" using assms(1) by (simp add: ordered_def)
    show "parent \<noteq> inst" using assms(4) new that by auto
    show "(c, parent) \<notin> below_root (gs_edges st)" for c
      using assms(1,4) by (auto simp: ordered_def below_root_def)
  qed
  moreover have "below_root (gs_edges (add_edge parent d inst st)) =
      (if inst = ''root'' then below_root (gs_edges st) else insert (parent, inst) (below_root (gs_edges st)))"
    by (auto simp: below_root_def add_edge_def)
  moreover have "opened (add_edge parent d inst st) = opened st" by (simp add: opened_def add_edge_def)
  ultimately show ?thesis using assms(1) new by (auto simp: ordered_def add_edge_def)
qed

lemma opened_add_node:
  "indexed st \<Longrightarrow> bt_get (gs_visited st) (dependency_key d) = None \<Longrightarrow>
     opened (note_unavailable plan (add_node env d m inst counts st)) = insert inst (opened st)"
proof -
  assume "indexed st" and none: "bt_get (gs_visited st) (dependency_key d) = None"
  then have "bt_ok (gs_visited st)" by (simp add: indexed_def)
  then have g: "bt_get (bt_insert (dependency_key d) inst (gs_visited st)) k =
      (if k = dependency_key d then Some inst else bt_get (gs_visited st) k)" for k by simp
  have "k \<in> gs_path st \<Longrightarrow> bt_get (gs_visited st) k = Some x \<Longrightarrow> k \<noteq> dependency_key d" for k x using none by auto
  then have "opened st = {x. \<exists>k \<in> gs_path st. k \<noteq> dependency_key d \<and> bt_get (gs_visited st) k = Some x}"
    unfolding opened_def by blast
  then show ?thesis unfolding opened_def [of "note_unavailable plan _"] by (auto simp: graph_updates g)
qed

lemma ordered_add_node:
  assumes "ordered st" and "indexed st" and "bt_get (gs_visited st) (dependency_key d) = None" and "inst \<notin> instances st"
  shows "ordered (note_unavailable plan (add_node env d m inst counts st))"
proof -
  have "gs_edges (note_unavailable plan (add_node env d m inst counts st)) = gs_edges st" by (simp add: graph_updates)
  with assms(1,2,4) opened_add_node [OF assms(2,3), of plan env m inst counts] show ?thesis
    by (auto simp: ordered_def indexed_def simp del: split_paired_All)
qed

lemma ordered_leave_path: "ordered st \<Longrightarrow> ordered (leave_path d st)"
  by (auto simp: ordered_def leave_path_def opened_def)

lemma fresh_name:
  assumes "extends (note_unavailable plan (add_node env d m inst counts st)) st'" and "named_apart st'"
  shows "inst \<notin> instances st"
  using named_apart_extends [OF assms] by (auto simp: named_apart_def graph_updates instances_def)

lemma grows_ordered:
  "grows env candidates parent ds st st' \<Longrightarrow> indexed st \<Longrightarrow> parent \<in> instances st \<Longrightarrow> named_apart st' \<Longrightarrow> ordered st \<Longrightarrow>
     parent = ''root'' \<or> parent \<in> opened st \<Longrightarrow> ordered st'"
proof (induction rule: grows.induct)
  case (grows_visited d st inst parent ds st')
  let ?st0 = "add_edge parent d inst st"
  have st0: "indexed ?st0" using grows_visited.prems grows_visited.hyps by (intro indexed_add_edge)
  have p0: "parent \<in> instances ?st0" "opened ?st0 = opened st"
    using grows_visited.prems(2) by (simp_all add: instances_def opened_def add_edge_def)
  have "extends ?st0 st'" using grows_extends [OF grows_visited.hyps(3) st0 p0(1)] by blast
  from named_apart_extends [OF this grows_visited.prems(3)] have "named_apart st" by (simp add: named_apart_def add_edge_def)
  then have "ordered ?st0" using grows_visited.prems grows_visited.hyps by (intro ordered_add_edge)
  with st0 p0 grows_visited.prems show ?case by (intro grows_visited.IH) simp_all
next
  case (grows_fresh d st m plan inst counts st1 parent ds st')
  let ?st0 = "note_unavailable plan (add_node env d m inst counts st)" and ?st2 = "leave_path d st1"
  have st0: "indexed ?st0" using grows_fresh by (intro indexed_add_node)
  have 1: "extends ?st0 st1" "indexed st1" using grows_extends [OF grows_fresh.hyps(5) st0 new_node_instance] by blast+
  note f = fresh_done [OF grows_fresh.prems(1,2) grows_fresh.hyps(1,2) 1]
  have "extends (add_edge parent d inst ?st2) st'" using grows_extends [OF grows_fresh.hyps(6) f(3,4)] by blast
  from named_apart_extends [OF this grows_fresh.prems(3)] have apart: "named_apart st1" "named_apart ?st2"
    by (simp_all add: named_apart_def add_edge_def leave_path_def)
  have "ordered ?st0"
    by (rule ordered_add_node [OF grows_fresh.prems(4,1) grows_fresh.hyps(2) fresh_name [OF 1(1) apart(1)]])
  moreover have "inst \<in> opened ?st0"
    unfolding opened_add_node [OF grows_fresh.prems(1) grows_fresh.hyps(2)] by simp
  ultimately have "ordered st1" by (intro grows_fresh.IH(1) st0 new_node_instance apart(1)) simp_all
  moreover have open2: "parent = ''root'' \<or> parent \<in> opened ?st2"
    using grows_fresh.prems(5) extends_visited [OF f(2)] f(2) unfolding opened_def extends_def by blast
  ultimately have "ordered (add_edge parent d inst ?st2)"
    using f(1,2) grows_fresh.hyps(1) 1(2)
    by (intro ordered_add_edge ordered_leave_path apart(2)) (auto simp: leave_path_def indexed_leave_path [unfolded leave_path_def])
  moreover have "opened (add_edge parent d inst ?st2) = opened ?st2" by (simp add: opened_def add_edge_def)
  ultimately show ?case using f(3,4) grows_fresh.prems(3) open2 by (intro grows_fresh.IH(2)) simp_all
qed

section \<open>The edges of a node\<close>

definition edges_from :: "string \<Rightarrow> graph_state \<Rightarrow> graph_edge list" where
  "edges_from inst st = filter (\<lambda>e. ge_caller e = inst) (gs_edges st)"

definition edge_for :: "graph_state \<Rightarrow> resolved_dependency \<Rightarrow> graph_edge \<Rightarrow> bool" where
  "edge_for st d e \<longleftrightarrow> ge_alias e = rd_alias d \<and> ge_interfaces e = rd_interfaces d \<and>
     bt_get (gs_visited st) (dependency_key d) = Some (ge_provider e)"

definition complete :: "('v :: linorder, 'r) package_env \<Rightarrow> package_manifest list \<Rightarrow> graph_state \<Rightarrow> graph_node \<Rightarrow> bool" where
  "complete env candidates st n \<longleftrightarrow>
     (\<exists>m plan. find_manifest candidates (node_key n) = Some m \<and> resolve_dependencies env m candidates = Some (Inr plan) \<and>
        list_all2 (edge_for st) (rp_resolved plan) (edges_from (gn_instance n) st))"

lemma edge_for_extends: "extends st st' \<Longrightarrow> list_all2 (edge_for st) ds es \<Longrightarrow> list_all2 (edge_for st') ds es"
  by (erule list_all2_mono) (auto simp: edge_for_def dest: extends_visited)

lemma complete_extends:
  "complete env candidates st n \<Longrightarrow> extends st st' \<Longrightarrow> edges_from (gn_instance n) st' = edges_from (gn_instance n) st \<Longrightarrow>
     complete env candidates st' n"
  unfolding complete_def using edge_for_extends by metis

lemma edges_from_add_edge:
  "edges_from x (add_edge parent d inst st) = edges_from x st @ (if x = parent then [\<lparr>ge_caller = parent, ge_provider = inst,
     ge_alias = rd_alias d, ge_interfaces = rd_interfaces d\<rparr>] else [])"
  by (simp add: edges_from_def add_edge_def)

lemma edges_from_unknown: "indexed st \<Longrightarrow> x \<notin> instances st \<Longrightarrow> edges_from x st = []"
  by (auto simp: edges_from_def indexed_def filter_empty_conv)

text \<open>What the expansion of \<open>ds\<close> adds: the edges of the parent, and nodes with all their edges.\<close>

definition wired ::
    "('v :: linorder, 'r) package_env \<Rightarrow> package_manifest list \<Rightarrow> string \<Rightarrow> resolved_dependency list \<Rightarrow> graph_state \<Rightarrow> graph_state \<Rightarrow> bool" where
  "wired env candidates parent ds st st' \<longleftrightarrow>
     (\<exists>es. edges_from parent st' = edges_from parent st @ es \<and> list_all2 (edge_for st') ds es) \<and>
     (\<forall>x \<in> instances st - {parent}. edges_from x st' = edges_from x st) \<and>
     (\<forall>n \<in> set (drop (length (gs_nodes st)) (gs_nodes st')). complete env candidates st' n)"

lemma wired_add_edge:
  assumes w: "wired env candidates parent ds (add_edge parent d inst st) st'"
    and "extends (add_edge parent d inst st) st'" and "bt_get (gs_visited st) (dependency_key d) = Some inst"
  shows "wired env candidates parent (d # ds) st st'"
proof -
  let ?e = "\<lparr>ge_caller = parent, ge_provider = inst, ge_alias = rd_alias d, ge_interfaces = rd_interfaces d\<rparr>"
  obtain es where es: "edges_from parent st' = edges_from parent st @ ?e # es" "list_all2 (edge_for st') ds es"
    using w by (auto simp: wired_def edges_from_add_edge)
  have "bt_get (gs_visited st') (dependency_key d) = Some inst"
    using extends_visited [OF assms(2)] assms(3) by (simp add: add_edge_def)
  then have "edge_for st' d ?e" by (simp add: edge_for_def)
  with es have "\<exists>es. edges_from parent st' = edges_from parent st @ es \<and> list_all2 (edge_for st') (d # ds) es"
    by (intro exI [of _ "?e # es"]) simp
  with w show ?thesis by (auto simp: wired_def edges_from_add_edge) (auto simp: instances_def add_edge_def)
qed

lemma complete_leave_path: "complete env candidates (leave_path d st) n \<longleftrightarrow> complete env candidates st n"
proof -
  have "edge_for (leave_path d st) = edge_for st" "edges_from x (leave_path d st) = edges_from x st" for x
    by (simp_all add: edge_for_def edges_from_def leave_path_def fun_eq_iff)
  then show ?thesis by (simp add: complete_def)
qed

lemma edges_from_leave_path: "edges_from x (leave_path d st) = edges_from x st"
  by (simp add: edges_from_def leave_path_def)

lemma edges_from_add_node: "edges_from x (note_unavailable plan (add_node env d m inst counts st)) = edges_from x st"
  by (simp add: edges_from_def graph_updates)

text \<open>Nodes that were added keep their edges when the parent gets its own.\<close>

lemma wired_complete:
  assumes "wired env candidates parent ds st st'" and "extends st st'" and "complete env candidates st n"
    and "gn_instance n \<in> instances st" and "gn_instance n \<noteq> parent"
  shows "complete env candidates st' n"
  using assms by (intro complete_extends [OF assms(3,2)]) (auto simp: wired_def)

lemma new_node_complete:
  assumes w: "wired env candidates inst (rp_resolved plan) (note_unavailable plan (add_node env d m inst counts st)) st1"
    and "indexed st" and "inst \<notin> instances st" and "find_manifest candidates (dependency_key d) = Some m"
    and "resolve_dependencies env m candidates = Some (Inr plan)"
  shows "complete env candidates st1 \<lparr>gn_instance = inst, gn_cartridge_id = rd_cartridge d, gn_version = rd_version d,
    gn_interfaces = external_interfaces m\<rparr>"
proof -
  have "list_all2 (edge_for st1) (rp_resolved plan) (edges_from inst st1)"
    using w edges_from_unknown [OF assms(2,3)] by (auto simp: wired_def edges_from_add_node)
  with assms(4,5) show ?thesis by (auto simp: complete_def node_key_def dependency_key_def)
qed

lemma wired_fresh:
  assumes w1: "wired env candidates inst (rp_resolved plan) (note_unavailable plan (add_node env d m inst counts st)) st1"
    and w2: "wired env candidates parent (d # ds) (leave_path d st1) st'"
    and ix: "indexed st" "inst \<notin> instances st" "parent \<in> instances st"
    and m: "find_manifest candidates (dependency_key d) = Some m" "resolve_dependencies env m candidates = Some (Inr plan)"
    and e1: "extends (note_unavailable plan (add_node env d m inst counts st)) st1" and e2: "extends (leave_path d st1) st'"
    and apart: "named_apart st'"
  shows "wired env candidates parent (d # ds) st st'"
proof -
  let ?n = "\<lparr>gn_instance = inst, gn_cartridge_id = rd_cartridge d, gn_version = rd_version d, gn_interfaces = external_interfaces m\<rparr>"
  obtain more1 more2 where nodes1: "gs_nodes st1 = gs_nodes st @ ?n # more1" and nodes2: "gs_nodes st' = gs_nodes st1 @ more2"
    using e1 e2 by (auto simp: extends_def graph_updates)
  have old: "edges_from x st1 = edges_from x st" "x \<in> instances st1" if "x \<in> instances st" for x
  proof -
    have "x \<in> instances (note_unavailable plan (add_node env d m inst counts st)) - {inst}"
      using that ix(2) by (auto simp: instances_def graph_updates)
    with w1 show "edges_from x st1 = edges_from x st" by (simp add: wired_def edges_from_add_node)
    show "x \<in> instances st1" using that nodes1 by (auto simp: instances_def)
  qed
  have new: "complete env candidates st' n" if "n \<in> set (?n # more1)" for n
  proof (rule wired_complete [OF w2 e2])
    have "complete env candidates st1 n"
      using that new_node_complete [OF w1 ix(1,2) m] w1 nodes1 by (auto simp: wired_def graph_updates)
    then show "complete env candidates (leave_path d st1) n" by (simp add: complete_leave_path)
    show "gn_instance n \<in> instances (leave_path d st1)" using that nodes1 by (auto simp: instances_def leave_path_def)
    show "gn_instance n \<noteq> parent"
      using apart ix(3) that unfolding named_apart_def nodes2 nodes1 by (auto simp: instances_def)
  qed
  have "complete env candidates st' n" if "n \<in> set more2" for n
    using w2 that nodes2 by (auto simp: wired_def leave_path_def)
  then have "\<forall>n \<in> set (drop (length (gs_nodes st)) (gs_nodes st')). complete env candidates st' n"
    using new nodes1 nodes2 by auto
  moreover have "edges_from x st' = edges_from x st" if "x \<in> instances st - {parent}" for x
  proof -
    have "x \<in> instances (leave_path d st1) - {parent}" using old(2) that by (auto simp: instances_def leave_path_def)
    then have "edges_from x st' = edges_from x st1" using w2 by (simp add: wired_def edges_from_leave_path)
    with old(1) that show ?thesis by simp
  qed
  moreover have "\<exists>es. edges_from parent st' = edges_from parent st @ es \<and> list_all2 (edge_for st') (d # ds) es"
    using w2 old(1) [OF ix(3)] by (simp add: wired_def edges_from_leave_path)
  ultimately show ?thesis unfolding wired_def by blast
qed

lemma grows_wired:
  "grows env candidates parent ds st st' \<Longrightarrow> indexed st \<Longrightarrow> parent \<in> instances st \<Longrightarrow> named_apart st' \<Longrightarrow>
     wired env candidates parent ds st st'"
proof (induction rule: grows.induct)
  case (grows_done parent st)
  then show ?case by (simp add: wired_def)
next
  case (grows_visited d st inst parent ds st')
  have st0: "indexed (add_edge parent d inst st)" "parent \<in> instances (add_edge parent d inst st)"
    using indexed_add_edge [OF grows_visited.prems(1,2) grows_visited.hyps(2)] grows_visited.prems(2)
    by (simp_all add: instances_def add_edge_def)
  then have "extends (add_edge parent d inst st) st'" using grows_extends [OF grows_visited.hyps(3)] by blast
  then show ?case by (rule wired_add_edge [OF grows_visited.IH [OF st0 grows_visited.prems(3)] _ grows_visited.hyps(2)])
next
  case (grows_fresh d st m plan inst counts st1 parent ds st')
  let ?st0 = "note_unavailable plan (add_node env d m inst counts st)" and ?st2 = "leave_path d st1"
  have st0: "indexed ?st0" using grows_fresh by (intro indexed_add_node)
  have 1: "extends ?st0 st1" "indexed st1" using grows_extends [OF grows_fresh.hyps(5) st0 new_node_instance] by blast+
  note f = fresh_done [OF grows_fresh.prems(1,2) grows_fresh.hyps(1,2) 1]
  have e: "extends (add_edge parent d inst ?st2) st'" using grows_extends [OF grows_fresh.hyps(6) f(3,4)] by blast
  from named_apart_extends [OF this grows_fresh.prems(3)] have apart: "named_apart st1"
    by (simp add: named_apart_def add_edge_def leave_path_def)
  have w2: "wired env candidates parent (d # ds) ?st2 st'"
    using f(1) by (intro wired_add_edge [OF grows_fresh.IH(2) [OF f(3,4) grows_fresh.prems(3)] e]) (simp add: leave_path_def)
  from e have "extends ?st2 st'" by (simp add: extends_def add_edge_def)
  then show ?case
    by (rule wired_fresh [OF grows_fresh.IH(1) [OF st0 new_node_instance apart] w2 grows_fresh.prems(1)
        fresh_name [OF 1(1) apart] grows_fresh.prems(2) grows_fresh.hyps(3,4) 1(1) _ grows_fresh.prems(3)])
qed

section \<open>Accepted graphs\<close>

lemma build_grows:
  assumes "build_approved_graph env root candidates = Some (Inr g)"
  shows "\<exists>plan st. resolve_dependencies env root candidates = Some (Inr plan) \<and>
    grows env candidates ''root'' (rp_resolved plan) (note_unavailable plan (root_state root)) st \<and>
    ag_nodes g = gs_nodes st \<and> ag_edges g = gs_edges st \<and> ag_root_instance g = ''root''"
  using assms expand_grows(1) by (fastforce simp: build_approved_graph_def result_simps)

lemma root_state_ok:
  "indexed (note_unavailable plan (root_state root))" "''root'' \<in> instances (note_unavailable plan (root_state root))"
  "ordered (note_unavailable plan (root_state root))" "edges_from x (note_unavailable plan (root_state root)) = []"
  "gs_nodes (note_unavailable plan (root_state root)) = gs_nodes (root_state root)"
  by (auto simp: indexed_def ordered_def note_unavailable_def root_state_def instances_def node_key_def manifest_key_def
      bt_ok_def bt_get_def below_root_def edges_from_def acyclic_def)

lemma validated_nodes:
  "try_fold (validate_node env) seen ns = Inr seen' \<Longrightarrow> distinct (map gn_instance ns) \<and> gn_instance ` set ns \<inter> seen = {}"
proof (induction ns arbitrary: seen)
  case (Cons n ns)
  have "gn_instance n \<notin> seen" "try_fold (validate_node env) (insert (gn_instance n) seen) ns = Inr seen'"
    using Cons.prems unfolding try_fold.simps and_then_Inr by (auto simp: validate_node_def [of env seen n] result_simps)
  with Cons.IH show ?case by auto
qed simp

definition node_wired :: "('v :: linorder, 'r) package_env \<Rightarrow> package_manifest list \<Rightarrow> approved_graph \<Rightarrow> package_manifest \<Rightarrow> string \<Rightarrow> bool" where
  "node_wired env candidates g m inst \<longleftrightarrow>
     (\<exists>plan. resolve_dependencies env m candidates = Some (Inr plan) \<and>
        list_all2 (\<lambda>d e. ge_alias e = rd_alias d \<and> ge_interfaces e = rd_interfaces d \<and>
          (\<exists>n \<in> set (ag_nodes g). gn_instance n = ge_provider e \<and> node_key n = dependency_key d))
        (rp_resolved plan) (filter (\<lambda>e. ge_caller e = inst) (ag_edges g)))"

lemma edge_for_node:
  "indexed st \<Longrightarrow> edge_for st d e \<Longrightarrow> ge_alias e = rd_alias d \<and> ge_interfaces e = rd_interfaces d \<and>
     (\<exists>n \<in> set (gs_nodes st). gn_instance n = ge_provider e \<and> node_key n = dependency_key d)"
  unfolding edge_for_def indexed_def by blast

text \<open>C13: a graph that was built and passes validation is complete and has no cycles below its root.  The edges of
  the root, and of every other node, are its resolved dependencies in order, each leading to the node of the
  selected package; and no chain of edges returns to where it started without passing through the root.\<close>

theorem approved_graph_sound:
  assumes "build_approved_graph env root candidates = Some (Inr g)" and "validate_graph env g = Inr ()"
  shows "node_wired env candidates g root ''root'' \<and>
    (\<forall>n \<in> set (tl (ag_nodes g)). \<exists>m. find_manifest candidates (node_key n) = Some m \<and> node_wired env candidates g m (gn_instance n)) \<and>
    acyclic (below_root (ag_edges g))"
proof -
  obtain plan st where r: "resolve_dependencies env root candidates = Some (Inr plan)"
    and gr: "grows env candidates ''root'' (rp_resolved plan) (note_unavailable plan (root_state root)) st"
    and g: "ag_nodes g = gs_nodes st" "ag_edges g = gs_edges st"
    using build_grows [OF assms(1)] by blast
  have apart: "named_apart st"
    using assms(2) g by (auto simp: validate_graph_def result_simps named_apart_def dest: validated_nodes)
  have ix: "extends (note_unavailable plan (root_state root)) st" "indexed st"
    using grows_extends [OF gr root_state_ok(1,2)] by blast+
  have w: "wired env candidates ''root'' (rp_resolved plan) (note_unavailable plan (root_state root)) st"
    by (rule grows_wired [OF gr root_state_ok(1,2) apart])
  have acyclic: "acyclic (below_root (ag_edges g))"
    using grows_ordered [OF gr root_state_ok(1,2) apart root_state_ok(3)] g by (simp add: ordered_def)
  have nw: "node_wired env candidates g m inst"
    if "resolve_dependencies env m candidates = Some (Inr p)" "list_all2 (edge_for st) (rp_resolved p) (edges_from inst st)" for m inst p
    using that list_all2_mono [OF that(2) edge_for_node [OF ix(2)]] by (auto simp: node_wired_def g edges_from_def)
  have "tl (gs_nodes st) = drop (length (gs_nodes (root_state root))) (gs_nodes st)" by (simp add: root_state_def drop_Suc)
  then have "\<forall>n \<in> set (tl (ag_nodes g)). complete env candidates st n"
    using w g root_state_ok(5) by (simp add: wired_def)
  with nw have "\<forall>n \<in> set (tl (ag_nodes g)). \<exists>m. find_manifest candidates (node_key n) = Some m \<and> node_wired env candidates g m (gn_instance n)"
    unfolding complete_def by blast
  moreover have "node_wired env candidates g root ''root''"
    using w nw [OF r] root_state_ok(4) by (simp add: wired_def)
  ultimately show ?thesis using acyclic by blast
qed

section \<open>Grants of a graph\<close>

lemma authority_from_graph_Inr:
  "authority_from_graph env g generation = Inr a \<Longrightarrow> ra_grants a = map (grant_of generation) (ag_edges g)"
  by (auto simp: authority_from_graph_def Let_def result_simps)

lemma validate_graph_edges:
  assumes "validate_graph env g = Inr ()"
  shows "length (ag_edges g) \<le> MAX_GRAPH_EDGES \<and> (\<forall>n \<in> set (ag_nodes g). is_alias (gn_instance n)) \<and>
    (\<forall>e \<in> set (ag_edges g). is_alias (ge_caller e) \<and> is_alias (ge_provider e) \<and> is_alias (ge_alias e) \<and>
       \<not> interfaces_invalid env (ge_interfaces e))"
proof -
  have "try_fold (validate_node env) seen ns = Inr seen' \<Longrightarrow>
      (\<forall>n \<in> set ns. is_alias (gn_instance n)) \<and> seen' = seen \<union> gn_instance ` set ns" for seen ns seen'
    by (induction ns arbitrary: seen) (auto simp: validate_node_def result_simps)
  with assms show ?thesis
    by (fastforce simp: validate_graph_def result_simps try_fold_unit validate_graph_edge_def not_less)
qed

lemma alias_text: "is_alias s \<Longrightarrow> is_bounded_text s 256 False"
proof -
  assume a: "is_alias s"
  have ascii: "chars s = map of_char s \<and> \<not> list_ex is_control (chars s) \<and> \<not> list_ex is_whitespace (chars s)" if "list_all name_byte s"
    using that by (induction s) (auto simp: name_byte_def text_defs)
  with a have "length (chars s) \<le> 48" "chars s \<noteq> []" by (auto simp: is_alias_def)
  with a ascii show ?thesis by (cases "chars s") (auto simp: is_alias_def is_bounded_text_def blank_def)
qed

text \<open>Grants follow the graph.  A validated graph always yields an authority, whose active grants for an
  instance are exactly its edges, and which is isolated exactly when no two instances call each other.\<close>

theorem grants_follow_graph:
  assumes "validate_graph env g = Inr ()"
  shows "\<exists>a. authority_from_graph env g generation = Inr a \<and>
    (\<forall>caller. active_grants_for_caller a caller = map (grant_of generation) (filter (\<lambda>e. ge_caller e = caller) (ag_edges g))) \<and>
    (provider_authority_is_isolated a \<longleftrightarrow>
      (\<forall>e \<in> set (ag_edges g). \<forall>f \<in> set (ag_edges g). \<not> (ge_caller f = ge_provider e \<and> ge_provider f = ge_caller e)))"
proof -
  let ?a = "\<lparr>ra_format_version = APPROVED_GRAPH_FORMAT_VERSION, ra_grants = map (grant_of generation) (ag_edges g)\<rparr>"
  have "authority_from_graph env g generation = Inr ?a"
    using validate_graph_edges [OF assms]
    by (auto simp: authority_from_graph_def Let_def result_simps validate_authority_def try_fold_unit validate_grant_def
        grant_of_def alias_text)
  moreover have "active_grants_for_caller ?a caller = map (grant_of generation) (filter (\<lambda>e. ge_caller e = caller) (ag_edges g))" for caller
    by (simp add: active_grants_for_caller_def filter_map o_def grant_of_def)
  moreover have "provider_authority_is_isolated ?a \<longleftrightarrow>
      (\<forall>e \<in> set (ag_edges g). \<forall>f \<in> set (ag_edges g). \<not> (ge_caller f = ge_provider e \<and> ge_provider f = ge_caller e))"
    by (auto simp: provider_authority_is_isolated_def list_all_iff list_ex_iff grant_of_def)
  ultimately show ?thesis by blast
qed

section \<open>Cycles through the root, colliding names\<close>

definition demo_dependency :: "string \<Rightarrow> cartridge_dependency" where
  "demo_dependency cid = \<lparr>cd_alias = ''x'', cd_cartridge = cid, cd_version = ''1'', cd_interfaces = [''n:p/i@1''],
     cd_optional = False, cd_reason = []\<rparr>"

definition demo_service :: provided_service where
  "demo_service = \<lparr>ps_name = ''s'', ps_interface = ''n:p/i@1'', ps_visibility = PublicService, ps_description = []\<rparr>"

text \<open>A package that depends on another one.\<close>

definition demo_cartridge :: "string \<Rightarrow> string \<Rightarrow> package_manifest" where
  "demo_cartridge cid other = demo_manifest cid [demo_dependency other] [demo_service] demo_migrations"

lemma demo_cartridge_key [simp]: "manifest_id (demo_cartridge cid other) = cid" "manifest_version (demo_cartridge cid other) = ''1''"
  "pk_dependencies (demo_cartridge cid other) = [demo_dependency other]" "external_interfaces (demo_cartridge cid other) = [''n:p/i@1'']"
  by (simp_all add: demo_cartridge_def demo_manifest_def external_interfaces_def demo_service_def)

lemma demo_version_ok: "version_ok demo_package_env ''1''"
  by (simp add: version_ok_def demo_package_env_def)

lemma demo_interface_ok: "validate_interface (version_ok demo_package_env) ''n:p/i@1'' = Inr ()"
  by (simp add: validate_interface_def demo_version_ok validate_wit_name_def name_byte_def text_defs)

lemma demo_cartridge_ok:
  assumes "validate_id cid = Inr ()" and "validate_id other = Inr ()" and "cid \<noteq> other"
  shows "validate_package demo_package_env (demo_cartridge cid other) = Some (Inr ())"
proof -
  have "validate_relationships demo_package_env (demo_cartridge cid other) = Inr ()"
    using assms demo_interface_ok
    by (simp add: validate_relationships_def demo_cartridge_def demo_manifest_def demo_dependency_def demo_service_def
        dependency_step_def service_step_def dependency_interface_def validate_alias_def validate_human_text_def manifest_consts
        demo_package_env_def name_byte_def text_defs)
  then show ?thesis
    using assms(1) demo_head_ok [of cid] demo_state_ok [of cid]
    by (simp add: validate_package_def demo_cartridge_def) (simp add: demo_manifest_def validate_integrity_def)
qed

lemma demo_ids: "validate_id ''a.b.c'' = Inr ()" "validate_id ''d.e.f'' = Inr ()" "validate_id ''g.h.i'' = Inr ()"
  by (simp_all add: validate_id_def valid_segment_def name_byte_def text_defs)

definition demo_candidates :: "package_manifest list" where
  "demo_candidates = [demo_cartridge ''a.b.c'' ''d.e.f'', demo_cartridge ''d.e.f'' ''a.b.c'']"

lemma demo_candidates_ok: "candidates_ok demo_package_env demo_candidates"
  by (simp add: candidates_ok_def demo_candidates_def MAX_RESOLUTION_CANDIDATES_def manifest_key_def demo_cartridge_ok demo_ids)

lemma demo_semver: "semver_ok demo_package_env"
  by (simp add: semver_ok_def demo_package_env_def)

definition demo_resolved :: "string \<Rightarrow> resolved_dependency" where
  "demo_resolved cid = \<lparr>rd_alias = ''x'', rd_cartridge = cid, rd_version = ''1'', rd_interfaces = [''n:p/i@1'']\<rparr>"

lemma demo_resolve:
  assumes "validate_package demo_package_env (demo_cartridge cid other) = Some (Inr ())" and "other \<in> {''a.b.c'', ''d.e.f''}"
  shows "resolve_dependencies demo_package_env (demo_cartridge cid other) demo_candidates =
    Some (Inr \<lparr>rp_resolved = [demo_resolved other], rp_unavailable_optional = []\<rparr>)"
proof -
  have v: "version_parse demo_package_env ''1'' = Some ''1''" "req_parse demo_package_env ''1'' = Some ''1''"
    "req_matches demo_package_env ''1'' ''1''" "version_display demo_package_env ''1'' = ''1''"
    by (simp_all add: demo_package_env_def starts_with_def)
  show ?thesis
    unfolding resolve_dependencies_Inr using assms demo_candidates_ok v
    by (auto simp: resolve_step_def demo_dependency_def select_provider_def demo_candidates_def List.map_filter_def
        matching_version_def sort_descending_def provides_all_def resolved_entry_def demo_resolved_def)
qed

lemma demo_find: "find_manifest demo_candidates (''a.b.c'', ''1'') = Some (demo_cartridge ''a.b.c'' ''d.e.f'')"
  "find_manifest demo_candidates (''d.e.f'', ''1'') = Some (demo_cartridge ''d.e.f'' ''a.b.c'')"
  by (simp_all add: find_manifest_def demo_candidates_def manifest_key_def)

definition demo_edge :: "string \<Rightarrow> string \<Rightarrow> graph_edge" where
  "demo_edge caller provider = \<lparr>ge_caller = caller, ge_provider = provider, ge_alias = ''x'', ge_interfaces = [''n:p/i@1'']\<rparr>"

definition demo_node :: "string \<Rightarrow> string \<Rightarrow> graph_node" where
  "demo_node inst cid = \<lparr>gn_instance = inst, gn_cartridge_id = cid, gn_version = ''1'', gn_interfaces = [''n:p/i@1'']\<rparr>"

definition demo_graph :: approved_graph where
  "demo_graph = \<lparr>ag_format_version = 1, ag_root_instance = ''root'',
     ag_nodes = [demo_node ''root'' ''a.b.c'', demo_node ''d-e-f-v1'' ''d.e.f''],
     ag_edges = [demo_edge ''d-e-f-v1'' ''root'', demo_edge ''root'' ''d-e-f-v1''], ag_unavailable_optional = []\<rparr>"

lemma decimal_one: "decimal (Suc 0) = ''1''"
  by code_simp

lemma demo_instance: "new_instance demo_package_env (demo_resolved cid) st =
    (let c = unwrap_or (bt_get (gs_counts st) cid) 0 + 1 in
     ((if c = 1 then dashed cid else dashed cid @ ''-'' @ decimal c) @ ''-v1'', bt_insert cid c (gs_counts st)))"
  by (simp add: new_instance_def next_instance_id_def instance_name_def demo_resolved_def demo_package_env_def starts_with_def
      Let_def decimal_one)

lemma demo_resolved_sel: "dependency_key (demo_resolved cid) = (cid, ''1'')" "rd_alias (demo_resolved cid) = ''x''"
  "rd_cartridge (demo_resolved cid) = cid" "rd_version (demo_resolved cid) = ''1''"
  "rd_interfaces (demo_resolved cid) = [''n:p/i@1'']"
  by (simp_all add: dependency_key_def demo_resolved_def)

lemmas demo_expand = build_approved_graph_def root_state_def expand_graph.simps MAX_TRANSITIVE_DEPTH_def MAX_GRAPH_NODES_def
  run_map_err_def graph_updates demo_instance demo_resolved_sel demo_find dashed_def unwrap_or_def bt_get_def manifest_key_def
  Let_def less_char_def

lemma demo_build: "build_approved_graph demo_package_env (demo_cartridge ''a.b.c'' ''d.e.f'') demo_candidates = Some (Inr demo_graph)"
proof -
  have r: "resolve_dependencies demo_package_env (demo_cartridge ''a.b.c'' ''d.e.f'') demo_candidates =
      Some (Inr \<lparr>rp_resolved = [demo_resolved ''d.e.f''], rp_unavailable_optional = []\<rparr>)"
    "resolve_dependencies demo_package_env (demo_cartridge ''d.e.f'' ''a.b.c'') demo_candidates =
      Some (Inr \<lparr>rp_resolved = [demo_resolved ''a.b.c''], rp_unavailable_optional = []\<rparr>)"
    by (rule demo_resolve; simp add: demo_cartridge_ok demo_ids)+
  show ?thesis
    by (simp add: demo_expand r demo_graph_def demo_node_def demo_edge_def APPROVED_GRAPH_FORMAT_VERSION_def)
qed

lemma demo_graph_ok: "validate_graph demo_package_env demo_graph = Inr ()"
  by (simp add: validate_graph_def demo_graph_def validate_node_def validate_graph_edge_def interfaces_invalid_def
      demo_interface_ok demo_version_ok demo_node_def demo_edge_def identifier_defs text_defs
      APPROVED_GRAPH_FORMAT_VERSION_def MAX_GRAPH_NODES_def MAX_GRAPH_EDGES_def)

lemma demo_build_cycle: "build_approved_graph demo_package_env (demo_cartridge ''g.h.i'' ''a.b.c'') demo_candidates =
    Some (Inl (GraphCycle ''d-e-f-v1'' ''x''))"
proof -
  have r: "resolve_dependencies demo_package_env (demo_cartridge ''g.h.i'' ''a.b.c'') demo_candidates =
      Some (Inr \<lparr>rp_resolved = [demo_resolved ''a.b.c''], rp_unavailable_optional = []\<rparr>)"
    "resolve_dependencies demo_package_env (demo_cartridge ''a.b.c'' ''d.e.f'') demo_candidates =
      Some (Inr \<lparr>rp_resolved = [demo_resolved ''d.e.f''], rp_unavailable_optional = []\<rparr>)"
    "resolve_dependencies demo_package_env (demo_cartridge ''d.e.f'' ''a.b.c'') demo_candidates =
      Some (Inr \<lparr>rp_resolved = [demo_resolved ''a.b.c''], rp_unavailable_optional = []\<rparr>)"
    by (rule demo_resolve; simp add: demo_cartridge_ok demo_ids)+
  show ?thesis
    by (simp add: demo_expand r)
qed

text \<open>C19: a cycle through the root goes unnoticed.  Two packages that depend on each other are reported as a cycle when
  a third one depends on them, but the graph of either of them is built and passes validation although its
  two instances call each other.\<close>

theorem root_cycle_unnoticed:
  "\<exists>env :: (string, string) package_env. \<exists>a b c g inst alias. semver_ok env \<and>
     build_approved_graph env c [a, b] = Some (Inl (GraphCycle inst alias)) \<and>
     build_approved_graph env a [a, b] = Some (Inr g) \<and> validate_graph env g = Inr () \<and>
     (\<exists>e \<in> set (ag_edges g). \<exists>f \<in> set (ag_edges g). ge_caller f = ge_provider e \<and> ge_provider f = ge_caller e)"
  using demo_semver demo_build demo_build_cycle demo_graph_ok
  by (intro exI [of _ demo_package_env] exI [of _ "demo_cartridge ''a.b.c'' ''d.e.f''"]
      exI [of _ "demo_cartridge ''d.e.f'' ''a.b.c''"] exI [of _ "demo_cartridge ''g.h.i'' ''a.b.c''"] exI [of _ demo_graph]
      exI [of _ "''d-e-f-v1''"] exI [of _ "''x''"])
    (simp add: demo_candidates_def demo_graph_def demo_edge_def)

text \<open>Different packages can get the same instance name: dots become hyphens, which identifiers may contain, and a
  counter is appended after a hyphen.\<close>

lemma instance_names_collide:
  "fst (next_instance_id ''dev.a.b-c'' []) = ''dev-a-b-c'' \<and> fst (next_instance_id ''dev.a-b.c'' []) = ''dev-a-b-c''"
  by (simp add: next_instance_id_def dashed_def bt_get_def unwrap_or_def)

section \<open>Examples\<close>

theorem resolution_exact_witness:
  "\<exists>plan. resolve_dependencies demo_package_env (demo_cartridge ''a.b.c'' ''d.e.f'') demo_candidates = Some (Inr plan)"
proof -
  have "resolvable demo_package_env demo_candidates (demo_dependency ''d.e.f'')"
    by (simp add: resolvable_def demo_candidates_def eligible_def demo_dependency_def provides_all_def demo_package_env_def starts_with_def)
  then show ?thesis
    using resolution_exact [OF demo_semver demo_candidates_ok demo_cartridge_ok [OF demo_ids(1,2)]] by simp
qed

theorem approved_graph_sound_witness: "node_wired demo_package_env demo_candidates demo_graph (demo_cartridge ''a.b.c'' ''d.e.f'') ''root''"
  using approved_graph_sound [OF demo_build demo_graph_ok] by blast

theorem grants_follow_graph_witness:
  "\<exists>a. authority_from_graph demo_package_env demo_graph 7 = Inr a \<and> \<not> provider_authority_is_isolated a"
  using grants_follow_graph [OF demo_graph_ok, of 7] by (auto simp: demo_graph_def demo_edge_def)

end
