(* ===== verification/Spec2Isabelle.thy ===== *)
theory Spec2Isabelle
  imports Memory_Storage Network_Http Network_Flow Network_Document Engine_Routes
    Asset_Root Resolver_Graph
begin

text \<open>
  A verification development for the cartridge runtime (\<^verbatim>\<open>src/crates\<close>), a host for sandboxed WebAssembly
  packages.  A \<^emph>\<open>stack\<close> is a set of package instances an operator wants to run.  The engine keeps the desired
  state of each stack as a journal of sealed events, the observed state of its replicas as runtime status
  documents, and moves from one generation to the next by rollouts; the packages use transactional
  key-value storage and mediated networking.

  \<^bold>\<open>Conventions.\<close>  A Rust \<^verbatim>\<open>struct\<close> is a record, an \<^verbatim>\<open>enum\<close> a datatype, \<^verbatim>\<open>Result<T, E>\<close> the sum
  \<open>'e + 'a\<close>, a \<^verbatim>\<open>BTreeMap\<close> the sorted list of its entries (\<open>Ordered_Map\<close>), a \<^verbatim>\<open>BTreeSet\<close> a set, an
  unsigned integer a natural number with its checked, saturating or wrapping addition written out
  (\<open>Prelude\<close>), \<^verbatim>\<open>String\<close> a list of characters and bytes 8-bit words.  A method on \<^verbatim>\<open>&mut self\<close> returns its result
  and the new state, also when it fails.  Each message of an error is a constructor.  Third-party code is
  a parameter: the JSON serialiser with SHA-256 as a \<open>codec\<close> (\<open>Sealed\<close>), semver and URL parsing, the
  ciphers, and the clock and the random numbers as arguments.

  \<^bold>\<open>Storage\<close> (\<^verbatim>\<open>cartridge-storage/src/lib.rs\<close>).  \<open>Storage\<close> has the data, limits, validators and the
  transaction routine, and shows that it succeeds exactly when the entries it produces are within the quota.
  \<open>Storage_Backend\<close> is the contract of the \<^verbatim>\<open>StorageBackend\<close> trait as a locale; \<open>Memory_Storage\<close> has every
  operation of \<^verbatim>\<open>MemoryStorage\<close>, interprets the contract and shows that the usage counter is exact, that a
  revision identifies the contents and that no update is lost.

  \<^bold>\<open>Network\<close> (\<^verbatim>\<open>cartridge-network/src/lib.rs\<close>).  \<open>Network_Http\<close>: scopes, policies and requests, an authorised
  request agrees with a declared scope in method, scheme, host, effective port and path.  \<open>Network_Peer\<close>: encrypted sessions deliver what was sealed, once and in
  order.  \<open>Network_Flow\<close>: the message channel is a bounded queue, assets survive splitting, a datagram is
  accepted once.  \<open>Network_Document\<close>: replicated documents converge when no two operations on a key share
  a stamp and identities do not collide, and stay apart when two newest operations on a key share one.

  \<^bold>\<open>Packages\<close> (\<^verbatim>\<open>cartridge-core\<close> \<^verbatim>\<open>manifest.rs\<close>, \<^verbatim>\<open>resolver.rs\<close>, \<^verbatim>\<open>lib.rs\<close>).  \<open>Identifiers\<close>: names and text.
  \<open>Limits\<close>: effective limits are the meet of request and ceiling.  \<open>Manifest\<close>: package manifests, state migrations and
  negotiation; checking returns, and planning finds the one chain of migrations.  \<open>Asset_Root\<close>: the Merkle root binds
  the assets.  \<open>Composition\<close>: composition locks are closed.  \<open>Resolver\<close>: providers of dependencies; resolution is
  exact and building a graph returns.  \<open>Resolver_Graph\<close>: an accepted graph has all the edges and no cycle below
  the root, while a cycle through the root goes unnoticed.

  \<^bold>\<open>Plans\<close> (\<^verbatim>\<open>cartridge-engine\<close> \<^verbatim>\<open>lib.rs\<close>).  \<open>Plan\<close>: manifests of stacks and plans; an accepted plan allows every instance
  exactly what its profile, request, grants and blocks determine.

  \<^bold>\<open>Engine\<close> (\<^verbatim>\<open>cartridge-engine/src\<close>).  \<open>Journal\<close> (\<^verbatim>\<open>lib.rs\<close>): events and their hash chain.  \<open>Supervisor\<close> and
  \<open>Supervisor_Runs\<close> (\<^verbatim>\<open>supervisor.rs\<close>): the replica state machine and runs of it as a step relation; no
  reachable status is rejected by its own validator, and restarts stay within their budget.  \<open>Health\<close>
  (\<^verbatim>\<open>health.rs\<close>): a ready report means that every replica the plan wants is up, and while one runs it is fresh.  \<open>Rolling\<close> (\<^verbatim>\<open>rolling.rs\<close>): the scheduler of one instance completes
  within \<open>previous + candidate\<close> actions and keeps its budgets.  \<open>Rollout\<close> (\<^verbatim>\<open>rollout.rs\<close>) and
  \<open>Rollout_Progress\<close> (\<^verbatim>\<open>rollout_progress.rs\<close>): the checkpoint of a rollout and the progress document that drives
  all its instances.  \<open>Engine_Store\<close>: the directory of a stack as a record of its files and every operation of
  \<^verbatim>\<open>EngineStore\<close> on it.  \<open>Routing\<close> and \<open>Engine_Routing\<close> (\<^verbatim>\<open>routing.rs\<close>, \<^verbatim>\<open>invocation.rs\<close>): routing snapshots, their
  publication and the channels of replicas.  \<open>Engine_Runs\<close>: sequences of calls; the locales
  \<open>file_relation\<close>, \<open>route_relation\<close> and \<open>store_relation\<close> carry a relation over all operations, and give that
  journals only grow, stacks do not interfere and the store stays well formed.  \<open>Engine_Rollouts\<close>: an active
  rollout fences the desired state, interrupted transitions are completed (except the rollback of a
  committed rollout), a rollback restores what was
  there, a commit needs a healthy candidate.  \<open>Engine_Routes\<close>: where no recovery is pending, published routes are
  exactly the replicas that may receive traffic, routes published from the saved progress read back (others fail
  closed), and their epoch and number identify them.

  \<^bold>\<open>Termination and bounds.\<close>  Loops over lists are folds or structural recursion; \<open>Network_Flow.chunks\<close>,
  \<open>Manifest.asset_levels\<close> and \<open>Resolver.expand_graph\<close>, which is bounded by its depth of 64, have termination proofs.
  The two loops that follow declared migrations are partial functions with results in \<^verbatim>\<open>option\<close>; that every
  operation with them returns is a theorem.  The completion of a rolling update is shown for the explicit number
  of actions above; nothing uses fuel.

  \<^bold>\<open>Not modelled.\<close>  Process control, sockets, the daemon protocol, the command line and the desktop shell
  (\<^verbatim>\<open>cartridge-cli\<close>, \<^verbatim>\<open>cartridge-desktop\<close>, \<^verbatim>\<open>cartridge-dev\<close>) are input and output around the operations above.
  The WebAssembly host (\<^verbatim>\<open>cartridge-runtime\<close>) is glue between wasmtime and the storage and network
  layers.  The file-backed storage, package archives and releases work on file systems and third-party formats.
  Media, signatures, traces, probes and storage snapshots are not covered.  Where the engine uses files, they are
  abstracted to the documents in them: symbolic links, foreign files and I/O errors do not occur, and
  replacing a file is one step.  Locks are not modelled: an operation runs alone, as the engine's file lock
  ensures.
\<close>

end
